theory Spec2Isabelle
  imports Main "HOL-Library.Word" "HOL-Library.List_Lexorder"
begin

section \<open>Page reconciliation (src/btree/rec\_write.c): data model\<close>

text \<open>
  The embedding follows \<^verbatim>\<open>rec_write.c\<close> function by function.  Conventions:
  \<^item> unsigned counters and sizes (\<^verbatim>\<open>uint32_t\<close>, \<^verbatim>\<open>uint64_t\<close>) are naturals, stored
    as they are read (no field is assumed to be in range); the arithmetic on the
    counters of the reconciliation structure (entries, space available, record numbers,
    run lengths) is written with its wrap-around (\<open>u32\<close>, \<open>u64\<close>), except where a test
    of the source just before excludes it (the salvage counts).  Lengths of byte strings
    and differences of offsets into one buffer (\<^verbatim>\<open>WT_PTRDIFF32\<close>) are plain naturals;
  \<^item> a pointer into the working disk image (\<^verbatim>\<open>first_free\<close>, a boundary's \<^verbatim>\<open>start\<close>) is
    the byte offset from \<^verbatim>\<open>WT_PAGE_DISK_BYTE(dsk)\<close>, the first byte after the header;
  \<^item> the page header \<^verbatim>\<open>WT_PAGE_DISK\<close> is a record of the fields reconciliation sets,
    its byte layout (in the absent \<^verbatim>\<open>wt_internal.h\<close>) is not modelled;
  \<^item> a function returning \<^verbatim>\<open>int\<close> returns \<open>error + state\<close>; \<^verbatim>\<open>WT_RET\<close>/\<^verbatim>\<open>WT_ERR\<close> are the
    \<open>Inl\<close> branches; \<^verbatim>\<open>WT_ASSERT_RET\<close> returns \<open>WT_ERROR\<close>; \<^verbatim>\<open>WT_ASSERT\<close> (diagnostic
    builds only) is not executed; memory allocation succeeds;
  \<^item> the cell codec, the Huffman codecs, the block manager and the constants of
    \<^verbatim>\<open>wt_internal.h\<close> are external: they are the fields of the record \<open>env\<close>.
\<close>

type_synonym byte = "8 word"
type_synonym bytes = "byte list"

datatype error =
    WT_ERROR         \<comment> \<open>a failed \<^verbatim>\<open>WT_ASSERT_RET\<close>, or \<^verbatim>\<open>WT_ILLEGAL_FORMAT\<close>\<close>
  | Fault            \<comment> \<open>a NULL dereference or a read of the wrong union member\<close>
  | Ext int          \<comment> \<open>the nonzero return of an external function\<close>

record wt_off =
  off_addr :: nat
  off_size :: nat

datatype page_type =
    WT_PAGE_COL_FIX | WT_PAGE_COL_INT | WT_PAGE_COL_VAR
  | WT_PAGE_OVFL | WT_PAGE_ROW_INT | WT_PAGE_ROW_LEAF

datatype cell_type =
    WT_CELL_DEL | WT_CELL_KEY | WT_CELL_KEY_OVFL
  | WT_CELL_OFF | WT_CELL_VALUE | WT_CELL_VALUE_OVFL

text \<open>\<^verbatim>\<open>WT_CELL_UNPACK\<close>: what \<^verbatim>\<open>__wt_cell_unpack\<close> reports about a cell.\<close>

record cell_unpack =
  u_type :: cell_type
  u_prefix :: nat
  u_ovfl :: bool
  u_rle :: nat
  u_len :: nat           \<comment> \<open>the cell's total length in bytes\<close>
  u_off :: wt_off

text \<open>\<^verbatim>\<open>WT_PAGE_DISK\<close>: \<open>d_entries\<close> is the union \<^verbatim>\<open>u\<close> (\<^verbatim>\<open>u.entries\<close>, or
  \<^verbatim>\<open>u.datalen\<close> on an overflow page).\<close>

record page_disk =
  d_type :: page_type
  d_recno :: nat
  d_entries :: nat

text \<open>What \<^verbatim>\<open>__wt_block_write\<close> is handed: the header and the \<^verbatim>\<open>size\<close> bytes of the
  buffer that follow it.\<close>

record disk_image =
  im_hdr :: page_disk
  im_bytes :: bytes

text \<open>The block manager is outside the repository's reconciliation code.  Its state here
  is the log of the calls made: the images written with the address pairs returned, and
  the address pairs freed.\<close>

record blk =
  blk_writes :: "(disk_image \<times> wt_off) list"
  blk_frees :: "wt_off list"

record env =
  WT_PAGE_DISK_SIZE :: nat
  WT_ADDR_INVALID :: nat
  wt_off_bytes :: "wt_off \<Rightarrow> bytes"                  \<comment> \<open>the bytes of a \<^verbatim>\<open>WT_OFF\<close> structure\<close>
  wt_cell_pack_key :: "nat \<Rightarrow> nat \<Rightarrow> bytes"           \<comment> \<open>prefix, size\<close>
  wt_cell_pack_data :: "nat \<Rightarrow> nat \<Rightarrow> bytes"          \<comment> \<open>rle, size\<close>
  wt_cell_pack_type :: "cell_type \<Rightarrow> nat \<Rightarrow> bytes"    \<comment> \<open>type, rle\<close>
  wt_cell_unpack :: "bytes \<Rightarrow> cell_unpack"
  wt_cell_unpack_copy :: "bytes \<Rightarrow> error + bytes"     \<comment> \<open>the cell's key or value, decoded\<close>
  wt_cell_copy :: "bytes \<Rightarrow> error + bytes"
  wt_block_write :: "blk \<Rightarrow> disk_image \<Rightarrow> error + wt_off"
  wt_block_free :: "blk \<Rightarrow> wt_off \<Rightarrow> error option"
  huffman_key :: "(bytes \<Rightarrow> error + bytes) option"
  huffman_value :: "(bytes \<Rightarrow> error + bytes) option"
  maxintlpage :: nat
  maxleafpage :: nat
  maxintlitem :: nat
  maxleafitem :: nat
  allocsize :: nat
  WT_SPLIT_PAGE_SIZE :: "nat \<Rightarrow> nat \<Rightarrow> nat \<Rightarrow> nat"   \<comment> \<open>max, allocsize, split\_pct\<close>

subsection \<open>Pages\<close>

text \<open>The bits of \<^verbatim>\<open>WT_PAGE_REC_MASK\<close> in \<^verbatim>\<open>page->flags\<close>, and \<^verbatim>\<open>WT_PAGE_BULK_LOAD\<close>.\<close>

record page_flags =
  f_rec_empty :: bool
  f_rec_replace :: bool
  f_rec_split :: bool
  f_bulk_load :: bool

datatype rec_mask = REC_EMPTY | REC_REPLACE | REC_SPLIT | REC_OTHER

text \<open>\<^verbatim>\<open>switch (F_ISSET(page, WT_PAGE_REC_MASK))\<close>: a \<^verbatim>\<open>case\<close> label matches when its bit is
  the only one of the mask that is set; anything else is \<^verbatim>\<open>default\<close>.\<close>

definition F_ISSET_REC_MASK :: "page_flags \<Rightarrow> rec_mask" where
  "F_ISSET_REC_MASK f =
     (if f_rec_empty f \<and> \<not> f_rec_replace f \<and> \<not> f_rec_split f then REC_EMPTY
      else if f_rec_replace f \<and> \<not> f_rec_empty f \<and> \<not> f_rec_split f then REC_REPLACE
      else if f_rec_split f \<and> \<not> f_rec_empty f \<and> \<not> f_rec_replace f then REC_SPLIT
      else REC_OTHER)"

definition F_CLR_REC_MASK :: "page_flags \<Rightarrow> page_flags" where
  "F_CLR_REC_MASK f = f\<lparr>f_rec_empty := False, f_rec_replace := False, f_rec_split := False\<rparr>"

text \<open>\<^verbatim>\<open>WT_IKEY\<close>: an instantiated key.  \<open>ik_cell\<close> is the cell at \<^verbatim>\<open>cell_offset\<close> in the
  page's disk image (\<^verbatim>\<open>WT_REF_OFFSET(page, ikey->cell_offset)\<close>), \<open>None\<close> when
  \<^verbatim>\<open>cell_offset\<close> is 0.\<close>

record ikey =
  ik_cell :: "bytes option"
  ik_data :: bytes

datatype ref_state = WT_REF_DISK | WT_REF_MEM

text \<open>An in-memory page as reconciliation reads it: type, flags, \<^verbatim>\<open>page->modify\<close> (NULL,
  or the structure, of which the union \<^verbatim>\<open>u\<close> is read) and the references of an internal
  page.\<close>

datatype page = Page (pg_type: page_type) (pg_flags: page_flags)
                     (pg_modify: "mod_u option") (pg_u: page_u)
and mod_u = U_unset | U_write_off wt_off | U_write_split page
and page_u = U_row_int "row_ref list" | U_col_int nat "col_ref list" | U_leaf
and row_ref = Row_ref (rr_key: ikey) (rr_addr: nat) (rr_size: nat)
                      (rr_state: ref_state) (rr_page: "page option")
and col_ref = Col_ref (cr_recno: nat) (cr_addr: nat) (cr_size: nat)
                      (cr_state: ref_state) (cr_page: "page option")

subsection \<open>The overflow tracker\<close>

datatype pt_type = WT_PT_EMPTY | WT_PT_BLOCK | WT_PT_OVFL | WT_PT_OVFL_DISCARD

text \<open>\<^verbatim>\<open>WT_PAGE_TRACK\<close>.  \<open>trk_ref\<close> is a pointer compared for identity only: an address,
  \<open>None\<close> for NULL.\<close>

record page_track =
  trk_type :: pt_type
  trk_ref :: "nat option"
  trk_addr :: nat
  trk_size :: nat

subsection \<open>The reconciliation structure\<close>

datatype bnd_state_t = SPLIT_BOUNDARY | SPLIT_MAX | SPLIT_TRACKING_OFF

record boundary =
  b_start :: nat
  b_recno :: nat
  b_entries :: nat
  b_off :: wt_off
  b_key :: bytes

text \<open>\<^verbatim>\<open>WT_KV\<close>.  \<^verbatim>\<open>buf.data\<close> either references bytes of its own or of a page, or it
  points at the structure's own \<^verbatim>\<open>off\<close> field (\<^verbatim>\<open>kv->buf.data = &kv->off\<close>), whose
  value at the time of the copy is what reaches the page.  \<open>kv_cell\<close> is the first
  \<^verbatim>\<open>cell_len\<close> bytes of \<^verbatim>\<open>cell\<close>.\<close>

datatype kv_src = KV_bytes bytes | KV_off

record wt_kv =
  kv_buf :: kv_src
  kv_cell :: bytes
  kv_len :: nat
  kv_off :: wt_off

text \<open>The working disk image \<^verbatim>\<open>r->dsk\<close> and the scratch buffers written from:
  \<open>dsk_mem\<close> is the memory after the header, \<open>dsk_size\<close> is \<^verbatim>\<open>buf->size\<close> (header
  included).\<close>

record disk_buf =
  dsk_hdr :: page_disk
  dsk_mem :: bytes
  dsk_size :: nat

text \<open>The full-key buffers \<^verbatim>\<open>_cur\<close> and \<^verbatim>\<open>_last\<close>: the address of the buffer's memory
  (what \<^verbatim>\<open>buf->data\<close> is after \<^verbatim>\<open>__wt_buf_set\<close>) and its \<^verbatim>\<open>size\<close> bytes.\<close>

record wt_item =
  it_ptr :: nat
  it_data :: bytes

record wt_reconcile =
  r_dsk :: disk_buf
  r_btree_split_pct :: nat
  r_page_size :: nat
  r_split_size :: nat
  r_bnd :: "boundary list"            \<comment> \<open>the \<^verbatim>\<open>bnd_entries\<close> allocated slots\<close>
  r_bnd_next :: nat
  r_total_entries :: nat
  r_bnd_state :: bnd_state_t
  r_recno :: nat
  r_entries :: nat
  r_first_free :: nat
  r_space_avail :: nat
  r_cell_zero :: bool
  r_merge_ref :: "ikey option"        \<comment> \<open>the key of the referenced \<^verbatim>\<open>WT_ROW_REF\<close>\<close>
  r_k :: wt_kv
  r_v :: wt_kv
  r_cur :: wt_item
  r_last :: wt_item
  r_key_pfx_compress :: bool
  r_key_pfx_compress_conf :: bool
  r_key_sfx_compress :: bool
  r_key_sfx_compress_conf :: bool

text \<open>\<^verbatim>\<open>WT_SALVAGE_COOKIE\<close>, the fields reconciliation reads and writes.\<close>

record salvage_cookie =
  sc_missing :: nat
  sc_skip :: nat
  sc_take :: nat
  sc_done :: bool

text \<open>What a reconciliation reads and writes through \<^verbatim>\<open>session\<close>: the structure cached
  on the tree handle, the mutable fields of the page being reconciled (\<^verbatim>\<open>r->page\<close>: its
  type and flags, the union \<^verbatim>\<open>modify->u\<close> and the first \<^verbatim>\<open>track_next\<close> entries of
  \<^verbatim>\<open>modify->track\<close>), the block manager, and the salvage cookie the caller passed
  (\<open>None\<close> for NULL).\<close>

record session =
  reconcile :: wt_reconcile
  page_type :: page_type
  page_flags :: page_flags
  page_mod_u :: mod_u
  track :: "page_track list"
  blk :: blk
  salvage :: "salvage_cookie option"

section \<open>The overflow tracker's operations\<close>

text \<open>\<^verbatim>\<open>__wt_rec_track\<close>: the entry is stored at \<^verbatim>\<open>track[track_next]\<close> and
  \<^verbatim>\<open>track_next\<close> is incremented.\<close>

definition wt_rec_track ::
  "session \<Rightarrow> pt_type \<Rightarrow> nat option \<Rightarrow> nat \<Rightarrow> nat \<Rightarrow> session" where
  "wt_rec_track s ty ref a sz =
     s\<lparr>track := track s @ [\<lparr>trk_type = ty, trk_ref = ref, trk_addr = a, trk_size = sz\<rparr>]\<rparr>"

definition rec_track_cell :: "session \<Rightarrow> cell_unpack \<Rightarrow> session" where
  "rec_track_cell s unpack =
     (if u_ovfl unpack
      then wt_rec_track s WT_PT_BLOCK None (off_addr (u_off unpack)) (off_size (u_off unpack))
      else s)"

text \<open>The loop of \<^verbatim>\<open>__rec_track_ovfl_active\<close>: the first entry of type \<^verbatim>\<open>WT_PT_OVFL\<close> or
  \<^verbatim>\<open>WT_PT_OVFL_DISCARD\<close> whose \<^verbatim>\<open>ref\<close> is \<^verbatim>\<open>orig_data\<close> is set to \<^verbatim>\<open>WT_PT_OVFL\<close> and its
  address pair returned.\<close>

fun track_ovfl_search :: "nat \<Rightarrow> page_track list \<Rightarrow> (wt_off \<times> page_track list) option" where
  "track_ovfl_search p [] = None"
| "track_ovfl_search p (t # ts) =
     (if (trk_type t = WT_PT_OVFL \<or> trk_type t = WT_PT_OVFL_DISCARD) \<and> trk_ref t = Some p
      then Some (\<lparr>off_addr = trk_addr t, off_size = trk_size t\<rparr>,
                 t\<lparr>trk_type := WT_PT_OVFL\<rparr> # ts)
      else (case track_ovfl_search p ts of
              None \<Rightarrow> None
            | Some (off, ts') \<Rightarrow> Some (off, t # ts')))"

definition rec_track_ovfl_active :: "session \<Rightarrow> nat option \<Rightarrow> (wt_off \<times> session) option" where
  "rec_track_ovfl_active s orig_data =
     (case orig_data of
        None \<Rightarrow> None
      | Some p \<Rightarrow>
          (case track_ovfl_search p (track s) of
             None \<Rightarrow> None
           | Some (off, ts') \<Rightarrow> Some (off, s\<lparr>track := ts'\<rparr>)))"


fun rec_track_restart_row :: "session \<Rightarrow> row_ref list \<Rightarrow> session" where
  "rec_track_restart_row s [] = s"
| "rec_track_restart_row s (rref # rs) =
     rec_track_restart_row (wt_rec_track s WT_PT_BLOCK None (rr_addr rref) (rr_size rref)) rs"

fun rec_track_restart_col :: "session \<Rightarrow> col_ref list \<Rightarrow> session" where
  "rec_track_restart_col s [] = s"
| "rec_track_restart_col s (cref # cs) =
     rec_track_restart_col (wt_rec_track s WT_PT_BLOCK None (cr_addr cref) (cr_size cref)) cs"

text \<open>The loop of \<^verbatim>\<open>__wt_rec_discard_track\<close> over the tracked entries, threading the
  block manager; a failing \<^verbatim>\<open>__wt_block_free\<close> returns at once.\<close>

fun discard_track_loop ::
  "env \<Rightarrow> page_track list \<Rightarrow> blk \<Rightarrow> error + (page_track list \<times> blk)" where
  "discard_track_loop e [] b = Inr ([], b)"
| "discard_track_loop e (t # ts) b =
     (if trk_type t = WT_PT_EMPTY \<or> trk_type t = WT_PT_OVFL
      then (case discard_track_loop e ts b of
              Inl err \<Rightarrow> Inl err
            | Inr (ts', b') \<Rightarrow> Inr (t # ts', b'))
      else (case wt_block_free e b \<lparr>off_addr = trk_addr t, off_size = trk_size t\<rparr> of
              Some err \<Rightarrow> Inl err
            | None \<Rightarrow>
                (case discard_track_loop e ts
                        (b\<lparr>blk_frees := blk_frees b @
                              [\<lparr>off_addr = trk_addr t, off_size = trk_size t\<rparr>]\<rparr>) of
                   Inl err \<Rightarrow> Inl err
                 | Inr (ts', b') \<Rightarrow>
                     Inr (\<lparr>trk_type = WT_PT_EMPTY, trk_ref = None,
                           trk_addr = WT_ADDR_INVALID e, trk_size = 0\<rparr> # ts', b'))))"

definition wt_rec_discard_track :: "env \<Rightarrow> session \<Rightarrow> error + session" where
  "wt_rec_discard_track e s =
     (case discard_track_loop e (track s) (blk s) of
        Inl err \<Rightarrow> Inl err
      | Inr (ts', b') \<Rightarrow> Inr (s\<lparr>track := ts', blk := b'\<rparr>))"

section \<open>Buffer bookkeeping and key state\<close>

text \<open>The value of an expression of type \<^verbatim>\<open>uint32_t\<close> or \<^verbatim>\<open>uint64_t\<close>: unsigned
  arithmetic wraps around.\<close>

definition u32 :: "int \<Rightarrow> nat" where
  "u32 i = nat (i mod 4294967296)"

definition u64 :: "int \<Rightarrow> nat" where
  "u64 i = nat (i mod 18446744073709551616)"

text \<open>\<^verbatim>\<open>memcpy(mem + off, bs, len)\<close> on the bytes of a buffer.\<close>

definition mem_write :: "bytes \<Rightarrow> nat \<Rightarrow> bytes \<Rightarrow> bytes" where
  "mem_write mem off bs = take off mem @ bs @ drop (off + length bs) mem"

definition rec_incr :: "wt_reconcile \<Rightarrow> nat \<Rightarrow> nat \<Rightarrow> wt_reconcile" where
  "rec_incr r v sz =
     r\<lparr>r_entries := u32 (int (r_entries r) + int v),
       r_space_avail := u32 (int (r_space_avail r) - int sz),
       r_first_free := r_first_free r + sz\<rparr>"

definition kv_data :: "env \<Rightarrow> wt_kv \<Rightarrow> bytes" where
  "kv_data e kv = (case kv_buf kv of KV_bytes bs \<Rightarrow> bs | KV_off \<Rightarrow> wt_off_bytes e (kv_off kv))"

text \<open>\<^verbatim>\<open>__rec_copy_incr\<close>: the cell bytes, then the data, are copied to \<^verbatim>\<open>first_free\<close>;
  the cursors advance by \<^verbatim>\<open>kv->len\<close>.\<close>

definition rec_copy_incr :: "env \<Rightarrow> wt_reconcile \<Rightarrow> wt_kv \<Rightarrow> wt_reconcile" where
  "rec_copy_incr e r kv =
     (let d = r_dsk r;
          p = r_first_free r;
          m1 = mem_write (dsk_mem d) p (kv_cell kv);
          m2 = (if length (kv_data e kv) \<noteq> 0
                then mem_write m1 (p + length (kv_cell kv)) (kv_data e kv) else m1)
      in rec_incr (r\<lparr>r_dsk := d\<lparr>dsk_mem := m2\<rparr>\<rparr>) 1 (kv_len kv))"

definition rec_key_state_update :: "wt_reconcile \<Rightarrow> bool \<Rightarrow> wt_reconcile" where
  "rec_key_state_update r ovfl_key =
     (if ovfl_key then r\<lparr>r_key_sfx_compress := False\<rparr>
      else r\<lparr>r_cur := r_last r, r_last := r_cur r,
             r_key_pfx_compress := r_key_pfx_compress_conf r,
             r_key_sfx_compress := r_key_sfx_compress_conf r\<rparr>)"

section \<open>The split engine\<close>

text \<open>A slot of the boundary array as \<^verbatim>\<open>__wt_realloc\<close> hands it out: cleared.\<close>

definition bnd_clear :: boundary where
  "bnd_clear = \<lparr>b_start = 0, b_recno = 0, b_entries = 0,
                 b_off = \<lparr>off_addr = 0, off_size = 0\<rparr>, b_key = []\<rparr>"

definition rec_split_bnd_grow :: "wt_reconcile \<Rightarrow> wt_reconcile" where
  "rec_split_bnd_grow r =
     (if r_bnd_next r + 1 \<ge> length (r_bnd r)
      then r\<lparr>r_bnd := r_bnd r @ replicate 20 bnd_clear\<rparr> else r)"

text \<open>\<^verbatim>\<open>__rec_split_init\<close>.  \<^verbatim>\<open>__wt_buf_initsize\<close> makes the buffer at least \<open>maxsz\<close> bytes
  (new memory is cleared, old contents stay) and sets its size.\<close>

definition rec_split_init :: "env \<Rightarrow> session \<Rightarrow> nat \<Rightarrow> nat \<Rightarrow> session" where
  "rec_split_init e s recno maxsz =
     (let r = reconcile s;
          hs = WT_PAGE_DISK_SIZE e;
          r = r\<lparr>r_key_pfx_compress := False, r_key_sfx_compress := False\<rparr>;
          m = dsk_mem (r_dsk r);
          d = \<lparr>dsk_hdr = \<lparr>d_type = page_type s, d_recno = 0, d_entries = 0\<rparr>,
               dsk_mem = m @ replicate ((maxsz - hs) - length m) 0,
               dsk_size = maxsz\<rparr>;
          split = (if page_type s = WT_PAGE_COL_FIX then maxsz
                   else WT_SPLIT_PAGE_SIZE e maxsz (allocsize e) (r_btree_split_pct r));
          r = r\<lparr>r_dsk := d, r_page_size := maxsz, r_split_size := split,
                r_bnd_state := (if maxsz = split then SPLIT_TRACKING_OFF else SPLIT_BOUNDARY),
                r_bnd_next := 0\<rparr>;
          r = rec_split_bnd_grow r;
          r = r\<lparr>r_bnd := (r_bnd r)[0 := (r_bnd r ! 0)\<lparr>b_recno := recno, b_start := 0\<rparr>]\<rparr>;
          r = r\<lparr>r_total_entries := 0, r_recno := recno, r_entries := 0,
                r_first_free := 0, r_space_avail := u32 (int split - int hs)\<rparr>
      in s\<lparr>reconcile := r\<rparr>)"

text \<open>\<^verbatim>\<open>__rec_split_write\<close> for the boundary slot \<open>i\<close> and the buffer \<open>buf\<close>, which on
  a row-store leaf page gets the trailing key cell (so the buffer is returned).  The
  buffer's \<^verbatim>\<open>memsize\<close> is the header plus \<open>dsk_mem\<close>.\<close>

definition rec_split_write ::
  "env \<Rightarrow> session \<Rightarrow> nat \<Rightarrow> disk_buf \<Rightarrow> error + (session \<times> disk_buf)" where
  "rec_split_write e s i buf =
     (let hs = WT_PAGE_DISK_SIZE e in
      if d_type (dsk_hdr buf) = WT_PAGE_ROW_LEAF \<and>
         \<not> dsk_size buf < hs + length (dsk_mem buf)
      then Inl WT_ERROR
      else
        let buf = (if d_type (dsk_hdr buf) = WT_PAGE_ROW_LEAF
                   then buf\<lparr>dsk_mem := mem_write (dsk_mem buf) (dsk_size buf - hs)
                                           (wt_cell_pack_type e WT_CELL_KEY 0),
                            dsk_size := dsk_size buf + 1\<rparr>
                   else buf);
            im = \<lparr>im_hdr = dsk_hdr buf, im_bytes = take (dsk_size buf - hs) (dsk_mem buf)\<rparr>
        in case wt_block_write e (blk s) im of
             Inl err \<Rightarrow> Inl err
           | Inr off \<Rightarrow>
               let r = reconcile s;
                   r = r\<lparr>r_bnd := (r_bnd r)[i := (r_bnd r ! i)\<lparr>b_off := off\<rparr>]\<rparr>
               in Inr (s\<lparr>reconcile := r,
                         blk := (blk s)\<lparr>blk_writes := blk_writes (blk s) @ [(im, off)]\<rparr>\<rparr>,
                       buf))"

text \<open>The loop of \<^verbatim>\<open>__rec_split_fixup\<close> over the saved boundaries \<open>i\<close>, with the
  scratch buffer \<open>tmp\<close>.\<close>

fun rec_split_fixup_loop ::
  "env \<Rightarrow> nat list \<Rightarrow> session \<Rightarrow> disk_buf \<Rightarrow> error + (session \<times> disk_buf)" where
  "rec_split_fixup_loop e [] s tmp = Inr (s, tmp)"
| "rec_split_fixup_loop e (i # is) s tmp =
     (let r = reconcile s;
          len = b_start (r_bnd r ! (i + 1)) - b_start (r_bnd r ! i);
          tmp = tmp\<lparr>dsk_mem := mem_write (dsk_mem tmp) 0
                                    (take len (drop (b_start (r_bnd r ! i)) (dsk_mem (r_dsk r)))),
                    dsk_hdr := (dsk_hdr tmp)\<lparr>d_recno := b_recno (r_bnd r ! i),
                                              d_entries := b_entries (r_bnd r ! i)\<rparr>,
                    dsk_size := WT_PAGE_DISK_SIZE e + len\<rparr>
      in case rec_split_write e s i tmp of
           Inl err \<Rightarrow> Inl err
         | Inr (s', tmp') \<Rightarrow> rec_split_fixup_loop e is s' tmp')"

text \<open>\<^verbatim>\<open>__rec_split_fixup\<close>.  The scratch buffer has \<^verbatim>\<open>split_size\<close> bytes, the header
  copied from the working image.\<close>

definition rec_split_fixup :: "env \<Rightarrow> session \<Rightarrow> error + session" where
  "rec_split_fixup e s =
     (let r = reconcile s;
          hs = WT_PAGE_DISK_SIZE e;
          tmp = \<lparr>dsk_hdr = dsk_hdr (r_dsk r),
                 dsk_mem = replicate (r_split_size r - hs) 0,
                 dsk_size = 0\<rparr>
      in case rec_split_fixup_loop e [0 ..< r_bnd_next r] s tmp of
           Inl err \<Rightarrow> Inl err
         | Inr (s', tmp') \<Rightarrow>
             let r = reconcile s';
                 start = b_start (r_bnd r ! r_bnd_next r);
                 len = r_first_free r - start
             in if \<not> len < u32 (int (r_split_size r) - int hs) then Inl WT_ERROR
                else
                  let d = r_dsk r;
                      d = d\<lparr>dsk_mem := mem_write (dsk_mem d) 0
                                            (take len (drop start (dsk_mem d)))\<rparr>;
                      r = r\<lparr>r_dsk := d,
                            r_entries := u32 (int (r_entries r) - int (r_total_entries r)),
                            r_first_free := len,
                            r_space_avail := u32 (int (r_split_size r) - int hs - int len)\<rparr>
                  in Inr (s'\<lparr>reconcile := r\<rparr>))"

text \<open>The suffix-compression loop of \<^verbatim>\<open>__rec_split_row_promote\<close>:
  \<^verbatim>\<open>for (cnt = 1; len > 0; ++cnt, --len, ++pa, ++pb) if (*pa != *pb) { size = cnt; break; }\<close>\<close>

fun sfx_loop :: "bytes \<Rightarrow> bytes \<Rightarrow> nat \<Rightarrow> nat \<Rightarrow> nat \<Rightarrow> nat" where
  "sfx_loop pa pb cnt 0 sz = sz"
| "sfx_loop pa pb cnt (Suc len) sz =
     (if hd pa \<noteq> hd pb then cnt else sfx_loop (tl pa) (tl pb) (cnt + 1) len sz)"

text \<open>The first block of \<^verbatim>\<open>__rec_split_row_promote\<close>: at the first boundary
  (\<^verbatim>\<open>r->bnd_next == 1\<close>) the key of the first cell of the image being built, the bytes of
  the working buffer from \<^verbatim>\<open>WT_PAGE_DISK_BYTE\<close> on, is copied into \<^verbatim>\<open>r->bnd[0].key\<close>.\<close>

definition rec_split_row_promote_first :: "env \<Rightarrow> wt_reconcile \<Rightarrow> error + wt_reconcile" where
  "rec_split_row_promote_first e r =
     (if r_bnd_next r = 1
      then (let cell = dsk_mem (r_dsk r);
                unpack = wt_cell_unpack e cell
            in if \<not> (u_prefix unpack = 0 \<or> u_type unpack = WT_CELL_KEY_OVFL)
               then Inl WT_ERROR
               else (case wt_cell_unpack_copy e cell of
                       Inl err \<Rightarrow> Inl err
                     | Inr key \<Rightarrow>
                         Inr (r\<lparr>r_bnd := (r_bnd r)[0 := (r_bnd r ! 0)\<lparr>b_key := key\<rparr>]\<rparr>)))
      else Inr r)"

text \<open>The second block: the number of bytes of the current key to promote.\<close>

definition rec_split_row_promote_size :: "wt_reconcile \<Rightarrow> page_type \<Rightarrow> nat" where
  "rec_split_row_promote_size r ty =
     (if ty = WT_PAGE_ROW_LEAF \<and> r_key_sfx_compress r
      then (let len = min (length (it_data (r_last r))) (length (it_data (r_cur r)))
            in sfx_loop (it_data (r_last r)) (it_data (r_cur r)) 1 len (len + 1))
      else length (it_data (r_cur r)))"

text \<open>\<^verbatim>\<open>__rec_split_row_promote\<close>.  \<^verbatim>\<open>__wt_buf_set\<close> of more bytes than the current key
  holds reads past the key: \<open>Fault\<close>.\<close>

definition rec_split_row_promote :: "env \<Rightarrow> session \<Rightarrow> page_type \<Rightarrow> error + session" where
  "rec_split_row_promote e s ty =
     (case rec_split_row_promote_first e (reconcile s) of
        Inl err \<Rightarrow> Inl err
      | Inr r \<Rightarrow>
          let sz = rec_split_row_promote_size r ty
          in if sz > length (it_data (r_cur r)) then Inl Fault
             else Inr (s\<lparr>reconcile :=
                          r\<lparr>r_bnd := (r_bnd r)[r_bnd_next r :=
                                (r_bnd r ! r_bnd_next r)\<lparr>b_key := take sz (it_data (r_cur r))\<rparr>]\<rparr>\<rparr>))"

definition is_row_type :: "page_type \<Rightarrow> bool" where
  "is_row_type ty = (ty = WT_PAGE_ROW_INT \<or> ty = WT_PAGE_ROW_LEAF)"

text \<open>\<^verbatim>\<open>__rec_split\<close>, the three cases of \<^verbatim>\<open>switch (r->bnd_state)\<close>.\<close>

definition rec_split_boundary :: "env \<Rightarrow> session \<Rightarrow> error + session" where
  "rec_split_boundary e s =
     (let hs = WT_PAGE_DISK_SIZE e;
          r = rec_split_bnd_grow (reconcile s);
          i = r_bnd_next r;
          r = r\<lparr>r_bnd_next := i + 1\<rparr>;
          r = r\<lparr>r_bnd := (r_bnd r)[i := (r_bnd r ! i)\<lparr>b_entries := u32 (int (r_entries r) - int (r_total_entries r))\<rparr>],
                r_total_entries := r_entries r\<rparr>;
          r = r\<lparr>r_bnd := (r_bnd r)[i + 1 := (r_bnd r ! (i + 1))\<lparr>b_recno := r_recno r,
                                                                b_start := r_first_free r\<rparr>]\<rparr>;
          ty = d_type (dsk_hdr (r_dsk r))
      in case (if is_row_type ty then rec_split_row_promote e (s\<lparr>reconcile := r\<rparr>) ty
               else Inr (s\<lparr>reconcile := r\<rparr>)) of
           Inl err \<Rightarrow> Inl err
         | Inr s \<Rightarrow>
             let r = reconcile s;
                 r = r\<lparr>r_bnd := (r_bnd r)[i + 1 := (r_bnd r ! (i + 1))\<lparr>b_entries := 0\<rparr>]\<rparr>;
                 current_len = u32 (int hs + int (r_first_free r));
                 r = (if u32 (int current_len + int (r_split_size r)) \<le> r_page_size r
                      then r\<lparr>r_space_avail := u32 (int (r_split_size r) - int hs)\<rparr>
                      else r\<lparr>r_bnd_state := SPLIT_MAX,
                             r_space_avail := u32 (int (r_page_size r) - int hs - int current_len)\<rparr>)
             in Inr (s\<lparr>reconcile := r\<rparr>))"

definition rec_split_max :: "env \<Rightarrow> session \<Rightarrow> error + session" where
  "rec_split_max e s =
     (case rec_split_fixup e s of
        Inl err \<Rightarrow> Inl err
      | Inr s \<Rightarrow> Inr (s\<lparr>reconcile := (reconcile s)\<lparr>r_bnd_state := SPLIT_TRACKING_OFF\<rparr>\<rparr>))"

definition rec_split_tracking_off :: "env \<Rightarrow> session \<Rightarrow> error + session" where
  "rec_split_tracking_off e s =
     (let hs = WT_PAGE_DISK_SIZE e;
          r = rec_split_bnd_grow (reconcile s);
          i = r_bnd_next r;
          r = r\<lparr>r_bnd_next := i + 1\<rparr>;
          d = r_dsk r;
          d = d\<lparr>dsk_hdr := (dsk_hdr d)\<lparr>d_recno := b_recno (r_bnd r ! i),
                                        d_entries := r_entries r\<rparr>,
                dsk_size := hs + r_first_free r\<rparr>;
          r = r\<lparr>r_dsk := d\<rparr>
      in case rec_split_write e (s\<lparr>reconcile := r\<rparr>) i d of
           Inl err \<Rightarrow> Inl err
         | Inr (s, d) \<Rightarrow>
             let r = (reconcile s)\<lparr>r_dsk := d\<rparr>;
                 r = r\<lparr>r_bnd := (r_bnd r)[i + 1 := (r_bnd r ! (i + 1))\<lparr>b_recno := r_recno r\<rparr>]\<rparr>;
                 ty = d_type (dsk_hdr (r_dsk r))
             in case (if is_row_type ty then rec_split_row_promote e (s\<lparr>reconcile := r\<rparr>) ty
                      else Inr (s\<lparr>reconcile := r\<rparr>)) of
                  Inl err \<Rightarrow> Inl err
                | Inr s \<Rightarrow>
                    let r = reconcile s;
                        r = r\<lparr>r_bnd := (r_bnd r)[i + 1 := (r_bnd r ! (i + 1))\<lparr>b_entries := 0\<rparr>],
                              r_entries := 0, r_first_free := 0,
                              r_space_avail := u32 (int (r_split_size r) - int hs)\<rparr>
                    in Inr (s\<lparr>reconcile := r\<rparr>))"

definition rec_split :: "env \<Rightarrow> session \<Rightarrow> error + session" where
  "rec_split e s =
     (case r_bnd_state (reconcile s) of
        SPLIT_BOUNDARY \<Rightarrow> rec_split_boundary e s
      | SPLIT_MAX \<Rightarrow> rec_split_max e s
      | SPLIT_TRACKING_OFF \<Rightarrow> rec_split_tracking_off e s)"

text \<open>\<^verbatim>\<open>__rec_split_finish\<close>.\<close>

definition rec_split_finish :: "env \<Rightarrow> session \<Rightarrow> error + session" where
  "rec_split_finish e s =
     (let r = reconcile s in
      if r_entries r = 0
      then (if \<not> r_bnd_next r = 0 then Inl WT_ERROR else Inr s)
      else
        let (r, i) =
              (if r_bnd_state r = SPLIT_TRACKING_OFF
               then (let r = rec_split_bnd_grow r
                     in (r\<lparr>r_bnd_next := r_bnd_next r + 1\<rparr>, r_bnd_next r))
               else (r\<lparr>r_bnd_next := 1,
                       r_bnd := (r_bnd r)[0 := (r_bnd r ! 0)\<lparr>b_entries := r_entries r\<rparr>]\<rparr>, 0));
            d = r_dsk r;
            d = d\<lparr>dsk_hdr := (dsk_hdr d)\<lparr>d_recno := b_recno (r_bnd r ! i),
                                          d_entries := r_entries r\<rparr>,
                  dsk_size := WT_PAGE_DISK_SIZE e + r_first_free r\<rparr>;
            r = r\<lparr>r_dsk := d\<rparr>
        in case rec_split_write e (s\<lparr>reconcile := r\<rparr>) i d of
             Inl err \<Rightarrow> Inl err
           | Inr (s, d) \<Rightarrow> Inr (s\<lparr>reconcile := (reconcile s)\<lparr>r_dsk := d\<rparr>\<rparr>))"

section \<open>Building cells\<close>

text \<open>\<^verbatim>\<open>__rec_cell_build_ovfl\<close> for the K/V structure \<open>kv\<close> (the caller stores the
  result back into \<^verbatim>\<open>r->k\<close> or \<^verbatim>\<open>r->v\<close>).  \<open>orig_data\<close> is a pointer, compared with
  the tracker's \<^verbatim>\<open>ref\<close> fields.\<close>

definition rec_cell_build_ovfl ::
  "env \<Rightarrow> session \<Rightarrow> nat option \<Rightarrow> wt_kv \<Rightarrow> cell_type \<Rightarrow> nat \<Rightarrow> error + (wt_kv \<times> session)" where
  "rec_cell_build_ovfl e s orig_data kv ty rle =
     (let found =
            (case rec_track_ovfl_active s orig_data of
               Some (off, s') \<Rightarrow> Inr (kv\<lparr>kv_off := off\<rparr>, s')
             | None \<Rightarrow>
                 (let im = \<lparr>im_hdr = \<lparr>d_type = WT_PAGE_OVFL, d_recno = 0,
                                       d_entries = length (kv_data e kv)\<rparr>,
                            im_bytes = kv_data e kv\<rparr>
                  in case wt_block_write e (blk s) im of
                       Inl err \<Rightarrow> Inl err
                     | Inr off \<Rightarrow>
                         Inr (kv\<lparr>kv_off := off\<rparr>,
                              wt_rec_track
                                (s\<lparr>blk := (blk s)\<lparr>blk_writes := blk_writes (blk s) @ [(im, off)]\<rparr>\<rparr>)
                                WT_PT_OVFL orig_data (off_addr off) (off_size off))))
      in case found of
           Inl err \<Rightarrow> Inl err
         | Inr (kv, s) \<Rightarrow>
             let kv = kv\<lparr>kv_buf := KV_off, kv_cell := wt_cell_pack_type e ty rle\<rparr>;
                 kv = kv\<lparr>kv_len := length (kv_cell kv) + length (kv_data e kv)\<rparr>
             in Inr (kv, s))"

text \<open>The prefix-compression loop of \<^verbatim>\<open>__rec_cell_build_key\<close>:
  \<^verbatim>\<open>for (a = data, b = r->last->data; pfx < pfx_max; ++pfx) if (*a++ != *b++) break;\<close>\<close>

function pfx_loop :: "bytes \<Rightarrow> bytes \<Rightarrow> nat \<Rightarrow> nat \<Rightarrow> nat" where
  "pfx_loop a b pfx pfx_max =
     (if pfx < pfx_max
      then (if hd a \<noteq> hd b then pfx else pfx_loop (tl a) (tl b) (pfx + 1) pfx_max)
      else pfx)"
  by pat_completeness auto
termination
  by (relation "measure (\<lambda>(a, b, pfx, pfx_max). pfx_max - pfx)") auto

declare pfx_loop.simps [simp del]

text \<open>The blocks of \<^verbatim>\<open>__rec_cell_build_key\<close>.  First the prefix count of the key at
  \<open>d\<close> against \<^verbatim>\<open>r->last\<close> (\<^verbatim>\<open>UINT8_MAX\<close> is 255):
  \<^verbatim>\<open>if (r->key_pfx_compress) { pfx_max = UINT8_MAX; if (size < pfx_max) pfx_max = size;
  if (r->last->size < pfx_max) pfx_max = r->last->size; for (...) ... }\<close>\<close>

definition rec_key_prefix :: "wt_reconcile \<Rightarrow> bytes \<Rightarrow> nat \<Rightarrow> nat" where
  "rec_key_prefix r d sz =
     (if r_key_pfx_compress r
      then (let pfx_max = 255;
                pfx_max = (if sz < pfx_max then sz else pfx_max);
                pfx_max = (if length (it_data (r_last r)) < pfx_max
                           then length (it_data (r_last r)) else pfx_max)
            in pfx_loop d (it_data (r_last r)) 0 pfx_max)
      else 0)"

text \<open>The optional Huffman encoding of the key bytes in \<^verbatim>\<open>r->k\<close>.\<close>

definition rec_key_huffman :: "env \<Rightarrow> wt_reconcile \<Rightarrow> error + wt_reconcile" where
  "rec_key_huffman e r =
     (case huffman_key e of
        None \<Rightarrow> Inr r
      | Some encode \<Rightarrow>
          (case encode (kv_data e (r_k r)) of
             Inl err \<Rightarrow> Inl err
           | Inr enc \<Rightarrow> Inr (r\<lparr>r_k := (r_k r)\<lparr>kv_buf := KV_bytes enc\<rparr>\<rparr>)))"

text \<open>The overflow branch taken with a prefix count of 0, where \<^verbatim>\<open>*is_ovflp\<close> is set.\<close>

definition rec_key_ovfl :: "env \<Rightarrow> session \<Rightarrow> wt_reconcile \<Rightarrow> error + (bool \<times> session)" where
  "rec_key_ovfl e s r =
     (case rec_cell_build_ovfl e (s\<lparr>reconcile := r\<rparr>) None (r_k r) WT_CELL_KEY_OVFL 0 of
        Inl err \<Rightarrow> Inl err
      | Inr (kv, s') \<Rightarrow> Inr (True, s'\<lparr>reconcile := (reconcile s')\<lparr>r_k := kv\<rparr>\<rparr>))"

text \<open>The last two statements: the key cell packed, the total length set.\<close>

definition rec_key_cell :: "env \<Rightarrow> wt_reconcile \<Rightarrow> nat \<Rightarrow> wt_reconcile" where
  "rec_key_cell e r pfx =
     (let kv = (r_k r)\<lparr>kv_cell := wt_cell_pack_key e pfx (length (kv_data e (r_k r)))\<rparr>;
          kv = kv\<lparr>kv_len := length (kv_cell kv) + length (kv_data e kv)\<rparr>
      in r\<lparr>r_k := kv\<rparr>)"

text \<open>The first half of \<^verbatim>\<open>__rec_cell_build_key\<close>: the prefix count, and the structure
  with the key bytes set in \<^verbatim>\<open>r->k\<close>.  With \<open>data\<close> the key is saved in \<^verbatim>\<open>r->cur\<close> and
  its bytes after the prefix are set; without (\<open>None\<close> is the NULL pointer) the full key
  saved in \<^verbatim>\<open>r->cur\<close> is set and the count is 0.\<close>

definition rec_key_start :: "wt_reconcile \<Rightarrow> bytes option \<Rightarrow> nat \<Rightarrow> nat \<times> wt_reconcile" where
  "rec_key_start r data sz =
     (case data of
        None \<Rightarrow> (0, r\<lparr>r_k := (r_k r)\<lparr>kv_buf := KV_bytes (it_data (r_cur r))\<rparr>\<rparr>)
      | Some d \<Rightarrow>
          (let r = r\<lparr>r_cur := (r_cur r)\<lparr>it_data := take sz d\<rparr>\<rparr>;
               pfx = rec_key_prefix r d sz
           in (pfx, r\<lparr>r_k := (r_k r)\<lparr>kv_buf := KV_bytes (drop pfx (take sz d))\<rparr>\<rparr>)))"

text \<open>\<^verbatim>\<open>__rec_cell_build_key\<close>; the result is the flag \<^verbatim>\<open>*is_ovflp\<close> and the state.  A
  \<open>size\<close> beyond the bytes at \<open>data\<close> reads past them: \<open>Fault\<close>.\<close>

function rec_cell_build_key ::
  "env \<Rightarrow> session \<Rightarrow> bytes option \<Rightarrow> nat \<Rightarrow> bool \<Rightarrow> error + (bool \<times> session)" where
  "rec_cell_build_key e s data sz is_internal =
     (if (case data of None \<Rightarrow> False | Some d \<Rightarrow> sz > length d) then Inl Fault
      else
        case rec_key_start (reconcile s) data sz of (pfx, r) \<Rightarrow>
        case rec_key_huffman e r of
          Inl err \<Rightarrow> Inl err
        | Inr r \<Rightarrow>
            if length (kv_data e (r_k r)) > (if is_internal then maxintlitem e else maxleafitem e)
            then (if pfx = 0 then rec_key_ovfl e s r
                  else rec_cell_build_key e (s\<lparr>reconcile := r\<rparr>) None 0 is_internal)
            else Inr (False, s\<lparr>reconcile := rec_key_cell e r pfx\<rparr>))"
  by pat_completeness auto
termination
  by (relation "measure (\<lambda>(e, s, data, sz, is_internal). case data of None \<Rightarrow> 0 | Some d \<Rightarrow> 1)")
     (auto simp: rec_key_start_def split: option.splits)

declare rec_cell_build_key.simps [simp del]

text \<open>\<^verbatim>\<open>__rec_cell_build_val\<close>; \<open>data\<close> is the pointer and the \<open>size\<close> bytes at it.\<close>

definition rec_cell_build_val :: "env \<Rightarrow> session \<Rightarrow> wt_item \<Rightarrow> nat \<Rightarrow> error + session" where
  "rec_cell_build_val e s data rle =
     (let r = reconcile s;
          r = r\<lparr>r_v := (r_v r)\<lparr>kv_buf := KV_bytes (it_data data)\<rparr>\<rparr>;
          plain = (\<lambda>r. let kv = (r_v r)\<lparr>kv_cell := wt_cell_pack_data e rle (length (kv_data e (r_v r)))\<rparr>;
                            kv = kv\<lparr>kv_len := length (kv_cell kv) + length (kv_data e kv)\<rparr>
                        in Inr (s\<lparr>reconcile := r\<lparr>r_v := kv\<rparr>\<rparr>))
      in if length (it_data data) \<noteq> 0
         then (case (case huffman_value e of
                       None \<Rightarrow> Inr r
                     | Some encode \<Rightarrow>
                         (case encode (kv_data e (r_v r)) of
                            Inl err \<Rightarrow> Inl err
                          | Inr enc \<Rightarrow> Inr (r\<lparr>r_v := (r_v r)\<lparr>kv_buf := KV_bytes enc\<rparr>\<rparr>))) of
                 Inl err \<Rightarrow> Inl err
               | Inr r \<Rightarrow>
                   if length (kv_data e (r_v r)) > maxleafitem e
                   then (case rec_cell_build_ovfl e (s\<lparr>reconcile := r\<rparr>) (Some (it_ptr data))
                                (r_v r) WT_CELL_VALUE_OVFL rle of
                           Inl err \<Rightarrow> Inl err
                         | Inr (kv, s') \<Rightarrow> Inr (s'\<lparr>reconcile := (reconcile s')\<lparr>r_v := kv\<rparr>\<rparr>))
                   else plain r)
         else plain r)"

section \<open>Wrap-up\<close>

definition rec_flag_split :: page_flags where
  "rec_flag_split = \<lparr>f_rec_empty = False, f_rec_replace = False, f_rec_split = True,
                      f_bulk_load = False\<rparr>"

text \<open>\<^verbatim>\<open>__rec_split_row\<close> and \<^verbatim>\<open>__rec_split_col\<close>: the new internal page (allocated
  cleared, then flagged), one reference for each of the first \<^verbatim>\<open>bnd_next\<close> boundaries.
  \<^verbatim>\<open>__wt_row_ikey_alloc\<close> is called with cell offset 0.\<close>

definition rec_split_row :: "wt_reconcile \<Rightarrow> page" where
  "rec_split_row r =
     Page WT_PAGE_ROW_INT rec_flag_split None
       (U_row_int (map (\<lambda>bnd. Row_ref \<lparr>ik_cell = None, ik_data = b_key bnd\<rparr>
                                       (off_addr (b_off bnd)) (off_size (b_off bnd))
                                       WT_REF_DISK None)
                       (take (r_bnd_next r) (r_bnd r))))"

definition rec_split_col :: "wt_reconcile \<Rightarrow> page" where
  "rec_split_col r =
     Page WT_PAGE_COL_INT rec_flag_split None
       (U_col_int (b_recno (r_bnd r ! 0))
          (map (\<lambda>bnd. Col_ref (b_recno bnd) (off_addr (b_off bnd)) (off_size (b_off bnd))
                              WT_REF_DISK None)
               (take (r_bnd_next r) (r_bnd r))))"

text \<open>The first \<^verbatim>\<open>switch\<close> of \<^verbatim>\<open>__rec_write_wrapup\<close>: what the previous reconciliation
  left is handed to the tracker.  (\<^verbatim>\<open>__wt_page_out\<close> releases the old split page's
  memory.)\<close>

definition rec_write_wrapup_previous :: "session \<Rightarrow> error + session" where
  "rec_write_wrapup_previous s =
     (case F_ISSET_REC_MASK (page_flags s) of
        REC_EMPTY \<Rightarrow> Inr s
      | REC_SPLIT \<Rightarrow>
          (case page_mod_u s of
             U_write_split sp \<Rightarrow>
               (if pg_type sp = WT_PAGE_ROW_INT
                then (case pg_u sp of
                        U_row_int refs \<Rightarrow> Inr (rec_track_restart_row s refs)
                      | _ \<Rightarrow> Inl Fault)
                else (case pg_u sp of
                        U_col_int recno refs \<Rightarrow> Inr (rec_track_restart_col s refs)
                      | _ \<Rightarrow> Inl Fault))
           | _ \<Rightarrow> Inl Fault)
      | REC_REPLACE \<Rightarrow>
          (case page_mod_u s of
             U_write_off off \<Rightarrow> Inr (wt_rec_track s WT_PT_BLOCK None (off_addr off) (off_size off))
           | _ \<Rightarrow> Inl Fault)
      | REC_OTHER \<Rightarrow> Inr s)"

text \<open>\<^verbatim>\<open>__rec_write_wrapup\<close>.  (\<^verbatim>\<open>__wt_evict_force_clear\<close> belongs to eviction; the
  statistics and the verbose messages have no effect on this state.)\<close>

definition rec_write_wrapup :: "session \<Rightarrow> error + session" where
  "rec_write_wrapup s =
     (case rec_write_wrapup_previous s of
        Inl err \<Rightarrow> Inl err
      | Inr s \<Rightarrow>
          let s = s\<lparr>page_flags := F_CLR_REC_MASK (page_flags s)\<rparr>;
              r = reconcile s
          in if r_bnd_next r = 0
             then Inr (s\<lparr>page_flags := (page_flags s)\<lparr>f_rec_empty := True\<rparr>\<rparr>)
             else if r_bnd_next r = 1
             then Inr (s\<lparr>page_mod_u := U_write_off (b_off (r_bnd r ! 0)),
                         page_flags := (page_flags s)\<lparr>f_rec_replace := True\<rparr>\<rparr>)
             else (case page_type s of
                     WT_PAGE_ROW_INT \<Rightarrow>
                       Inr (s\<lparr>page_mod_u := U_write_split (rec_split_row r),
                              page_flags := (page_flags s)\<lparr>f_rec_split := True\<rparr>\<rparr>)
                   | WT_PAGE_ROW_LEAF \<Rightarrow>
                       Inr (s\<lparr>page_mod_u := U_write_split (rec_split_row r),
                              page_flags := (page_flags s)\<lparr>f_rec_split := True\<rparr>\<rparr>)
                   | WT_PAGE_COL_INT \<Rightarrow>
                       Inr (s\<lparr>page_mod_u := U_write_split (rec_split_col r),
                              page_flags := (page_flags s)\<lparr>f_rec_split := True\<rparr>\<rparr>)
                   | WT_PAGE_COL_FIX \<Rightarrow>
                       Inr (s\<lparr>page_mod_u := U_write_split (rec_split_col r),
                              page_flags := (page_flags s)\<lparr>f_rec_split := True\<rparr>\<rparr>)
                   | WT_PAGE_COL_VAR \<Rightarrow>
                       Inr (s\<lparr>page_mod_u := U_write_split (rec_split_col r),
                              page_flags := (page_flags s)\<lparr>f_rec_split := True\<rparr>\<rparr>)
                   | WT_PAGE_OVFL \<Rightarrow> Inl WT_ERROR))"

section \<open>The variable-length column-store writer\<close>

text \<open>The boundary loop every writer runs before copying an item of \<open>need\<close> bytes:
  \<^verbatim>\<open>while (need > r->space_avail) WT_RET(__rec_split(session));\<close>
  Nothing in the source bounds the number of rounds, so the loop's value is \<open>None\<close> where
  it does not end.\<close>

partial_function (option) rec_split_while :: "env \<Rightarrow> nat \<Rightarrow> session \<Rightarrow> (error + session) option" where
  "rec_split_while e need s =
     (if need > r_space_avail (reconcile s)
      then (case rec_split e s of
              Inl err \<Rightarrow> Some (Inl err)
            | Inr s' \<Rightarrow> rec_split_while e need s')
      else Some (Inr s))"

text \<open>The salvage adjustment at the head of \<^verbatim>\<open>__rec_col_var_helper\<close>, statement by
  statement, for a non-NULL cookie: the cookie afterwards, and the run length to write
  (\<open>None\<close> where the function returns 0 at once).\<close>

definition rec_col_var_helper_salvage :: "salvage_cookie \<Rightarrow> nat \<Rightarrow> salvage_cookie \<times> nat option" where
  "rec_col_var_helper_salvage c rle =
     (if sc_done c then (c, None)
      else if sc_skip c \<noteq> 0 \<and> rle \<le> sc_skip c then (c\<lparr>sc_skip := sc_skip c - rle\<rparr>, None)
      else
        let (c, rle) = (if sc_skip c \<noteq> 0
                        then (let c = c\<lparr>sc_skip := 0\<rparr>;
                                  rle = rle - sc_skip c
                              in (c, rle))
                        else (c, rle));
            (c, rle) = (if sc_take c \<noteq> 0
                        then (let (c, rle) = (if rle \<le> sc_take c
                                              then (c\<lparr>sc_take := sc_take c - rle\<rparr>, rle)
                                              else (c\<lparr>sc_take := 0\<rparr>, sc_take c));
                                  c = (if sc_take c = 0 then c\<lparr>sc_done := True\<rparr> else c)
                              in (c, rle))
                        else (c, rle))
        in (c, Some rle))"

text \<open>The rest of \<^verbatim>\<open>__rec_col_var_helper\<close>: the value cell is built in \<^verbatim>\<open>r->v\<close>, the
  boundary loop runs, the cell is copied and the record number advanced.\<close>

definition rec_col_var_helper_write ::
  "env \<Rightarrow> wt_item option \<Rightarrow> bool \<Rightarrow> bool \<Rightarrow> nat \<Rightarrow> session \<Rightarrow> (error + session) option" where
  "rec_col_var_helper_write e val deleted raw rle s =
     (let built =
            (if deleted
             then (let r = reconcile s;
                       kv = (r_v r)\<lparr>kv_cell := wt_cell_pack_type e WT_CELL_DEL rle,
                                     kv_buf := KV_bytes []\<rparr>;
                       kv = kv\<lparr>kv_len := length (kv_cell kv)\<rparr>
                   in Inr (s\<lparr>reconcile := r\<lparr>r_v := kv\<rparr>\<rparr>))
             else (case val of
                     None \<Rightarrow> Inl Fault
                   | Some v \<Rightarrow>
                       if raw
                       then (let r = reconcile s;
                                 kv = (r_v r)\<lparr>kv_buf := KV_bytes (it_data v), kv_cell := []\<rparr>;
                                 kv = kv\<lparr>kv_len := length (kv_data e kv)\<rparr>
                             in Inr (s\<lparr>reconcile := r\<lparr>r_v := kv\<rparr>\<rparr>))
                       else rec_cell_build_val e s v rle))
      in case built of
           Inl err \<Rightarrow> Some (Inl err)
         | Inr s \<Rightarrow>
             (case rec_split_while e (kv_len (r_v (reconcile s))) s of
                None \<Rightarrow> None
              | Some (Inl err) \<Rightarrow> Some (Inl err)
              | Some (Inr s) \<Rightarrow>
                  let r = rec_copy_incr e (reconcile s) (r_v (reconcile s));
                      r = r\<lparr>r_recno := u64 (int (r_recno r) + int rle)\<rparr>
                  in Some (Inr (s\<lparr>reconcile := r\<rparr>))))"

text \<open>\<^verbatim>\<open>__rec_col_var_helper\<close>; \<open>use_salvage\<close> tells whether the cookie or NULL is the
  \<^verbatim>\<open>salvage\<close> argument.\<close>

definition rec_col_var_helper ::
  "env \<Rightarrow> bool \<Rightarrow> wt_item option \<Rightarrow> bool \<Rightarrow> bool \<Rightarrow> nat \<Rightarrow> session \<Rightarrow> (error + session) option" where
  "rec_col_var_helper e use_salvage val deleted raw rle s =
     (case (if use_salvage then salvage s else None) of
        None \<Rightarrow> rec_col_var_helper_write e val deleted raw rle s
      | Some c \<Rightarrow>
          (case rec_col_var_helper_salvage c rle of
             (c', None) \<Rightarrow> Some (Inr (s\<lparr>salvage := Some c'\<rparr>))
           | (c', Some rle') \<Rightarrow>
               rec_col_var_helper_write e val deleted raw rle' (s\<lparr>salvage := Some c'\<rparr>)))"













section \<open>The row-store internal writer\<close>

text \<open>The boundary loop of \<^verbatim>\<open>__rec_row_int\<close> and of \<^verbatim>\<open>__rec_row_merge\<close>:
  \<^verbatim>\<open>while (key->len + val->len > r->space_avail)\<close>, a split, prefix compression off, and
  the key rebuilt in full unless it is an overflow key.  \<open>cell\<close> is the key's on-page
  cell in \<^verbatim>\<open>__rec_row_int\<close> (copied to \<^verbatim>\<open>r->cur\<close> before the split when the key is an
  overflow key), and \<open>None\<close> in \<^verbatim>\<open>__rec_row_merge\<close>, whose loop has no such copy.\<close>

partial_function (option) rec_row_split_while ::
  "env \<Rightarrow> bytes option \<Rightarrow> bool \<times> session \<Rightarrow> (error + bool \<times> session) option" where
  "rec_row_split_while e cell os =
     (case os of (ovfl_key, s) \<Rightarrow>
      if kv_len (r_k (reconcile s)) + kv_len (r_v (reconcile s)) > r_space_avail (reconcile s)
      then (case (case cell of
                    Some c \<Rightarrow>
                      (if ovfl_key
                       then (case wt_cell_copy e c of
                               Inl err \<Rightarrow> Inl err
                             | Inr key \<Rightarrow>
                                 Inr (s\<lparr>reconcile := (reconcile s)
                                          \<lparr>r_cur := (r_cur (reconcile s))\<lparr>it_data := key\<rparr>\<rparr>\<rparr>))
                       else Inr s)
                  | None \<Rightarrow> Inr s) of
              Inl err \<Rightarrow> Some (Inl err)
            | Inr s \<Rightarrow>
                (case rec_split e s of
                   Inl err \<Rightarrow> Some (Inl err)
                 | Inr s \<Rightarrow>
                     let s = s\<lparr>reconcile := (reconcile s)\<lparr>r_key_pfx_compress := False\<rparr>\<rparr>
                     in if \<not> ovfl_key
                        then (case rec_cell_build_key e s None 0 True of
                                Inl err \<Rightarrow> Some (Inl err)
                              | Inr os' \<Rightarrow> rec_row_split_while e cell os')
                        else rec_row_split_while e cell (ovfl_key, s)))
      else Some (Inr os))"

text \<open>The tail both loops' bodies share: the boundary loop, the key copied, the
  reference checked and copied, the compression state updated.\<close>

definition rec_row_copy ::
  "env \<Rightarrow> bytes option \<Rightarrow> bool \<times> session \<Rightarrow> (error + session) option" where
  "rec_row_copy e cell os =
     (case rec_row_split_while e cell os of
        None \<Rightarrow> None
      | Some (Inl err) \<Rightarrow> Some (Inl err)
      | Some (Inr (ovfl_key, s)) \<Rightarrow>
          let r = rec_copy_incr e (reconcile s) (r_k (reconcile s)) in
          if \<not> off_addr (kv_off (r_v r)) \<noteq> WT_ADDR_INVALID e then Some (Inl WT_ERROR)
          else
            let r = rec_copy_incr e r (r_v r);
                r = rec_key_state_update r ovfl_key
            in Some (Inr (s\<lparr>reconcile := r\<rparr>)))"

text \<open>The key and reference of one entry, once the key \<open>ikey\<close> is chosen and the
  address pair known: \<^verbatim>\<open>val->off\<close> is set, the key cell built (the 0th key of the page
  truncated to one byte), \<^verbatim>\<open>cell_zero\<close> cleared, and the pair copied.\<close>

definition rec_row_key ::
  "env \<Rightarrow> ikey \<Rightarrow> wt_off \<Rightarrow> session \<Rightarrow> (error + session) option" where
  "rec_row_key e ikey off s =
     (let r = reconcile s;
          r = r\<lparr>r_v := (r_v r)\<lparr>kv_off := off\<rparr>\<rparr>
      in case rec_cell_build_key e (s\<lparr>reconcile := r\<rparr>) (Some (ik_data ikey))
                (if r_cell_zero r then 1 else length (ik_data ikey)) True of
           Inl err \<Rightarrow> Some (Inl err)
         | Inr (ovfl_key, s) \<Rightarrow>
             rec_row_copy e None
               (ovfl_key, s\<lparr>reconcile := (reconcile s)\<lparr>r_cell_zero := False\<rparr>\<rparr>))"

text \<open>The body of the loop of \<^verbatim>\<open>__rec_row_merge\<close> for a reference that is written:
  the key is the merge correction key when \<^verbatim>\<open>r->merge_ref\<close> is set, the reference's own
  otherwise, and \<^verbatim>\<open>r->merge_ref\<close> is cleared.\<close>

definition rec_row_merge_entry ::
  "env \<Rightarrow> ikey \<Rightarrow> wt_off \<Rightarrow> session \<Rightarrow> (error + session) option" where
  "rec_row_merge_entry e key off s =
     (let r = reconcile s;
          ikey = (case r_merge_ref r of None \<Rightarrow> key | Some m \<Rightarrow> m);
          r = r\<lparr>r_merge_ref := None\<rparr>
      in rec_row_key e ikey off (s\<lparr>reconcile := r\<rparr>))"

text \<open>\<^verbatim>\<open>__rec_row_merge\<close>, and its loop over the references of the page.\<close>

fun rec_row_merge :: "env \<Rightarrow> page \<Rightarrow> session \<Rightarrow> (error + session) option"
and rec_row_merge_refs :: "env \<Rightarrow> row_ref list \<Rightarrow> session \<Rightarrow> (error + session) option" where
  "rec_row_merge e (Page ty fl md u) s =
     (case u of
        U_row_int refs \<Rightarrow> rec_row_merge_refs e refs s
      | _ \<Rightarrow> Some (Inl Fault))"
| "rec_row_merge_refs e [] s = Some (Inr s)"
| "rec_row_merge_refs e (Row_ref key addr sz st pg # rest) s =
     (case (if st = WT_REF_DISK
            then rec_row_merge_entry e key \<lparr>off_addr = addr, off_size = sz\<rparr> s
            else (case pg of
                    None \<Rightarrow> Some (Inl Fault)
                  | Some (Page ty fl md u) \<Rightarrow>
                      (case F_ISSET_REC_MASK fl of
                         REC_EMPTY \<Rightarrow> Some (Inr s)
                       | REC_REPLACE \<Rightarrow>
                           (case md of
                              Some (U_write_off woff) \<Rightarrow> rec_row_merge_entry e key woff s
                            | _ \<Rightarrow> Some (Inl Fault))
                       | REC_SPLIT \<Rightarrow>
                           (case md of
                              None \<Rightarrow> rec_row_merge e (Page ty fl md u) s
                            | Some (U_write_split sp) \<Rightarrow> rec_row_merge e sp s
                            | Some _ \<Rightarrow> Some (Inl Fault))
                       | REC_OTHER \<Rightarrow>
                           rec_row_merge_entry e key \<lparr>off_addr = addr, off_size = sz\<rparr> s))) of
        None \<Rightarrow> None
      | Some (Inl err) \<Rightarrow> Some (Inl err)
      | Some (Inr s') \<Rightarrow> rec_row_merge_refs e rest s')"

text \<open>One round of the loop of \<^verbatim>\<open>__rec_row_int\<close>.\<close>

definition rec_row_int_ref :: "env \<Rightarrow> row_ref \<Rightarrow> session \<Rightarrow> (error + session) option" where
  "rec_row_int_ref e rref s =
     (let ikey = rr_key rref;
          cell = ik_cell ikey;
          own = \<lparr>off_addr = rr_addr rref, off_size = rr_size rref\<rparr>;
          write = (\<lambda>off.
            let r = reconcile s;
                r = r\<lparr>r_v := (r_v r)\<lparr>kv_off := off\<rparr>\<rparr>;
                s = s\<lparr>reconcile := r\<rparr>
            in case (case cell of
                       Some c \<Rightarrow>
                         (let kv = (r_k r)\<lparr>kv_buf := KV_bytes (take (u_len (wt_cell_unpack e c)) c),
                                           kv_cell := []\<rparr>;
                              kv = kv\<lparr>kv_len := length (kv_data e kv)\<rparr>
                          in Inr (True, s\<lparr>reconcile := r\<lparr>r_k := kv\<rparr>\<rparr>))
                     | None \<Rightarrow>
                         rec_cell_build_key e s (Some (ik_data ikey))
                           (if r_cell_zero r then 1 else length (ik_data ikey)) True) of
                 Inl err \<Rightarrow> Some (Inl err)
               | Inr (ovfl_key, s) \<Rightarrow>
                   rec_row_copy e cell
                     (ovfl_key, s\<lparr>reconcile := (reconcile s)\<lparr>r_cell_zero := False\<rparr>\<rparr>))
      in if rr_state rref = WT_REF_DISK then write own
         else (case rr_page rref of
                 None \<Rightarrow> Some (Inl Fault)
               | Some rp \<Rightarrow>
                   (case F_ISSET_REC_MASK (pg_flags rp) of
                      REC_EMPTY \<Rightarrow>
                        (case cell of
                           Some c \<Rightarrow> Some (Inr (rec_track_cell s (wt_cell_unpack e c)))
                         | None \<Rightarrow> Some (Inr s))
                    | REC_REPLACE \<Rightarrow>
                        (case pg_modify rp of
                           Some (U_write_off woff) \<Rightarrow> write woff
                         | _ \<Rightarrow> Some (Inl Fault))
                    | REC_SPLIT \<Rightarrow>
                        (let s = s\<lparr>reconcile := (reconcile s)\<lparr>r_merge_ref := Some ikey\<rparr>\<rparr>
                         in case pg_modify rp of
                              None \<Rightarrow> rec_row_merge e rp s
                            | Some (U_write_split sp) \<Rightarrow> rec_row_merge e sp s
                            | Some _ \<Rightarrow> Some (Inl Fault))
                    | REC_OTHER \<Rightarrow> write own)))"

fun rec_row_int_refs :: "env \<Rightarrow> row_ref list \<Rightarrow> session \<Rightarrow> (error + session) option" where
  "rec_row_int_refs e [] s = Some (Inr s)"
| "rec_row_int_refs e (rref # rest) s =
     (case rec_row_int_ref e rref s of
        None \<Rightarrow> None
      | Some (Inl err) \<Rightarrow> Some (Inl err)
      | Some (Inr s') \<Rightarrow> rec_row_int_refs e rest s')"

text \<open>\<^verbatim>\<open>__rec_row_int\<close> for the references \<^verbatim>\<open>page->u.row_int.t\<close>.\<close>

definition rec_row_int :: "env \<Rightarrow> row_ref list \<Rightarrow> session \<Rightarrow> (error + session) option" where
  "rec_row_int e refs s =
     (let s = rec_split_init e s 0 (maxintlpage e);
          r = reconcile s;
          r = r\<lparr>r_cell_zero := True\<rparr>;
          kv = (r_v r)\<lparr>kv_cell := wt_cell_pack_type e WT_CELL_OFF 0, kv_buf := KV_off\<rparr>;
          kv = kv\<lparr>kv_len := length (kv_cell kv) + length (kv_data e kv)\<rparr>;
          s = s\<lparr>reconcile := r\<lparr>r_v := kv\<rparr>\<rparr>
      in case rec_row_int_refs e refs s of
           None \<Rightarrow> None
         | Some (Inl err) \<Rightarrow> Some (Inl err)
         | Some (Inr s) \<Rightarrow> Some (rec_split_finish e s))"

section \<open>Definitions used in the statements\<close>

definition trk_empty :: "env \<Rightarrow> page_track" where
  "trk_empty e = \<lparr>trk_type = WT_PT_EMPTY, trk_ref = None, trk_addr = WT_ADDR_INVALID e, trk_size = 0\<rparr>"

definition trk_freed :: "page_track \<Rightarrow> bool" where
  "trk_freed t = (trk_type t = WT_PT_BLOCK \<or> trk_type t = WT_PT_OVFL_DISCARD)"

definition trk_off :: "page_track \<Rightarrow> wt_off" where
  "trk_off t = \<lparr>off_addr = trk_addr t, off_size = trk_size t\<rparr>"

definition ex_tag :: "cell_type \<Rightarrow> byte" where
  "ex_tag t = (case t of WT_CELL_DEL \<Rightarrow> 0 | WT_CELL_KEY \<Rightarrow> 1 | WT_CELL_KEY_OVFL \<Rightarrow> 2
               | WT_CELL_OFF \<Rightarrow> 3 | WT_CELL_VALUE \<Rightarrow> 5 | WT_CELL_VALUE_OVFL \<Rightarrow> 6)"

definition ex_unpack :: "bytes \<Rightarrow> cell_unpack" where
  "ex_unpack bs =
     (let z = \<lparr>off_addr = 0, off_size = 0\<rparr> in
      if hd bs = 1
      then \<lparr>u_type = WT_CELL_KEY, u_prefix = unat (bs ! 1), u_ovfl = False, u_rle = 1,
            u_len = 3 + unat (bs ! 2), u_off = z\<rparr>
      else if hd bs = 5
      then \<lparr>u_type = WT_CELL_VALUE, u_prefix = 0, u_ovfl = False,
            u_rle = 256 * unat (bs ! 1) + unat (bs ! 2),
            u_len = 4 + unat (bs ! 3), u_off = z\<rparr>
      else if hd bs = 6
      then \<lparr>u_type = WT_CELL_VALUE_OVFL, u_prefix = 0, u_ovfl = True, u_rle = 1,
            u_len = 3, u_off = \<lparr>off_addr = unat (bs ! 1), off_size = unat (bs ! 2)\<rparr>\<rparr>
      else \<lparr>u_type = WT_CELL_DEL, u_prefix = 0, u_ovfl = False,
            u_rle = (if hd bs = 0 then 1 else 256 * unat (bs ! 1) + unat (bs ! 2)),
            u_len = (if hd bs = 0 then 1 else 3), u_off = z\<rparr>)"

definition ex_env :: env where
  "ex_env =
     \<lparr>WT_PAGE_DISK_SIZE = 4,
      WT_ADDR_INVALID = 4294967295,
      wt_off_bytes = (\<lambda>off. [of_nat (off_addr off), of_nat (off_size off)]),
      wt_cell_pack_key = (\<lambda>pfx sz. [1, of_nat pfx, of_nat sz]),
      wt_cell_pack_data = (\<lambda>rle sz. [5, of_nat (rle div 256), of_nat rle, of_nat sz]),
      wt_cell_pack_type = (\<lambda>t rle. if rle = 0 then [ex_tag t]
                                     else [ex_tag t + 64, of_nat (rle div 256), of_nat rle]),
      wt_cell_unpack = ex_unpack,
      wt_cell_unpack_copy = (\<lambda>bs. Inr (if hd bs = 1 then take (unat (bs ! 2)) (drop 3 bs)
                                         else take (unat (bs ! 3)) (drop 4 bs))),
      wt_cell_copy = (\<lambda>bs. Inr bs),
      wt_block_write = (\<lambda>b im. Inr \<lparr>off_addr = 100 + length (blk_writes b),
                                     off_size = 4 + length (im_bytes im)\<rparr>),
      wt_block_free = (\<lambda>b off. None),
      huffman_key = None,
      huffman_value = None,
      maxintlpage = 64,
      maxleafpage = 64,
      maxintlitem = 16,
      maxleafitem = 16,
      allocsize = 16,
      WT_SPLIT_PAGE_SIZE = (\<lambda>m a pct. ((m * pct) div 100 div a) * a)\<rparr>"

definition ex_kv :: wt_kv where
  "ex_kv = \<lparr>kv_buf = KV_bytes [], kv_cell = [], kv_len = 0,
            kv_off = \<lparr>off_addr = 0, off_size = 0\<rparr>\<rparr>"

definition ex_reconcile :: wt_reconcile where
  "ex_reconcile =
     \<lparr>r_dsk = \<lparr>dsk_hdr = \<lparr>d_type = WT_PAGE_ROW_LEAF, d_recno = 0, d_entries = 0\<rparr>,
               dsk_mem = [], dsk_size = 0\<rparr>,
      r_btree_split_pct = 75, r_page_size = 0, r_split_size = 0,
      r_bnd = [], r_bnd_next = 0, r_total_entries = 0, r_bnd_state = SPLIT_BOUNDARY,
      r_recno = 0, r_entries = 0, r_first_free = 0, r_space_avail = 0,
      r_cell_zero = False, r_merge_ref = None, r_k = ex_kv, r_v = ex_kv,
      r_cur = \<lparr>it_ptr = 1000, it_data = []\<rparr>, r_last = \<lparr>it_ptr = 2000, it_data = []\<rparr>,
      r_key_pfx_compress = False, r_key_pfx_compress_conf = True,
      r_key_sfx_compress = False, r_key_sfx_compress_conf = True\<rparr>"

definition ex_flags :: page_flags where
  "ex_flags = \<lparr>f_rec_empty = False, f_rec_replace = False, f_rec_split = False,
               f_bulk_load = False\<rparr>"

definition ex_session :: session where
  "ex_session =
     \<lparr>reconcile = ex_reconcile, page_type = WT_PAGE_ROW_LEAF, page_flags = ex_flags,
      page_mod_u = U_unset, track = [],
      blk = \<lparr>blk_writes = [], blk_frees = []\<rparr>, salvage = None\<rparr>"

definition ex_bnd :: "nat \<Rightarrow> nat \<Rightarrow> nat \<Rightarrow> nat \<Rightarrow> bytes \<Rightarrow> boundary" where
  "ex_bnd start recno entries addr key =
     \<lparr>b_start = start, b_recno = recno, b_entries = entries,
      b_off = \<lparr>off_addr = addr, off_size = 64\<rparr>, b_key = key\<rparr>"

definition ex_replaced :: session where
  "ex_replaced =
     ex_session\<lparr>page_flags := ex_flags\<lparr>f_rec_replace := True\<rparr>,
                page_mod_u := U_write_off \<lparr>off_addr = 7, off_size = 64\<rparr>,
                reconcile := ex_reconcile\<lparr>r_bnd := [ex_bnd 0 0 3 9 []], r_bnd_next := 1\<rparr>\<rparr>"

text \<open>The reference \<^verbatim>\<open>__rec_split_row\<close> (\<^verbatim>\<open>__rec_split_col\<close>) enters for a boundary.\<close>

definition bnd_row_ref :: "boundary \<Rightarrow> row_ref" where
  "bnd_row_ref bnd = Row_ref \<lparr>ik_cell = None, ik_data = b_key bnd\<rparr>
                       (off_addr (b_off bnd)) (off_size (b_off bnd)) WT_REF_DISK None"

definition bnd_col_ref :: "boundary \<Rightarrow> col_ref" where
  "bnd_col_ref bnd = Col_ref (b_recno bnd) (off_addr (b_off bnd)) (off_size (b_off bnd))
                       WT_REF_DISK None"

definition ex_split2 :: session where
  "ex_split2 =
     ex_session\<lparr>reconcile :=
       ex_reconcile\<lparr>r_bnd := [ex_bnd 0 0 3 9 [97], ex_bnd 40 0 2 10 [109], bnd_clear],
                     r_bnd_next := 2\<rparr>\<rparr>"

text \<open>The session after \<^verbatim>\<open>__rec_split_init\<close> for a variable-length column-store page
  starting at record 1, with the example configuration and the salvage cookie \<open>c\<close>.\<close>

definition ex_col_session :: "salvage_cookie option \<Rightarrow> session" where
  "ex_col_session c =
     rec_split_init ex_env (ex_session\<lparr>page_type := WT_PAGE_COL_VAR, salvage := c\<rparr>) 1 64"

text \<open>The index of the first byte at which two byte strings differ (the length of the
  shorter one when neither has such a byte).\<close>

definition first_differing_index :: "bytes \<Rightarrow> bytes \<Rightarrow> nat" where
  "first_differing_index xs ys = length (takeWhile (\<lambda>(x, y). x = y) (zip xs ys))"

text \<open>The prefix count of the specification:
  \<open>min(255, len(cur), len(last), first-differing-byte-index)\<close>.\<close>

definition spec_pfx :: "bytes \<Rightarrow> bytes \<Rightarrow> nat" where
  "spec_pfx cur lst =
     min 255 (min (length cur) (min (length lst) (first_differing_index cur lst)))"

text \<open>A session whose previous key is \<open>ab1\<close>, with prefix compression on.\<close>

definition ex_key_session :: session where
  "ex_key_session =
     ex_session\<lparr>reconcile :=
       ex_reconcile\<lparr>r_last := \<lparr>it_ptr = 2000, it_data = [97, 98, 49]\<rparr>,
                     r_key_pfx_compress := True\<rparr>\<rparr>"

text \<open>\<open>k_frame r r'\<close>: the structures differ at most in \<^verbatim>\<open>r->k\<close>; \<open>key_frame r r'\<close>: at most
  in \<^verbatim>\<open>r->k\<close> and \<^verbatim>\<open>r->cur\<close>.\<close>

definition k_frame :: "wt_reconcile \<Rightarrow> wt_reconcile \<Rightarrow> bool" where
  "k_frame r r' = (r'\<lparr>r_k := r_k r\<rparr> = r)"

definition key_frame :: "wt_reconcile \<Rightarrow> wt_reconcile \<Rightarrow> bool" where
  "key_frame r r' = (r'\<lparr>r_cur := r_cur r, r_k := r_k r\<rparr> = r)"

text \<open>The image \<^verbatim>\<open>__rec_split_write\<close> hands to the block manager for the buffer \<open>buf\<close>:
  the bytes after the header, on a row-store leaf page with the trailing key cell.\<close>

definition split_write_image :: "env \<Rightarrow> disk_buf \<Rightarrow> disk_image" where
  "split_write_image e buf =
     \<lparr>im_hdr = dsk_hdr buf,
      im_bytes =
        (if d_type (dsk_hdr buf) = WT_PAGE_ROW_LEAF
         then take (Suc (dsk_size buf) - WT_PAGE_DISK_SIZE e)
                (mem_write (dsk_mem buf) (dsk_size buf - WT_PAGE_DISK_SIZE e)
                   (wt_cell_pack_type e WT_CELL_KEY 0))
         else take (dsk_size buf - WT_PAGE_DISK_SIZE e) (dsk_mem buf))\<rparr>"

text \<open>A row-store leaf page with one boundary saved, about to save the next.\<close>

definition ex_promote_session :: session where
  "ex_promote_session =
     ex_session\<lparr>reconcile :=
       ex_reconcile\<lparr>r_bnd := [bnd_clear, bnd_clear, bnd_clear], r_bnd_next := 1,
                     r_page_size := 64, r_split_size := 48, r_first_free := 20,
                     r_entries := 4, r_total_entries := 2\<rparr>\<rparr>"



text \<open>What else a reconciliation does between two points, as far as the tracker and the
  block manager's free list are concerned: steps that touch neither, blocks tracked for
  discard (\<^verbatim>\<open>__rec_track_cell\<close> and the restart functions), and overflow items built for
  other pointers than \<open>p\<close> (for keys the pointer is NULL).\<close>

inductive rec_other :: "env \<Rightarrow> nat \<Rightarrow> session \<Rightarrow> session \<Rightarrow> bool" for e :: env and p :: nat where
  rec_other_none: "rec_other e p s s"
| rec_other_untracked:
    "rec_other e p s s1 \<Longrightarrow> track s2 = track s1 \<Longrightarrow> blk_frees (blk s2) = blk_frees (blk s1) \<Longrightarrow>
     rec_other e p s s2"
| rec_other_block:
    "rec_other e p s s1 \<Longrightarrow> rec_other e p s (wt_rec_track s1 WT_PT_BLOCK None a sz)"
| rec_other_ovfl:
    "rec_other e p s s1 \<Longrightarrow> q \<noteq> Some p \<Longrightarrow>
     rec_cell_build_ovfl e s1 q kv ty rle = Inr (kv', s2) \<Longrightarrow> rec_other e p s s2"



text \<open>The image of the saved chunk \<open>i\<close>: the header of the working image with the
  boundary's record number and entry count, the bytes of the working buffer between the
  boundary's start and the next boundary's start, and on a row-store leaf page the
  trailing key cell.\<close>

definition chunk_image :: "env \<Rightarrow> wt_reconcile \<Rightarrow> nat \<Rightarrow> disk_image" where
  "chunk_image e r i =
     \<lparr>im_hdr = \<lparr>d_type = d_type (dsk_hdr (r_dsk r)), d_recno = b_recno (r_bnd r ! i),
                d_entries = b_entries (r_bnd r ! i)\<rparr>,
      im_bytes = take (b_start (r_bnd r ! (i + 1)) - b_start (r_bnd r ! i))
                      (drop (b_start (r_bnd r ! i)) (dsk_mem (r_dsk r)))
                 @ (if d_type (dsk_hdr (r_dsk r)) = WT_PAGE_ROW_LEAF
                    then wt_cell_pack_type e WT_CELL_KEY 0 else [])\<rparr>"

text \<open>Two boundary arrays that differ at most in the address pairs.\<close>

definition off_only :: "boundary list \<Rightarrow> boundary list \<Rightarrow> bool" where
  "off_only bs bs' = (map (\<lambda>b. b\<lparr>b_off := \<lparr>off_addr = 0, off_size = 0\<rparr>\<rparr>) bs'
                      = map (\<lambda>b. b\<lparr>b_off := \<lparr>off_addr = 0, off_size = 0\<rparr>\<rparr>) bs)"

text \<open>A row-store leaf page in state \<^verbatim>\<open>SPLIT_MAX\<close> with a page size of 16 and a split size
  of 12 (the header has 4 bytes): two saved boundaries, at the offsets 0 and 4 of the
  working buffer, the next boundary at 7, and nine bytes in the buffer.\<close>

definition ex_fixup :: session where
  "ex_fixup =
     ex_session\<lparr>page_type := WT_PAGE_ROW_LEAF,
       reconcile := ex_reconcile
         \<lparr>r_dsk := \<lparr>dsk_hdr = \<lparr>d_type = WT_PAGE_ROW_LEAF, d_recno = 1, d_entries = 0\<rparr>,
                    dsk_mem = [10, 11, 12, 13, 14, 15, 16, 17, 18, 0, 0, 0], dsk_size = 16\<rparr>,
          r_page_size := 16, r_split_size := 12, r_bnd_state := SPLIT_MAX,
          r_bnd := [ex_bnd 0 1 3 0 [], ex_bnd 4 4 2 0 [], ex_bnd 7 6 0 0 [], bnd_clear],
          r_bnd_next := 2, r_entries := 6, r_total_entries := 5,
          r_first_free := 9, r_space_avail := 0\<rparr>\<rparr>"

text \<open>The entries a page to be merged contributes, in the order of the walk of
  \<^verbatim>\<open>__rec_row_merge\<close>: for each reference written its own key and the address pair
  written with it; the references of deleted pages contribute nothing, those of split
  pages the entries of the split page.  \<open>None\<close> where the structure is not one the walk
  is written for (no page behind a reference that is not on disk, no address pair in a
  replaced page, a page that is not a row-store internal page).\<close>

fun merge_entries :: "page \<Rightarrow> (ikey \<times> wt_off) list option"
and merge_entries_refs :: "row_ref list \<Rightarrow> (ikey \<times> wt_off) list option" where
  "merge_entries (Page ty fl md u) =
     (case u of U_row_int refs \<Rightarrow> merge_entries_refs refs | _ \<Rightarrow> None)"
| "merge_entries_refs [] = Some []"
| "merge_entries_refs (Row_ref key addr sz st pg # rest) =
     (case (if st = WT_REF_DISK then Some [(key, \<lparr>off_addr = addr, off_size = sz\<rparr>)]
            else (case pg of
                    None \<Rightarrow> None
                  | Some (Page ty fl md u) \<Rightarrow>
                      (case F_ISSET_REC_MASK fl of
                         REC_EMPTY \<Rightarrow> Some []
                       | REC_REPLACE \<Rightarrow>
                           (case md of
                              Some (U_write_off woff) \<Rightarrow> Some [(key, woff)]
                            | _ \<Rightarrow> None)
                       | REC_SPLIT \<Rightarrow>
                           (case md of
                              None \<Rightarrow> merge_entries (Page ty fl md u)
                            | Some (U_write_split sp) \<Rightarrow> merge_entries sp
                            | Some _ \<Rightarrow> None)
                       | REC_OTHER \<Rightarrow> Some [(key, \<lparr>off_addr = addr, off_size = sz\<rparr>)]))) of
        None \<Rightarrow> None
      | Some es \<Rightarrow> (case merge_entries_refs rest of None \<Rightarrow> None | Some es' \<Rightarrow> Some (es @ es')))"

text \<open>The page \<^verbatim>\<open>__rec_row_int\<close> hands to \<^verbatim>\<open>__rec_row_merge\<close> for a split child:
  \<^verbatim>\<open>rp->modify == NULL ? rp : rp->modify->u.write_split\<close>.\<close>

definition split_target :: "page \<Rightarrow> page option" where
  "split_target rp =
     (case pg_modify rp of
        None \<Rightarrow> Some rp
      | Some (U_write_split sp) \<Rightarrow> Some sp
      | Some _ \<Rightarrow> None)"

text \<open>Entries written one after the other, each with the given key: the body the loops
  of \<^verbatim>\<open>__rec_row_int\<close> and \<^verbatim>\<open>__rec_row_merge\<close> share, for a key that has no cell on the
  page.\<close>

fun rec_row_keys :: "env \<Rightarrow> (ikey \<times> wt_off) list \<Rightarrow> session \<Rightarrow> (error + session) option" where
  "rec_row_keys e [] s = Some (Inr s)"
| "rec_row_keys e (ko # rest) s =
     (case rec_row_key e (fst ko) (snd ko) s of
        None \<Rightarrow> None
      | Some (Inl err) \<Rightarrow> Some (Inl err)
      | Some (Inr s') \<Rightarrow> rec_row_keys e rest s')"

text \<open>The same with the choice of key of \<^verbatim>\<open>__rec_row_merge\<close> at each entry.\<close>

fun rec_row_merge_entries ::
  "env \<Rightarrow> (ikey \<times> wt_off) list \<Rightarrow> session \<Rightarrow> (error + session) option" where
  "rec_row_merge_entries e [] s = Some (Inr s)"
| "rec_row_merge_entries e (ko # rest) s =
     (case rec_row_merge_entry e (fst ko) (snd ko) s of
        None \<Rightarrow> None
      | Some (Inl err) \<Rightarrow> Some (Inl err)
      | Some (Inr s') \<Rightarrow> rec_row_merge_entries e rest s')"

text \<open>A row-store internal page being written, with room left, and a reference of it
  with the key \<open>m\<close> whose page was split in memory into two pages on disk, with the keys
  \<open>p\<close> and \<open>t\<close>.\<close>

definition ex_row_int_session :: session where
  "ex_row_int_session =
     ex_session\<lparr>page_type := WT_PAGE_ROW_INT,
       reconcile := ex_reconcile
         \<lparr>r_dsk := \<lparr>dsk_hdr = \<lparr>d_type = WT_PAGE_ROW_INT, d_recno = 0, d_entries = 0\<rparr>,
                    dsk_mem = [0, 0, 0, 0, 0, 0, 0, 0, 0, 0, 0, 0, 0, 0, 0, 0], dsk_size = 64\<rparr>,
          r_page_size := 64, r_split_size := 48, r_bnd := [bnd_clear, bnd_clear],
          r_space_avail := 44,
          r_v := \<lparr>kv_buf = KV_off, kv_cell = [3], kv_len = 3,
                  kv_off = \<lparr>off_addr = 0, off_size = 0\<rparr>\<rparr>\<rparr>\<rparr>"

definition ex_split_page :: page where
  "ex_split_page =
     Page WT_PAGE_ROW_INT
       \<lparr>f_rec_empty = False, f_rec_replace = False, f_rec_split = True, f_bulk_load = False\<rparr>
       None
       (U_row_int [Row_ref \<lparr>ik_cell = None, ik_data = [112]\<rparr> 20 64 WT_REF_DISK None,
                   Row_ref \<lparr>ik_cell = None, ik_data = [116]\<rparr> 21 64 WT_REF_DISK None])"

definition ex_split_ref :: row_ref where
  "ex_split_ref = Row_ref \<lparr>ik_cell = None, ik_data = [109]\<rparr> 0 0 WT_REF_MEM (Some ex_split_page)"

text \<open>What \<^verbatim>\<open>__rec_col_var\<close> meets on its way over a page, in order: a source record
  (deleted or not, its value, its repeat count); an on-page overflow cell that has no
  update, with its repeat count; the overflow block of a cell that has updates, which
  is entered in the tracking list when the slot is reached; and the failure to copy a
  cell's value.\<close>

datatype col_event =
    Rec bool bytes nat
  | Raw bytes nat
  | Track wt_off
  | Fail error

text \<open>Sequencing of steps that may fail or not return.\<close>

definition and_then ::
  "(error + 'a) option \<Rightarrow> ('a \<Rightarrow> (error + 'b) option) \<Rightarrow> (error + 'b) option" where
  "and_then m f = (case m of None \<Rightarrow> None | Some (Inl err) \<Rightarrow> Some (Inl err) | Some (Inr x) \<Rightarrow> f x)"













text \<open>Writing the runs: a record run is one call of \<^verbatim>\<open>__rec_col_var_helper\<close> with the
  value (in \<^verbatim>\<open>r->last\<close>), the deleted flag and the count of the run; an overflow cell is
  one call for the raw cell.\<close>

definition set_last :: "bytes \<Rightarrow> session \<Rightarrow> session" where
  "set_last v s = s\<lparr>reconcile := (reconcile s)\<lparr>r_last := (r_last (reconcile s))\<lparr>it_data := v\<rparr>\<rparr>\<rparr>"

definition write_run :: "env \<Rightarrow> bool \<Rightarrow> bytes \<Rightarrow> nat \<Rightarrow> session \<Rightarrow> (error + session) option" where
  "write_run e d v c s =
     (let s = (if d then s else set_last v s)
      in rec_col_var_helper e True (Some (r_last (reconcile s))) d False c s)"






text \<open>The number of records that a sequence of events stands for.\<close>

fun events_count :: "col_event list \<Rightarrow> nat" where
  "events_count [] = 0"
| "events_count (Rec d v c # rest) = c + events_count rest"
| "events_count (Raw b k # rest) = k + events_count rest"
| "events_count (Track off # rest) = events_count rest"
| "events_count (Fail err # rest) = events_count rest"






section \<open>The split engine: shared facts\<close>

text \<open>What \<^verbatim>\<open>__rec_split_write\<close> does to the session: the address pair returned is
  stored in the boundary, the write is logged.\<close>

lemma rec_split_write_result:
  assumes "rec_split_write e s i buf = Inr (s', buf')"
  obtains off where
    "s' = s\<lparr>reconcile := (reconcile s)\<lparr>r_bnd := (r_bnd (reconcile s))
               [i := (r_bnd (reconcile s) ! i)\<lparr>b_off := off\<rparr>]\<rparr>,
           blk := (blk s)\<lparr>blk_writes := blk_writes (blk s) @ [(split_write_image e buf, off)]\<rparr>\<rparr>"
    "d_type (dsk_hdr buf') = d_type (dsk_hdr buf)"
  using assms
  by (auto simp: rec_split_write_def split_write_image_def Let_def split: if_splits sum.splits)

lemma rec_split_bnd_grow_frame:
  "r_bnd_next r \<le> length (r_bnd r) \<Longrightarrow>
   r_bnd_next (rec_split_bnd_grow r) = r_bnd_next r \<and>
   Suc (r_bnd_next r) < length (r_bnd (rec_split_bnd_grow r)) \<and>
   take (length (r_bnd r)) (r_bnd (rec_split_bnd_grow r)) = r_bnd r \<and>
   rec_split_bnd_grow r = r\<lparr>r_bnd := r_bnd (rec_split_bnd_grow r)\<rparr>"
  by (simp add: rec_split_bnd_grow_def)

section \<open>The tracker after a reconciliation (claim C9)\<close>

lemma pt_cases: "trk_freed t \<longleftrightarrow> \<not> (trk_type t = WT_PT_EMPTY \<or> trk_type t = WT_PT_OVFL)"
  by (cases "trk_type t") (simp_all add: trk_freed_def)

lemma discard_track_loop_result:
  "discard_track_loop e ts b = Inr (ts', b') \<Longrightarrow>
     ts' = map (\<lambda>t. if trk_freed t then trk_empty e else t) ts \<and>
     blk_frees b' = blk_frees b @ map trk_off (filter trk_freed ts) \<and>
     blk_writes b' = blk_writes b"
proof (induction ts arbitrary: b ts' b')
  case Nil
  then show ?case by simp
next
  case (Cons t ts)
  show ?case
  proof (cases "trk_freed t")
    case False
    then have keep: "trk_type t = WT_PT_EMPTY \<or> trk_type t = WT_PT_OVFL"
      by (simp add: pt_cases)
    with Cons.prems obtain ts1 where
      rec: "discard_track_loop e ts b = Inr (ts1, b')" and ts': "ts' = t # ts1"
      by (auto split: sum.splits)
    from Cons.IH [OF rec] False ts' show ?thesis by simp
  next
    case True
    then have nkeep: "\<not> (trk_type t = WT_PT_EMPTY \<or> trk_type t = WT_PT_OVFL)"
      by (simp add: pt_cases)
    with Cons.prems obtain ts1 where
      rec: "discard_track_loop e ts (b\<lparr>blk_frees := blk_frees b @ [trk_off t]\<rparr>) = Inr (ts1, b')"
      and ts': "ts' = trk_empty e # ts1"
      by (auto simp: trk_off_def trk_empty_def split: sum.splits option.splits)
    from Cons.IH [OF rec] True ts' show ?thesis by simp
  qed
qed

text \<open>Claim C9, as amended.  When \<^verbatim>\<open>__wt_rec_discard_track\<close> returns success, every
  tracked entry is in state \<^verbatim>\<open>WT_PT_OVFL\<close> or \<^verbatim>\<open>WT_PT_EMPTY\<close>: each entry that was in state
  \<^verbatim>\<open>WT_PT_BLOCK\<close> or \<^verbatim>\<open>WT_PT_OVFL_DISCARD\<close> has had \<^verbatim>\<open>__wt_block_free\<close> called with its
  address pair (in the order of the entries) and is reset to \<^verbatim>\<open>WT_PT_EMPTY\<close> with a NULL
  \<^verbatim>\<open>ref\<close>, the address \<^verbatim>\<open>WT_ADDR_INVALID\<close> and size 0; every other entry is unchanged, and
  nothing is written.\<close>

theorem wt_rec_discard_track_law:
  assumes "wt_rec_discard_track e s = Inr s'"
  shows "(\<forall>t \<in> set (track s'). trk_type t = WT_PT_OVFL \<or> trk_type t = WT_PT_EMPTY) \<and>
         track s' = map (\<lambda>t. if trk_freed t then trk_empty e else t) (track s) \<and>
         blk_frees (blk s') = blk_frees (blk s) @ map trk_off (filter trk_freed (track s)) \<and>
         blk_writes (blk s') = blk_writes (blk s)"
proof -
  from assms obtain ts' b' where
    loop: "discard_track_loop e (track s) (blk s) = Inr (ts', b')" and
    s': "s' = s\<lparr>track := ts', blk := b'\<rparr>"
    by (auto simp: wt_rec_discard_track_def split: sum.splits)
  note res = discard_track_loop_result [OF loop]
  have "\<forall>t \<in> set ts'. trk_type t = WT_PT_OVFL \<or> trk_type t = WT_PT_EMPTY"
  proof
    fix t assume "t \<in> set ts'"
    with res obtain u where "t = (if trk_freed u then trk_empty e else u)"
      by (auto simp del: if_split split: if_splits intro: that)
    then show "trk_type t = WT_PT_OVFL \<or> trk_type t = WT_PT_EMPTY"
      by (cases "trk_freed u") (auto simp: trk_empty_def pt_cases)
  qed
  with res s' show ?thesis by simp
qed

text \<open>Claim C9 as stated fails for \<^verbatim>\<open>__rec_write_wrapup\<close>, which never calls
  \<^verbatim>\<open>__wt_rec_discard_track\<close>: wrapping up a page whose previous reconciliation replaced
  it adds a \<^verbatim>\<open>WT_PT_BLOCK\<close> entry for the old block and leaves it there.\<close>

theorem rec_write_wrapup_leaves_block:
  "rec_write_wrapup ex_replaced =
     Inr (ex_replaced\<lparr>page_mod_u := U_write_off \<lparr>off_addr = 9, off_size = 64\<rparr>,
                      track := [\<lparr>trk_type = WT_PT_BLOCK, trk_ref = None,
                                 trk_addr = 7, trk_size = 64\<rparr>]\<rparr>) \<and>
   \<not> (\<forall>s'. rec_write_wrapup ex_replaced = Inr s' \<longrightarrow>
          (\<forall>t \<in> set (track s'). trk_type t = WT_PT_OVFL \<or> trk_type t = WT_PT_EMPTY))"
  by (simp add: rec_write_wrapup_def rec_write_wrapup_previous_def ex_replaced_def
      ex_session_def ex_reconcile_def ex_flags_def ex_bnd_def F_ISSET_REC_MASK_def
      F_CLR_REC_MASK_def wt_rec_track_def)

text \<open>The law at a tracker holding a block, a live overflow item and a discarded one.\<close>

theorem wt_rec_discard_track_law_witness:
  "wt_rec_discard_track ex_env
      (ex_session\<lparr>track := [\<lparr>trk_type = WT_PT_BLOCK, trk_ref = None, trk_addr = 7, trk_size = 64\<rparr>,
                            \<lparr>trk_type = WT_PT_OVFL, trk_ref = Some 5, trk_addr = 8, trk_size = 64\<rparr>,
                            \<lparr>trk_type = WT_PT_OVFL_DISCARD, trk_ref = Some 6, trk_addr = 9, trk_size = 64\<rparr>]\<rparr>)
     = Inr (ex_session\<lparr>track := [trk_empty ex_env,
                            \<lparr>trk_type = WT_PT_OVFL, trk_ref = Some 5, trk_addr = 8, trk_size = 64\<rparr>,
                            trk_empty ex_env],
                       blk := \<lparr>blk_writes = [],
                               blk_frees = [\<lparr>off_addr = 7, off_size = 64\<rparr>,
                                            \<lparr>off_addr = 9, off_size = 64\<rparr>]\<rparr>\<rparr>) \<and>
   blk_frees (blk (ex_session\<lparr>track := [trk_empty ex_env,
                            \<lparr>trk_type = WT_PT_OVFL, trk_ref = Some 5, trk_addr = 8, trk_size = 64\<rparr>,
                            trk_empty ex_env],
                       blk := \<lparr>blk_writes = [],
                               blk_frees = [\<lparr>off_addr = 7, off_size = 64\<rparr>,
                                            \<lparr>off_addr = 9, off_size = 64\<rparr>]\<rparr>\<rparr>))
     = [\<lparr>off_addr = 7, off_size = 64\<rparr>, \<lparr>off_addr = 9, off_size = 64\<rparr>]"
proof -
  let ?s = "ex_session\<lparr>track := [\<lparr>trk_type = WT_PT_BLOCK, trk_ref = None, trk_addr = 7, trk_size = 64\<rparr>,
                            \<lparr>trk_type = WT_PT_OVFL, trk_ref = Some 5, trk_addr = 8, trk_size = 64\<rparr>,
                            \<lparr>trk_type = WT_PT_OVFL_DISCARD, trk_ref = Some 6, trk_addr = 9, trk_size = 64\<rparr>]\<rparr>"
  have run: "wt_rec_discard_track ex_env ?s
     = Inr (ex_session\<lparr>track := [trk_empty ex_env,
                            \<lparr>trk_type = WT_PT_OVFL, trk_ref = Some 5, trk_addr = 8, trk_size = 64\<rparr>,
                            trk_empty ex_env],
                       blk := \<lparr>blk_writes = [],
                               blk_frees = [\<lparr>off_addr = 7, off_size = 64\<rparr>,
                                            \<lparr>off_addr = 9, off_size = 64\<rparr>]\<rparr>\<rparr>)"
    by (simp add: wt_rec_discard_track_def ex_session_def ex_env_def trk_empty_def)
  from wt_rec_discard_track_law [OF run] run show ?thesis
    by (simp add: ex_session_def)
qed

section \<open>Wrap-up (claim C2)\<close>

lemma wt_rec_track_frame:
  "reconcile (wt_rec_track s ty ref a sz) = reconcile s \<and>
   blk (wt_rec_track s ty ref a sz) = blk s \<and>
   page_flags (wt_rec_track s ty ref a sz) = page_flags s \<and>
   page_mod_u (wt_rec_track s ty ref a sz) = page_mod_u s \<and>
   page_type (wt_rec_track s ty ref a sz) = page_type s \<and>
   salvage (wt_rec_track s ty ref a sz) = salvage s"
  by (simp add: wt_rec_track_def)

lemma rec_track_restart_row_frame:
  "reconcile (rec_track_restart_row s refs) = reconcile s \<and>
   blk (rec_track_restart_row s refs) = blk s \<and>
   page_flags (rec_track_restart_row s refs) = page_flags s \<and>
   page_mod_u (rec_track_restart_row s refs) = page_mod_u s \<and>
   page_type (rec_track_restart_row s refs) = page_type s"
  by (induction refs arbitrary: s) (simp_all add: wt_rec_track_frame)

lemma rec_track_restart_col_frame:
  "reconcile (rec_track_restart_col s refs) = reconcile s \<and>
   blk (rec_track_restart_col s refs) = blk s \<and>
   page_flags (rec_track_restart_col s refs) = page_flags s \<and>
   page_mod_u (rec_track_restart_col s refs) = page_mod_u s \<and>
   page_type (rec_track_restart_col s refs) = page_type s"
  by (induction refs arbitrary: s) (simp_all add: wt_rec_track_frame)

lemma rec_write_wrapup_previous_frame:
  assumes "rec_write_wrapup_previous s = Inr s1"
  shows "reconcile s1 = reconcile s \<and> blk s1 = blk s \<and> page_flags s1 = page_flags s \<and>
         page_mod_u s1 = page_mod_u s \<and> page_type s1 = page_type s"
  using assms
  by (auto simp: rec_write_wrapup_previous_def wt_rec_track_frame
      rec_track_restart_row_frame rec_track_restart_col_frame
      split: rec_mask.splits mod_u.splits page_u.splits if_splits)

lemma map_take_upt:
  "n \<le> length xs \<Longrightarrow> map f (take n xs) = map (\<lambda>i. f (xs ! i)) [0 ..< n]"
  by (rule nth_equalityI) simp_all

lemma F_ISSET_REC_MASK_set:
  "F_ISSET_REC_MASK ((F_CLR_REC_MASK f)\<lparr>f_rec_empty := True\<rparr>) = REC_EMPTY"
  "F_ISSET_REC_MASK ((F_CLR_REC_MASK f)\<lparr>f_rec_replace := True\<rparr>) = REC_REPLACE"
  "F_ISSET_REC_MASK ((F_CLR_REC_MASK f)\<lparr>f_rec_split := True\<rparr>) = REC_SPLIT"
  by (simp_all add: F_ISSET_REC_MASK_def F_CLR_REC_MASK_def)

text \<open>Claim C2.  When \<^verbatim>\<open>__rec_write_wrapup\<close> succeeds it writes no block and leaves the
  reconciliation structure alone, and the page's new state follows \<^verbatim>\<open>bnd_next\<close>: with 0
  boundaries the page is flagged empty; with 1 it is flagged replaced and
  \<^verbatim>\<open>modify->u.write_off\<close> is the first boundary's address pair; with 2 or more it is
  flagged split and \<^verbatim>\<open>modify->u.write_split\<close> is a new in-memory internal page, row-store
  for a row-store page and column-store otherwise, itself flagged \<^verbatim>\<open>WT_PAGE_REC_SPLIT\<close>
  (and with no other flag), with no \<^verbatim>\<open>modify\<close> structure,
  whose references are, boundary by boundary, the boundary's address pair with its
  promoted key (row) or starting record number (column), each on disk with no page.\<close>

theorem rec_write_wrapup_states:
  assumes run: "rec_write_wrapup s = Inr s'"
    and slots: "r_bnd_next (reconcile s) \<le> length (r_bnd (reconcile s))"
  shows "blk s' = blk s \<and> reconcile s' = reconcile s \<and>
    (r_bnd_next (reconcile s) = 0 \<longrightarrow>
       F_ISSET_REC_MASK (page_flags s') = REC_EMPTY \<and> page_mod_u s' = page_mod_u s) \<and>
    (r_bnd_next (reconcile s) = 1 \<longrightarrow>
       F_ISSET_REC_MASK (page_flags s') = REC_REPLACE \<and>
       page_mod_u s' = U_write_off (b_off (r_bnd (reconcile s) ! 0))) \<and>
    (2 \<le> r_bnd_next (reconcile s) \<longrightarrow>
       F_ISSET_REC_MASK (page_flags s') = REC_SPLIT \<and>
       page_mod_u s' =
         U_write_split
           (if is_row_type (page_type s)
            then Page WT_PAGE_ROW_INT
                   \<lparr>f_rec_empty = False, f_rec_replace = False, f_rec_split = True,
                    f_bulk_load = False\<rparr> None
                   (U_row_int (map (\<lambda>i. bnd_row_ref (r_bnd (reconcile s) ! i))
                                   [0 ..< r_bnd_next (reconcile s)]))
            else Page WT_PAGE_COL_INT
                   \<lparr>f_rec_empty = False, f_rec_replace = False, f_rec_split = True,
                    f_bulk_load = False\<rparr> None
                   (U_col_int (b_recno (r_bnd (reconcile s) ! 0))
                      (map (\<lambda>i. bnd_col_ref (r_bnd (reconcile s) ! i))
                           [0 ..< r_bnd_next (reconcile s)]))))"
proof -
  from run obtain s1 where prev: "rec_write_wrapup_previous s = Inr s1"
    by (auto simp: rec_write_wrapup_def split: sum.splits)
  note fr = rec_write_wrapup_previous_frame [OF prev]
  let ?n = "r_bnd_next (reconcile s)"
  have row: "rec_split_row (reconcile s) =
      Page WT_PAGE_ROW_INT
                   \<lparr>f_rec_empty = False, f_rec_replace = False, f_rec_split = True,
                    f_bulk_load = False\<rparr> None
        (U_row_int (map (\<lambda>i. bnd_row_ref (r_bnd (reconcile s) ! i)) [0 ..< ?n]))"
    using slots by (simp add: rec_split_row_def rec_flag_split_def bnd_row_ref_def map_take_upt)
  have col: "rec_split_col (reconcile s) =
      Page WT_PAGE_COL_INT
                   \<lparr>f_rec_empty = False, f_rec_replace = False, f_rec_split = True,
                    f_bulk_load = False\<rparr> None
        (U_col_int (b_recno (r_bnd (reconcile s) ! 0))
           (map (\<lambda>i. bnd_col_ref (r_bnd (reconcile s) ! i)) [0 ..< ?n]))"
    using slots by (simp add: rec_split_col_def rec_flag_split_def bnd_col_ref_def map_take_upt)
  consider (zero) "?n = 0" | (one) "?n = 1" | (more) "2 \<le> ?n" by linarith
  then show ?thesis
  proof cases
    case zero
    with run prev fr show ?thesis
      by (auto simp: rec_write_wrapup_def F_ISSET_REC_MASK_set Let_def)
  next
    case one
    with run prev fr show ?thesis
      by (auto simp: rec_write_wrapup_def F_ISSET_REC_MASK_set Let_def)
  next
    case more
    then have n: "?n \<noteq> 0" "?n \<noteq> 1" by simp_all
    from run prev fr n show ?thesis
      by (cases "page_type s")
         (auto simp: rec_write_wrapup_def F_ISSET_REC_MASK_set is_row_type_def row col Let_def)
  qed
qed

text \<open>A row-store leaf page that ended with two boundaries, promoted keys \<open>a\<close> and \<open>m\<close>.\<close>

theorem rec_write_wrapup_states_witness:
  "rec_write_wrapup ex_split2 =
     Inr (ex_split2\<lparr>page_flags := ex_flags\<lparr>f_rec_split := True\<rparr>,
                    page_mod_u := U_write_split
                      (Page WT_PAGE_ROW_INT
                   \<lparr>f_rec_empty = False, f_rec_replace = False, f_rec_split = True,
                    f_bulk_load = False\<rparr> None
                         (U_row_int [Row_ref \<lparr>ik_cell = None, ik_data = [97]\<rparr> 9 64 WT_REF_DISK None,
                                     Row_ref \<lparr>ik_cell = None, ik_data = [109]\<rparr> 10 64 WT_REF_DISK None]))\<rparr>) \<and>
   blk (ex_split2\<lparr>page_flags := ex_flags\<lparr>f_rec_split := True\<rparr>,
                    page_mod_u := U_write_split
                      (Page WT_PAGE_ROW_INT
                   \<lparr>f_rec_empty = False, f_rec_replace = False, f_rec_split = True,
                    f_bulk_load = False\<rparr> None
                         (U_row_int [Row_ref \<lparr>ik_cell = None, ik_data = [97]\<rparr> 9 64 WT_REF_DISK None,
                                     Row_ref \<lparr>ik_cell = None, ik_data = [109]\<rparr> 10 64 WT_REF_DISK None]))\<rparr>)
     = \<lparr>blk_writes = [], blk_frees = []\<rparr>"
proof -
  let ?s' = "ex_split2\<lparr>page_flags := ex_flags\<lparr>f_rec_split := True\<rparr>,
                    page_mod_u := U_write_split
                      (Page WT_PAGE_ROW_INT
                   \<lparr>f_rec_empty = False, f_rec_replace = False, f_rec_split = True,
                    f_bulk_load = False\<rparr> None
                         (U_row_int [Row_ref \<lparr>ik_cell = None, ik_data = [97]\<rparr> 9 64 WT_REF_DISK None,
                                     Row_ref \<lparr>ik_cell = None, ik_data = [109]\<rparr> 10 64 WT_REF_DISK None]))\<rparr>"
  have run: "rec_write_wrapup ex_split2 = Inr ?s'"
    by (simp add: rec_write_wrapup_def rec_write_wrapup_previous_def ex_split2_def
        ex_session_def ex_reconcile_def ex_flags_def ex_bnd_def F_ISSET_REC_MASK_def
        F_CLR_REC_MASK_def rec_split_row_def rec_flag_split_def)
  have slots: "r_bnd_next (reconcile ex_split2) \<le> length (r_bnd (reconcile ex_split2))"
    by (simp add: ex_split2_def ex_session_def ex_reconcile_def)
  from rec_write_wrapup_states [OF run slots] have "blk ?s' = blk ex_split2"
    by simp
  with run show ?thesis by (simp add: ex_split2_def ex_session_def)
qed

section \<open>Salvage in the variable-length column-store helper (claim C3)\<close>

lemmas ex_defs = ex_session_def ex_reconcile_def ex_env_def ex_kv_def ex_flags_def ex_tag_def

lemma ex_col_session_eval:
  "ex_col_session c =
     ex_session\<lparr>page_type := WT_PAGE_COL_VAR, salvage := c,
       reconcile := ex_reconcile\<lparr>
         r_dsk := \<lparr>dsk_hdr = \<lparr>d_type = WT_PAGE_COL_VAR, d_recno = 0, d_entries = 0\<rparr>,
                   dsk_mem = replicate 60 0, dsk_size = 64\<rparr>,
         r_page_size := 64, r_split_size := 48,
         r_bnd := (replicate 20 bnd_clear)[0 := bnd_clear\<lparr>b_recno := 1\<rparr>],
         r_recno := 1, r_space_avail := 44\<rparr>\<rparr>"
  by (simp add: ex_col_session_def rec_split_init_def rec_split_bnd_grow_def ex_defs Let_def bnd_clear_def u32_def)

text \<open>Claim C3 does not hold of the code.  With a cookie whose \<^verbatim>\<open>skip\<close> is 2 and a run of
  5 records, \<^verbatim>\<open>__rec_col_var_helper\<close> sets \<^verbatim>\<open>skip\<close> to 0 and only then subtracts it from
  the run length: the cell it writes still has run length 5 (not 3), and the record
  number advances by 5.\<close>

theorem rec_col_var_helper_skip_keeps_rle:
  "rec_col_var_helper_salvage \<lparr>sc_missing = 0, sc_skip = 2, sc_take = 0, sc_done = False\<rparr> 5
     = (\<lparr>sc_missing = 0, sc_skip = 0, sc_take = 0, sc_done = False\<rparr>, Some 5) \<and>
   (\<exists>s'. rec_col_var_helper ex_env True (Some \<lparr>it_ptr = 2000, it_data = [120]\<rparr>) False False 5
            (ex_col_session (Some \<lparr>sc_missing = 0, sc_skip = 2, sc_take = 0, sc_done = False\<rparr>))
          = Some (Inr s') \<and>
        kv_cell (r_v (reconcile s')) = wt_cell_pack_data ex_env 5 1 \<and>
        take 5 (dsk_mem (r_dsk (reconcile s'))) = wt_cell_pack_data ex_env 5 1 @ [120] \<and>
        r_recno (reconcile s') = 1 + 5 \<and>
        salvage s' = Some \<lparr>sc_missing = 0, sc_skip = 0, sc_take = 0, sc_done = False\<rparr>)"
  by (simp add: rec_col_var_helper_salvage_def rec_col_var_helper_def ex_col_session_eval
      rec_col_var_helper_write_def rec_cell_build_val_def rec_split_while.simps
      rec_copy_incr_def rec_incr_def mem_write_def kv_data_def ex_defs Let_def u32_def u64_def)

section \<open>Prefix compression of keys (claim C5)\<close>

lemma first_differing_index_simps:
  "first_differing_index [] ys = 0"
  "first_differing_index xs [] = 0"
  "first_differing_index (x # xs) (y # ys) =
     (if x = y then Suc (first_differing_index xs ys) else 0)"
  by (simp_all add: first_differing_index_def)

lemma first_differing_index_le:
  "first_differing_index xs ys \<le> length xs" "first_differing_index xs ys \<le> length ys"
proof -
  have "length (takeWhile (\<lambda>(x, y). x = y) (zip xs ys)) \<le> length (zip xs ys)"
    by (rule length_takeWhile_le)
  then show "first_differing_index xs ys \<le> length xs" "first_differing_index xs ys \<le> length ys"
    by (simp_all add: first_differing_index_def)
qed

lemma first_differing_index_take:
  "take (first_differing_index xs ys) ys = take (first_differing_index xs ys) xs"
proof (induction xs arbitrary: ys)
  case Nil
  then show ?case by (simp add: first_differing_index_simps)
next
  case (Cons x xs)
  then show ?case by (cases ys) (simp_all add: first_differing_index_simps)
qed

lemma first_differing_index_take_le:
  assumes "n \<le> first_differing_index xs ys"
  shows "take n ys = take n xs"
proof -
  have "take n ys = take n (take (first_differing_index xs ys) ys)"
    using assms by (simp add: min_absorb1)
  also have "\<dots> = take n (take (first_differing_index xs ys) xs)"
    by (simp only: first_differing_index_take)
  also have "\<dots> = take n xs"
    using assms by (simp add: min_absorb1)
  finally show ?thesis .
qed

lemma first_differing_index_differs:
  "first_differing_index xs ys < length xs \<Longrightarrow> first_differing_index xs ys < length ys \<Longrightarrow>
   xs ! first_differing_index xs ys \<noteq> ys ! first_differing_index xs ys"
proof (induction xs arbitrary: ys)
  case Nil
  then show ?case by simp
next
  case (Cons x xs)
  then show ?case by (cases ys) (auto simp: first_differing_index_simps)
qed

lemma first_differing_index_take_left:
  "first_differing_index (take n xs) ys = min n (first_differing_index xs ys)"
proof (induction xs arbitrary: ys n)
  case Nil
  then show ?case by (simp add: first_differing_index_simps)
next
  case (Cons x xs)
  show ?case
  proof (cases n)
    case 0
    then show ?thesis by (simp add: first_differing_index_simps)
  next
    case (Suc m)
    with Cons show ?thesis by (cases ys) (simp_all add: first_differing_index_simps)
  qed
qed

lemma pfx_loop_first_differing:
  "pfx_max \<le> pfx + length a \<Longrightarrow> pfx_max \<le> pfx + length b \<Longrightarrow> pfx \<le> pfx_max \<Longrightarrow>
   pfx_loop a b pfx pfx_max = min pfx_max (pfx + first_differing_index a b)"
proof (induction a b pfx pfx_max rule: pfx_loop.induct)
  case (1 a b pfx pfx_max)
  show ?case
  proof (cases "pfx < pfx_max")
    case False
    with "1.prems" show ?thesis by (subst pfx_loop.simps) simp
  next
    case True
    with "1.prems" obtain x xs y ys where a: "a = x # xs" and b: "b = y # ys"
      by (cases a; cases b) auto
    show ?thesis
    proof (cases "x = y")
      case False
      with True a b show ?thesis
        by (subst pfx_loop.simps) (simp add: first_differing_index_simps)
    next
      case same: True
      with True a b have step: "pfx_loop a b pfx pfx_max = pfx_loop xs ys (pfx + 1) pfx_max"
        by (subst pfx_loop.simps) simp
      have "pfx_loop (tl a) (tl b) (pfx + 1) pfx_max =
              min pfx_max (pfx + 1 + first_differing_index (tl a) (tl b))"
        using True same a b "1.prems" by (intro "1.IH") simp_all
      with step same a b show ?thesis by (simp add: first_differing_index_simps)
    qed
  qed
qed

lemma rec_key_prefix_spec:
  assumes "sz \<le> length d"
  shows "rec_key_prefix r d sz =
           (if r_key_pfx_compress r then spec_pfx (take sz d) (it_data (r_last r)) else 0)"
proof (cases "r_key_pfx_compress r")
  case False
  then show ?thesis by (simp add: rec_key_prefix_def)
next
  case True
  let ?last = "it_data (r_last r)"
  let ?pfx_max = "if length ?last < (if sz < 255 then sz else 255)
                  then length ?last else (if sz < 255 then sz else 255)"
  have "pfx_loop d ?last 0 ?pfx_max = min ?pfx_max (0 + first_differing_index d ?last)"
    using assms by (intro pfx_loop_first_differing) auto
  then have "pfx_loop d ?last 0 ?pfx_max = spec_pfx (take sz d) ?last"
    using assms first_differing_index_le [of d ?last]
    by (auto simp: spec_pfx_def first_differing_index_take_left min_def)
  with True show ?thesis by (simp add: rec_key_prefix_def Let_def)
qed

lemma rec_cell_build_ovfl_reconcile:
  "rec_cell_build_ovfl e s orig kv ty rle = Inr (kv', s') \<Longrightarrow> reconcile s' = reconcile s"
  by (auto simp: rec_cell_build_ovfl_def rec_track_ovfl_active_def wt_rec_track_def Let_def
      split: option.splits sum.splits prod.splits)

lemma k_frame_upd: "k_frame r (r\<lparr>r_k := kv\<rparr>)"
  by (simp add: k_frame_def)

lemma k_frame_refl: "k_frame r r"
  by (simp add: k_frame_def)

lemma k_frame_trans:
  assumes "k_frame r r'" and "k_frame r' r''"
  shows "k_frame r r''"
proof -
  have "r''\<lparr>r_k := r_k r\<rparr> = (r''\<lparr>r_k := r_k r'\<rparr>)\<lparr>r_k := r_k r\<rparr>" by simp
  also have "\<dots> = r'\<lparr>r_k := r_k r\<rparr>" using assms(2) by (simp only: k_frame_def)
  also have "\<dots> = r" using assms(1) by (simp only: k_frame_def)
  finally show ?thesis by (simp only: k_frame_def)
qed

lemma k_frame_cur:
  assumes "k_frame r r'"
  shows "r_cur r' = r_cur r"
proof -
  from assms have "r_cur (r'\<lparr>r_k := r_k r\<rparr>) = r_cur r" by (simp only: k_frame_def)
  then show ?thesis by simp
qed

lemma k_frame_key_frame:
  assumes "k_frame r r'"
  shows "key_frame r r'"
proof -
  from k_frame_cur [OF assms] have "r'\<lparr>r_cur := r_cur r, r_k := r_k r\<rparr> = r'\<lparr>r_k := r_k r\<rparr>"
    by (metis wt_reconcile.unfold_congs(17) wt_reconcile.update_convs(17) wt_reconcile.surjective)
  with assms show ?thesis by (simp only: k_frame_def key_frame_def)
qed

lemma key_frame_upd: "key_frame r (r\<lparr>r_cur := c, r_k := kv\<rparr>)"
  by (simp add: key_frame_def)

lemma key_frame_trans:
  assumes "key_frame r r'" and "key_frame r' r''"
  shows "key_frame r r''"
proof -
  have "r''\<lparr>r_cur := r_cur r, r_k := r_k r\<rparr> =
        (r''\<lparr>r_cur := r_cur r', r_k := r_k r'\<rparr>)\<lparr>r_cur := r_cur r, r_k := r_k r\<rparr>" by simp
  also have "\<dots> = r'\<lparr>r_cur := r_cur r, r_k := r_k r\<rparr>" using assms(2) by (simp only: key_frame_def)
  also have "\<dots> = r" using assms(1) by (simp only: key_frame_def)
  finally show ?thesis by (simp only: key_frame_def)
qed

lemma key_frame_fields:
  assumes "key_frame r r'"
  shows "r_last r' = r_last r" "r_key_pfx_compress r' = r_key_pfx_compress r"
    "r_key_sfx_compress r' = r_key_sfx_compress r" "r_cell_zero r' = r_cell_zero r"
    "r_merge_ref r' = r_merge_ref r" "r_v r' = r_v r" "r_dsk r' = r_dsk r"
    "r_space_avail r' = r_space_avail r" "r_bnd r' = r_bnd r" "r_bnd_next r' = r_bnd_next r"
proof -
  from assms have e: "r'\<lparr>r_cur := r_cur r, r_k := r_k r\<rparr> = r" by (simp only: key_frame_def)
  from arg_cong [OF e, of r_last] show "r_last r' = r_last r" by simp
  from arg_cong [OF e, of r_key_pfx_compress] show "r_key_pfx_compress r' = r_key_pfx_compress r" by simp
  from arg_cong [OF e, of r_key_sfx_compress] show "r_key_sfx_compress r' = r_key_sfx_compress r" by simp
  from arg_cong [OF e, of r_cell_zero] show "r_cell_zero r' = r_cell_zero r" by simp
  from arg_cong [OF e, of r_merge_ref] show "r_merge_ref r' = r_merge_ref r" by simp
  from arg_cong [OF e, of r_v] show "r_v r' = r_v r" by simp
  from arg_cong [OF e, of r_dsk] show "r_dsk r' = r_dsk r" by simp
  from arg_cong [OF e, of r_space_avail] show "r_space_avail r' = r_space_avail r" by simp
  from arg_cong [OF e, of r_bnd] show "r_bnd r' = r_bnd r" by simp
  from arg_cong [OF e, of r_bnd_next] show "r_bnd_next r' = r_bnd_next r" by simp
qed

lemma rec_key_ovfl_result:
  assumes "rec_key_ovfl e s r = Inr (f, s')"
  shows "f \<and> k_frame r (reconcile s')"
proof -
  from assms obtain kv s1 where
    b: "rec_cell_build_ovfl e (s\<lparr>reconcile := r\<rparr>) None (r_k r) WT_CELL_KEY_OVFL 0 = Inr (kv, s1)"
    and f: "f" and s': "s' = s1\<lparr>reconcile := (reconcile s1)\<lparr>r_k := kv\<rparr>\<rparr>"
    by (simp add: rec_key_ovfl_def split: sum.splits prod.splits)
  from rec_cell_build_ovfl_reconcile [OF b] have "reconcile s1 = r" by simp
  with f s' show ?thesis by (simp add: k_frame_upd)
qed

lemma rec_key_huffman_frame:
  assumes "rec_key_huffman e r = Inr r'"
  shows "k_frame r r'"
proof (cases "huffman_key e")
  case None
  with assms show ?thesis by (simp add: rec_key_huffman_def k_frame_refl)
next
  case (Some encode)
  with assms show ?thesis
    by (cases "encode (kv_data e (r_k r))") (auto simp: rec_key_huffman_def k_frame_upd)
qed

lemma rec_key_huffman_none: "huffman_key e = None \<Longrightarrow> rec_key_huffman e r = Inr r"
  by (simp add: rec_key_huffman_def)

lemma rec_key_cell_frame: "k_frame r (rec_key_cell e r pfx)"
  by (simp add: rec_key_cell_def Let_def k_frame_upd)

lemma rec_key_start_None:
  "rec_key_start r None sz = (0, r\<lparr>r_k := (r_k r)\<lparr>kv_buf := KV_bytes (it_data (r_cur r))\<rparr>\<rparr>)"
  by (simp add: rec_key_start_def)

lemma rec_key_start_Some:
  "rec_key_start r (Some d) sz =
     (rec_key_prefix r d sz,
      r\<lparr>r_cur := (r_cur r)\<lparr>it_data := take sz d\<rparr>,
        r_k := (r_k r)\<lparr>kv_buf := KV_bytes (drop (rec_key_prefix r d sz) (take sz d))\<rparr>\<rparr>)"
  by (simp add: rec_key_start_def rec_key_prefix_def Let_def)

text \<open>The three ways \<^verbatim>\<open>__rec_cell_build_key\<close> returns success.\<close>

lemma rec_cell_build_key_cases [consumes 1, case_names ovfl again cell]:
  assumes run: "rec_cell_build_key e s data sz is_internal = Inr (f, s')"
  obtains r1 where "rec_key_huffman e (snd (rec_key_start (reconcile s) data sz)) = Inr r1"
      and "(if is_internal then maxintlitem e else maxleafitem e) < length (kv_data e (r_k r1))"
      and "fst (rec_key_start (reconcile s) data sz) = 0" and "rec_key_ovfl e s r1 = Inr (f, s')"
    | r1 where "rec_key_huffman e (snd (rec_key_start (reconcile s) data sz)) = Inr r1"
      and "(if is_internal then maxintlitem e else maxleafitem e) < length (kv_data e (r_k r1))"
      and "fst (rec_key_start (reconcile s) data sz) \<noteq> 0"
      and "rec_cell_build_key e (s\<lparr>reconcile := r1\<rparr>) None 0 is_internal = Inr (f, s')"
    | r1 where "rec_key_huffman e (snd (rec_key_start (reconcile s) data sz)) = Inr r1"
      and "\<not> (if is_internal then maxintlitem e else maxleafitem e) < length (kv_data e (r_k r1))"
      and "\<not> f"
      and "s' = s\<lparr>reconcile := rec_key_cell e r1 (fst (rec_key_start (reconcile s) data sz))\<rparr>"
proof -
  define pfx r0 where "pfx = fst (rec_key_start (reconcile s) data sz)"
    and "r0 = snd (rec_key_start (reconcile s) data sz)"
  then have start: "rec_key_start (reconcile s) data sz = (pfx, r0)" by simp
  have eq: "rec_cell_build_key e s data sz is_internal =
      (if (case data of None \<Rightarrow> False | Some d \<Rightarrow> sz > length d) then Inl Fault
       else case rec_key_huffman e r0 of
              Inl err \<Rightarrow> Inl err
            | Inr r \<Rightarrow>
                if length (kv_data e (r_k r)) > (if is_internal then maxintlitem e else maxleafitem e)
                then (if pfx = 0 then rec_key_ovfl e s r
                      else rec_cell_build_key e (s\<lparr>reconcile := r\<rparr>) None 0 is_internal)
                else Inr (False, s\<lparr>reconcile := rec_key_cell e r pfx\<rparr>))"
    by (subst rec_cell_build_key.simps) (simp only: start prod.case)
  show ?thesis
  proof (cases "rec_key_huffman e r0")
    case (Inl err)
    with run show ?thesis unfolding eq by (simp split: if_splits)
  next
    case (Inr r1)
    show ?thesis
    proof (cases "(if is_internal then maxintlitem e else maxleafitem e) < length (kv_data e (r_k r1))")
      case False
      with run Inr have "\<not> f" "s' = s\<lparr>reconcile := rec_key_cell e r1 pfx\<rparr>"
        unfolding eq by (simp_all split: if_splits)
      with Inr False show ?thesis unfolding pfx_def r0_def by (rule that(3))
    next
      case big: True
      show ?thesis
      proof (cases "pfx = 0")
        case True
        with run Inr big have "rec_key_ovfl e s r1 = Inr (f, s')"
          unfolding eq by (simp split: if_splits)
        with Inr big True show ?thesis unfolding pfx_def r0_def by (rule that(1))
      next
        case False
        with run Inr big
        have "rec_cell_build_key e (s\<lparr>reconcile := r1\<rparr>) None 0 is_internal = Inr (f, s')"
          unfolding eq by (simp split: if_splits)
        with Inr big False show ?thesis unfolding pfx_def r0_def by (rule that(2))
      qed
    qed
  qed
qed

lemma rec_cell_build_key_size:
  "rec_cell_build_key e s (Some d) sz is_internal = Inr (f, s') \<Longrightarrow> sz \<le> length d"
  by (subst (asm) rec_cell_build_key.simps) (simp split: if_splits)

text \<open>Without data the function has only two ways, and reports an overflow key when
  the key saved in \<^verbatim>\<open>r->cur\<close> is longer than an item may be.\<close>

lemma rec_cell_build_key_null:
  assumes run: "rec_cell_build_key e s None sz is_internal = Inr (f, s')"
  shows "k_frame (reconcile s) (reconcile s') \<and>
         (huffman_key e = None \<longrightarrow>
            (if is_internal then maxintlitem e else maxleafitem e)
              < length (it_data (r_cur (reconcile s))) \<longrightarrow> f)"
  using run
proof (cases rule: rec_cell_build_key_cases)
  case (ovfl r1)
  have "k_frame (reconcile s) (snd (rec_key_start (reconcile s) None sz))"
    by (simp add: rec_key_start_None k_frame_upd)
  with rec_key_huffman_frame [OF ovfl(1)] have "k_frame (reconcile s) r1"
    by (rule k_frame_trans [rotated])
  with rec_key_ovfl_result [OF ovfl(4)] show ?thesis
    by (auto intro: k_frame_trans)
next
  case (again r1)
  then show ?thesis by (simp add: rec_key_start_None)
next
  case (cell r1)
  have "k_frame (reconcile s) (snd (rec_key_start (reconcile s) None sz))"
    by (simp add: rec_key_start_None k_frame_upd)
  with rec_key_huffman_frame [OF cell(1)] have "k_frame (reconcile s) r1"
    by (rule k_frame_trans [rotated])
  then have fr: "k_frame (reconcile s) (reconcile s')"
    using cell(4) rec_key_cell_frame by (auto intro: k_frame_trans)
  have "r1 = snd (rec_key_start (reconcile s) None sz)" if "huffman_key e = None"
    using cell(1) that by (simp add: rec_key_huffman_none)
  with cell(2) have "huffman_key e = None \<Longrightarrow>
      \<not> (if is_internal then maxintlitem e else maxleafitem e) < length (it_data (r_cur (reconcile s)))"
    by (simp add: rec_key_start_None kv_data_def)
  with fr show ?thesis by auto
qed

text \<open>With data, what a successful call leaves: \<^verbatim>\<open>r->cur\<close> holds the key, and apart from
  \<^verbatim>\<open>r->cur\<close> and \<^verbatim>\<open>r->k\<close> the reconciliation structure is unchanged.\<close>

lemma rec_cell_build_key_data:
  assumes run: "rec_cell_build_key e s (Some d) sz is_internal = Inr (f, s')"
  shows "key_frame (reconcile s) (reconcile s') \<and>
         r_cur (reconcile s') = (r_cur (reconcile s))\<lparr>it_data := take sz d\<rparr>"
proof -
  let ?r0 = "snd (rec_key_start (reconcile s) (Some d) sz)"
  have r0: "key_frame (reconcile s) ?r0"
    and cur0: "r_cur ?r0 = (r_cur (reconcile s))\<lparr>it_data := take sz d\<rparr>"
    by (simp_all add: rec_key_start_Some key_frame_upd)
  have "k_frame ?r0 (reconcile s')"
    using run
  proof (cases rule: rec_cell_build_key_cases)
    case (ovfl r1)
    with rec_key_huffman_frame [OF ovfl(1)] rec_key_ovfl_result [OF ovfl(4)] show ?thesis
      by (auto intro: k_frame_trans)
  next
    case (again r1)
    from rec_cell_build_key_null [OF again(4)] rec_key_huffman_frame [OF again(1)]
    show ?thesis by (auto intro: k_frame_trans)
  next
    case (cell r1)
    with rec_key_huffman_frame [OF cell(1)] rec_key_cell_frame show ?thesis
      by (auto intro: k_frame_trans)
  qed
  with r0 cur0 show ?thesis
    by (auto dest: k_frame_cur k_frame_key_frame intro: key_frame_trans)
qed

lemma rec_cell_build_key_frame:
  assumes "rec_cell_build_key e s data sz is_internal = Inr (f, s')"
  shows "key_frame (reconcile s) (reconcile s')"
proof (cases data)
  case None
  with assms rec_cell_build_key_null [of e s sz is_internal f s'] show ?thesis
    by (auto dest: k_frame_key_frame)
next
  case (Some d)
  with assms rec_cell_build_key_data [of e s d sz is_internal f s'] show ?thesis by auto
qed

text \<open>What a key cell that is not an overflow cell holds.\<close>

lemma rec_cell_build_key_cell:
  assumes run: "rec_cell_build_key e s (Some d) sz is_internal = Inr (False, s')"
    and nohuff: "huffman_key e = None"
    and pfxc: "r_key_pfx_compress (reconcile s)"
  shows "kv_cell (r_k (reconcile s')) =
           wt_cell_pack_key e (spec_pfx (take sz d) (it_data (r_last (reconcile s))))
             (sz - spec_pfx (take sz d) (it_data (r_last (reconcile s)))) \<and>
         kv_buf (r_k (reconcile s')) =
           KV_bytes (drop (spec_pfx (take sz d) (it_data (r_last (reconcile s)))) (take sz d)) \<and>
         length (drop (spec_pfx (take sz d) (it_data (r_last (reconcile s)))) (take sz d)) =
           sz - spec_pfx (take sz d) (it_data (r_last (reconcile s))) \<and>
         take (spec_pfx (take sz d) (it_data (r_last (reconcile s)))) (it_data (r_last (reconcile s)))
           @ drop (spec_pfx (take sz d) (it_data (r_last (reconcile s)))) (take sz d) = take sz d \<and>
         it_data (r_cur (reconcile s')) = take sz d \<and> length (take sz d) = sz"
proof -
  let ?key = "take sz d" and ?last = "it_data (r_last (reconcile s))"
  let ?pfx = "spec_pfx ?key ?last"
  note sz = rec_cell_build_key_size [OF run]
  from rec_cell_build_key_data [OF run] have cur: "it_data (r_cur (reconcile s')) = ?key" by simp
  have pfx: "rec_key_prefix (reconcile s) d sz = ?pfx"
    using sz pfxc by (simp add: rec_key_prefix_spec)
  have "?pfx \<le> first_differing_index ?key ?last"
    by (simp add: spec_pfx_def)
  then have "take ?pfx ?last = take ?pfx ?key"
    by (rule first_differing_index_take_le)
  then have reassemble: "take ?pfx ?last @ drop ?pfx ?key = ?key"
    by (simp only: append_take_drop_id)
  let ?r1 = "(reconcile s)\<lparr>r_cur := (r_cur (reconcile s))\<lparr>it_data := ?key\<rparr>,
                            r_k := (r_k (reconcile s))\<lparr>kv_buf := KV_bytes (drop ?pfx ?key)\<rparr>\<rparr>"
  have start: "rec_key_start (reconcile s) (Some d) sz = (?pfx, ?r1)"
    by (simp add: rec_key_start_Some pfx)
  have huff: "rec_key_huffman e ?r1 = Inr r1 \<Longrightarrow> r1 = ?r1" for r1
    using nohuff by (simp add: rec_key_huffman_none)
  from run have "s' = s\<lparr>reconcile := rec_key_cell e ?r1 ?pfx\<rparr>"
  proof (cases rule: rec_cell_build_key_cases)
    case (ovfl r1)
    from rec_key_ovfl_result [OF ovfl(4)] show ?thesis by simp
  next
    case (again r1)
    then have "r1 = ?r1" by (simp add: start huff)
    with again(2) have "(if is_internal then maxintlitem e else maxleafitem e)
                     < length (it_data (r_cur (reconcile (s\<lparr>reconcile := r1\<rparr>))))"
      by (auto simp: kv_data_def min_def split: if_splits)
    with rec_cell_build_key_null [OF again(4)] nohuff show ?thesis by simp
  next
    case (cell r1)
    then have "r1 = ?r1" by (simp add: start huff)
    with cell(4) show ?thesis by (simp add: start)
  qed
  with reassemble sz cur show ?thesis
    by (simp add: rec_key_cell_def Let_def kv_data_def min_absorb2)
qed

text \<open>Claim C5.  When \<^verbatim>\<open>__rec_cell_build_key\<close> builds a key that is not an overflow key,
  with prefix compression active and no Huffman key codec, then the prefix count packed
  into the cell is \<open>min(255, len(key), len(last), first differing index)\<close>, the cell is
  packed for and followed by exactly the \<open>size - pfx\<close> trailing bytes of the key, the
  first \<open>pfx\<close> bytes of the previous full key followed by the stored bytes are the key
  again, and the key is what is saved in \<^verbatim>\<open>r->cur\<close>.\<close>

theorem rec_cell_build_key_prefix:
  assumes run: "rec_cell_build_key e s (Some d) sz is_internal = Inr (False, s')"
    and nohuff: "huffman_key e = None"
    and pfxc: "r_key_pfx_compress (reconcile s)"
  shows "kv_cell (r_k (reconcile s')) =
           wt_cell_pack_key e (spec_pfx (take sz d) (it_data (r_last (reconcile s))))
             (sz - spec_pfx (take sz d) (it_data (r_last (reconcile s)))) \<and>
         kv_buf (r_k (reconcile s')) =
           KV_bytes (drop (spec_pfx (take sz d) (it_data (r_last (reconcile s)))) (take sz d)) \<and>
         length (drop (spec_pfx (take sz d) (it_data (r_last (reconcile s)))) (take sz d)) =
           sz - spec_pfx (take sz d) (it_data (r_last (reconcile s))) \<and>
         take (spec_pfx (take sz d) (it_data (r_last (reconcile s)))) (it_data (r_last (reconcile s)))
           @ drop (spec_pfx (take sz d) (it_data (r_last (reconcile s)))) (take sz d) = take sz d \<and>
         it_data (r_cur (reconcile s')) = take sz d \<and> length (take sz d) = sz"
  using run nohuff pfxc by (rule rec_cell_build_key_cell)

text \<open>The key \<open>ab2\<close> after \<open>ab1\<close>: prefix count 2, one byte stored.\<close>

theorem rec_cell_build_key_prefix_witness:
  "\<exists>s'. rec_cell_build_key ex_env ex_key_session (Some [97, 98, 50]) 3 False = Inr (False, s') \<and>
        kv_cell (r_k (reconcile s')) = wt_cell_pack_key ex_env 2 1 \<and>
        kv_buf (r_k (reconcile s')) = KV_bytes [50] \<and>
        it_data (r_cur (reconcile s')) = [97, 98, 50]"
proof -
  have "\<exists>s'. rec_cell_build_key ex_env ex_key_session (Some [97, 98, 50]) 3 False = Inr (False, s')"
    by (subst rec_cell_build_key.simps)
       (simp add: ex_key_session_def ex_defs Let_def kv_data_def pfx_loop.simps
          rec_key_start_def rec_key_prefix_def rec_key_huffman_def rec_key_cell_def)
  then obtain s' where
    run: "rec_cell_build_key ex_env ex_key_session (Some [97, 98, 50]) 3 False = Inr (False, s')" ..
  have nohuff: "huffman_key ex_env = None" by (simp add: ex_env_def)
  have pfxc: "r_key_pfx_compress (reconcile ex_key_session)"
    by (simp add: ex_key_session_def ex_defs)
  have pfx: "spec_pfx (take 3 [97, 98, 50]) (it_data (r_last (reconcile ex_key_session))) = 2"
    by (simp add: spec_pfx_def first_differing_index_def ex_key_session_def ex_defs)
  from rec_cell_build_key_prefix [OF run nohuff pfxc] run show ?thesis
    unfolding pfx by auto
qed

section \<open>Overflow keys and the key compression state (claim C10)\<close>



section \<open>Suffix compression of promoted keys (claim C4)\<close>

lemma first_differing_index_sym:
  "first_differing_index xs ys = first_differing_index ys xs"
proof (induction xs arbitrary: ys)
  case Nil
  then show ?case by (simp add: first_differing_index_simps)
next
  case (Cons x xs)
  then show ?case by (cases ys) (auto simp: first_differing_index_simps)
qed

lemma sfx_loop_first_differing:
  "len \<le> length pa \<Longrightarrow> len \<le> length pb \<Longrightarrow>
   sfx_loop pa pb cnt len (cnt + len) = cnt + min len (first_differing_index pa pb)"
proof (induction len arbitrary: pa pb cnt)
  case 0
  then show ?case by simp
next
  case (Suc len)
  then obtain x xs y ys where pa: "pa = x # xs" and pb: "pb = y # ys"
    by (cases pa; cases pb) auto
  show ?case
  proof (cases "x = y")
    case False
    with pa pb show ?thesis by (simp add: first_differing_index_simps)
  next
    case True
    have "sfx_loop xs ys (cnt + 1) len (cnt + 1 + len) =
            cnt + 1 + min len (first_differing_index xs ys)"
      using Suc.prems pa pb by (intro Suc.IH) simp_all
    with True pa pb show ?thesis by (simp add: first_differing_index_simps)
  qed
qed

lemma less_first_differing:
  fixes xs ys :: bytes
  assumes "xs < ys"
  shows "first_differing_index xs ys < length ys \<and>
         xs < take (Suc (first_differing_index xs ys)) ys"
  using assms
proof (induction xs arbitrary: ys)
  case Nil
  then show ?case by (cases ys) (simp_all add: first_differing_index_simps)
next
  case (Cons x xs)
  then obtain y ys' where ys: "ys = y # ys'" by (cases ys) simp_all
  show ?case
  proof (cases "x = y")
    case True
    with Cons.prems ys have "xs < ys'" by simp
    from Cons.IH [OF this] True ys show ?thesis
      by (simp add: first_differing_index_simps)
  next
    case False
    with Cons.prems ys have "x < y" by simp
    with False ys show ?thesis by (simp add: first_differing_index_simps)
  qed
qed

lemma not_less_take:
  fixes xs :: bytes
  shows "\<not> xs < take m xs"
proof (induction xs arbitrary: m)
  case Nil
  then show ?case by simp
next
  case (Cons x xs)
  then show ?case by (cases m) simp_all
qed

lemma not_less_short_prefix:
  fixes xs ys :: bytes
  assumes "m \<le> first_differing_index xs ys"
  shows "\<not> xs < take m ys"
proof -
  from assms have "take m ys = take m xs" by (rule first_differing_index_take_le)
  then show ?thesis by (simp add: not_less_take)
qed

lemma first_differing_index_prefix:
  "take (length xs) ys = xs \<Longrightarrow> first_differing_index xs ys = length xs"
proof (induction xs arbitrary: ys)
  case Nil
  then show ?case by (simp add: first_differing_index_simps)
next
  case (Cons x xs)
  then show ?case by (cases ys) (auto simp: first_differing_index_simps)
qed

text \<open>The length the suffix-compression loop computes.\<close>

lemma rec_split_row_promote_size_leaf:
  "rec_split_row_promote_size r WT_PAGE_ROW_LEAF =
     (if r_key_sfx_compress r
      then Suc (first_differing_index (it_data (r_last r)) (it_data (r_cur r)))
      else length (it_data (r_cur r)))"
proof -
  let ?lst = "it_data (r_last r)" and ?cur = "it_data (r_cur r)"
  let ?len = "min (length ?lst) (length ?cur)"
  have "sfx_loop ?lst ?cur 1 ?len (1 + ?len) = 1 + min ?len (first_differing_index ?lst ?cur)"
    by (rule sfx_loop_first_differing) simp_all
  moreover have "first_differing_index ?lst ?cur \<le> ?len"
    using first_differing_index_le [of ?lst ?cur] by simp
  ultimately have "sfx_loop ?lst ?cur 1 ?len (?len + 1) = Suc (first_differing_index ?lst ?cur)"
    by (simp add: min_absorb2 add.commute)
  then show ?thesis by (simp add: rec_split_row_promote_size_def Let_def)
qed

lemma rec_split_row_promote_first_frame:
  assumes "rec_split_row_promote_first e r = Inr r1"
  shows "r_bnd_next r1 = r_bnd_next r \<and> length (r_bnd r1) = length (r_bnd r) \<and>
         r_cur r1 = r_cur r \<and> r_last r1 = r_last r \<and>
         r_key_sfx_compress r1 = r_key_sfx_compress r"
  using assms
  by (auto simp: rec_split_row_promote_first_def Let_def split: if_splits sum.splits)

text \<open>What \<^verbatim>\<open>__rec_split_row_promote\<close> records on a row-store leaf page.\<close>

lemma rec_split_row_promote_leaf:
  assumes run: "rec_split_row_promote e s WT_PAGE_ROW_LEAF = Inr s'"
    and slot: "r_bnd_next (reconcile s) < length (r_bnd (reconcile s))"
  shows "b_key (r_bnd (reconcile s') ! r_bnd_next (reconcile s)) =
           take (if r_key_sfx_compress (reconcile s)
                 then Suc (first_differing_index (it_data (r_last (reconcile s)))
                             (it_data (r_cur (reconcile s))))
                 else length (it_data (r_cur (reconcile s))))
             (it_data (r_cur (reconcile s))) \<and>
         r_bnd_next (reconcile s') = r_bnd_next (reconcile s) \<and>
         length (r_bnd (reconcile s')) = length (r_bnd (reconcile s))"
proof -
  let ?r = "reconcile s"
  let ?cur = "it_data (r_cur ?r)" and ?last = "it_data (r_last ?r)"
  let ?sz = "if r_key_sfx_compress ?r then Suc (first_differing_index ?last ?cur) else length ?cur"
  from run obtain r1 where first: "rec_split_row_promote_first e ?r = Inr r1"
    by (auto simp: rec_split_row_promote_def split: sum.splits)
  note r1 = rec_split_row_promote_first_frame [OF first]
  have sz: "rec_split_row_promote_size r1 WT_PAGE_ROW_LEAF = ?sz"
    using r1 by (simp add: rec_split_row_promote_size_leaf)
  from run first sz r1
  have s': "s' = s\<lparr>reconcile := r1\<lparr>r_bnd := (r_bnd r1)[r_bnd_next r1 :=
                 (r_bnd r1 ! r_bnd_next r1)\<lparr>b_key := take ?sz ?cur\<rparr>]\<rparr>\<rparr>"
    by (simp add: rec_split_row_promote_def Let_def split: if_splits)
  from s' r1 slot show ?thesis by simp
qed

text \<open>The prefix the suffix-compression loop takes is the shortest one that sorts after
  the last key.\<close>

lemma suffix_shortest:
  fixes lst cur :: bytes
  assumes "lst < cur"
  shows "Suc (first_differing_index lst cur) \<le> length cur \<and>
         lst < take (Suc (first_differing_index lst cur)) cur \<and>
         (\<forall>m < Suc (first_differing_index lst cur). \<not> lst < take m cur) \<and>
         (take (length lst) cur = lst \<longrightarrow> Suc (first_differing_index lst cur) = length lst + 1)"
  using less_first_differing [OF assms]
  by (auto simp: not_less_short_prefix first_differing_index_prefix)

text \<open>\<^verbatim>\<open>__rec_split\<close> at a boundary of a row-store leaf page, in the two states that save
  a boundary: the key recorded for the new slot is the one \<^verbatim>\<open>__rec_split_row_promote\<close>
  takes from \<^verbatim>\<open>r->cur\<close> and \<^verbatim>\<open>r->last\<close>.\<close>

lemma rec_split_boundary_leaf:
  assumes run: "rec_split_boundary e s = Inr s'"
    and leaf: "d_type (dsk_hdr (r_dsk (reconcile s))) = WT_PAGE_ROW_LEAF"
    and slots: "r_bnd_next (reconcile s) \<le> length (r_bnd (reconcile s))"
  shows "r_bnd_next (reconcile s') = Suc (r_bnd_next (reconcile s)) \<and>
         b_key (r_bnd (reconcile s') ! Suc (r_bnd_next (reconcile s))) =
           take (if r_key_sfx_compress (reconcile s)
                 then Suc (first_differing_index (it_data (r_last (reconcile s)))
                             (it_data (r_cur (reconcile s))))
                 else length (it_data (r_cur (reconcile s))))
             (it_data (r_cur (reconcile s)))"
proof -
  let ?g = "rec_split_bnd_grow (reconcile s)"
  let ?i = "r_bnd_next (reconcile s)"
  note g = rec_split_bnd_grow_frame [OF slots]
  from g have gi: "r_bnd_next ?g = ?i" and glen: "Suc ?i < length (r_bnd ?g)"
    and geq: "?g = (reconcile s)\<lparr>r_bnd := r_bnd ?g\<rparr>"
    by simp_all
  define b1 where "b1 = (r_bnd ?g)[?i := (r_bnd ?g ! ?i)
      \<lparr>b_entries := u32 (int (r_entries (reconcile s)) - int (r_total_entries (reconcile s)))\<rparr>]"
  define b2 where "b2 = b1[Suc ?i := (b1 ! Suc ?i)\<lparr>b_recno := r_recno (reconcile s),
                                                  b_start := r_first_free (reconcile s)\<rparr>]"
  define ra where "ra = (reconcile s)\<lparr>r_bnd := b2, r_bnd_next := Suc ?i,
                                       r_total_entries := r_entries (reconcile s)\<rparr>"
  have ra: "(let r = ?g;
                 i = r_bnd_next r;
                 r = r\<lparr>r_bnd_next := i + 1\<rparr>;
                 r = r\<lparr>r_bnd := (r_bnd r)[i := (r_bnd r ! i)\<lparr>b_entries :=
                          u32 (int (r_entries r) - int (r_total_entries r))\<rparr>],
                       r_total_entries := r_entries r\<rparr>;
                 r = r\<lparr>r_bnd := (r_bnd r)[i + 1 := (r_bnd r ! (i + 1))\<lparr>b_recno := r_recno r,
                                                                b_start := r_first_free r\<rparr>]\<rparr>
             in r) = ra"
    by (subst geq) (simp add: Let_def gi ra_def b1_def b2_def)
  have fields: "r_cur ra = r_cur (reconcile s)" "r_last ra = r_last (reconcile s)"
    "r_key_sfx_compress ra = r_key_sfx_compress (reconcile s)"
    "r_bnd_next ra = Suc ?i" "length (r_bnd ra) = length (r_bnd ?g)"
    "d_type (dsk_hdr (r_dsk ra)) = WT_PAGE_ROW_LEAF"
    using leaf by (simp_all add: ra_def b1_def b2_def)
  from run obtain sp where
    promote: "rec_split_row_promote e (s\<lparr>reconcile := ra\<rparr>) WT_PAGE_ROW_LEAF = Inr sp"
    and s': "r_bnd (reconcile s') = (r_bnd (reconcile sp))
                [Suc ?i := (r_bnd (reconcile sp) ! Suc ?i)\<lparr>b_entries := 0\<rparr>]"
      "r_bnd_next (reconcile s') = r_bnd_next (reconcile sp)"
    unfolding rec_split_boundary_def
    using ra fields(6) gi
    by (auto simp: Let_def is_row_type_def split: sum.splits if_splits)
  from fields glen have slot: "r_bnd_next (reconcile (s\<lparr>reconcile := ra\<rparr>))
       < length (r_bnd (reconcile (s\<lparr>reconcile := ra\<rparr>)))"
    by simp
  from rec_split_row_promote_leaf [OF promote slot] fields glen s'
  show ?thesis by simp
qed

lemma rec_split_tracking_off_leaf:
  assumes run: "rec_split_tracking_off e s = Inr s'"
    and leaf: "d_type (dsk_hdr (r_dsk (reconcile s))) = WT_PAGE_ROW_LEAF"
    and slots: "r_bnd_next (reconcile s) \<le> length (r_bnd (reconcile s))"
  shows "r_bnd_next (reconcile s') = Suc (r_bnd_next (reconcile s)) \<and>
         b_key (r_bnd (reconcile s') ! Suc (r_bnd_next (reconcile s))) =
           take (if r_key_sfx_compress (reconcile s)
                 then Suc (first_differing_index (it_data (r_last (reconcile s)))
                             (it_data (r_cur (reconcile s))))
                 else length (it_data (r_cur (reconcile s))))
             (it_data (r_cur (reconcile s)))"
proof -
  let ?g = "rec_split_bnd_grow (reconcile s)"
  let ?i = "r_bnd_next (reconcile s)"
  note g = rec_split_bnd_grow_frame [OF slots]
  from g have gi: "r_bnd_next ?g = ?i" and glen: "Suc ?i < length (r_bnd ?g)"
    and geq: "?g = (reconcile s)\<lparr>r_bnd := r_bnd ?g\<rparr>"
    by simp_all
  define d where "d = (r_dsk (reconcile s))
      \<lparr>dsk_hdr := (dsk_hdr (r_dsk (reconcile s)))\<lparr>d_recno := b_recno (r_bnd ?g ! ?i),
                                                   d_entries := r_entries (reconcile s)\<rparr>,
        dsk_size := WT_PAGE_DISK_SIZE e + r_first_free (reconcile s)\<rparr>"
  define ra where "ra = (reconcile s)\<lparr>r_bnd := r_bnd ?g, r_bnd_next := Suc ?i, r_dsk := d\<rparr>"
  have ra: "(let r = ?g;
                 i = r_bnd_next r;
                 r = r\<lparr>r_bnd_next := i + 1\<rparr>;
                 d = r_dsk r;
                 d = d\<lparr>dsk_hdr := (dsk_hdr d)\<lparr>d_recno := b_recno (r_bnd r ! i),
                                               d_entries := r_entries r\<rparr>,
                       dsk_size := WT_PAGE_DISK_SIZE e + r_first_free r\<rparr>
             in (r\<lparr>r_dsk := d\<rparr>, d)) = (ra, d)"
    by (subst geq) (simp add: Let_def gi ra_def d_def)
  from run obtain s1 d1 where
    w: "rec_split_write e (s\<lparr>reconcile := ra\<rparr>) ?i d = Inr (s1, d1)"
    unfolding rec_split_tracking_off_def using ra gi
    by (auto simp: Let_def split: sum.splits)
  from w obtain off where
    s1: "s1 = s\<lparr>reconcile := ra\<lparr>r_bnd := (r_bnd ra)[?i := (r_bnd ra ! ?i)\<lparr>b_off := off\<rparr>]\<rparr>,
             blk := (blk s)\<lparr>blk_writes := blk_writes (blk s) @ [(split_write_image e d, off)]\<rparr>\<rparr>"
    and ty1: "d_type (dsk_hdr d1) = d_type (dsk_hdr d)"
    by (rule rec_split_write_result) simp
  define rb where "rb = (reconcile s1)\<lparr>r_dsk := d1\<rparr>"
  define rc where "rc = rb\<lparr>r_bnd := (r_bnd rb)[Suc ?i := (r_bnd rb ! Suc ?i)
                                     \<lparr>b_recno := r_recno rb\<rparr>]\<rparr>"
  have fields: "r_cur rc = r_cur (reconcile s)" "r_last rc = r_last (reconcile s)"
    "r_key_sfx_compress rc = r_key_sfx_compress (reconcile s)"
    "r_bnd_next rc = Suc ?i" "length (r_bnd rc) = length (r_bnd ?g)"
    "d_type (dsk_hdr (r_dsk rc)) = WT_PAGE_ROW_LEAF" "r_bnd_next (reconcile s1) = Suc ?i"
    using leaf ty1 by (simp_all add: rc_def rb_def s1 ra_def d_def)
  from run w obtain sp where
    promote: "rec_split_row_promote e (s1\<lparr>reconcile := rc\<rparr>) WT_PAGE_ROW_LEAF = Inr sp"
    and s': "r_bnd (reconcile s') = (r_bnd (reconcile sp))
                [Suc ?i := (r_bnd (reconcile sp) ! Suc ?i)\<lparr>b_entries := 0\<rparr>]"
      "r_bnd_next (reconcile s') = r_bnd_next (reconcile sp)"
    unfolding rec_split_tracking_off_def
    using ra gi fields(6)
    by (auto simp: Let_def is_row_type_def rc_def rb_def split: sum.splits if_splits)
  from fields glen have slot: "r_bnd_next (reconcile (s1\<lparr>reconcile := rc\<rparr>))
       < length (r_bnd (reconcile (s1\<lparr>reconcile := rc\<rparr>)))"
    by simp
  from rec_split_row_promote_leaf [OF promote slot] fields glen s'
  show ?thesis by simp
qed

lemma rec_split_leaf:
  assumes run: "rec_split e s = Inr s'"
    and leaf: "d_type (dsk_hdr (r_dsk (reconcile s))) = WT_PAGE_ROW_LEAF"
    and saving: "r_bnd_state (reconcile s) \<noteq> SPLIT_MAX"
    and slots: "r_bnd_next (reconcile s) \<le> length (r_bnd (reconcile s))"
  shows "r_bnd_next (reconcile s') = Suc (r_bnd_next (reconcile s)) \<and>
         b_key (r_bnd (reconcile s') ! Suc (r_bnd_next (reconcile s))) =
           take (if r_key_sfx_compress (reconcile s)
                 then Suc (first_differing_index (it_data (r_last (reconcile s)))
                             (it_data (r_cur (reconcile s))))
                 else length (it_data (r_cur (reconcile s))))
             (it_data (r_cur (reconcile s)))"
proof (cases "r_bnd_state (reconcile s)")
  case SPLIT_BOUNDARY
  with run have "rec_split_boundary e s = Inr s'" by (simp add: rec_split_def)
  from rec_split_boundary_leaf [OF this leaf slots] show ?thesis .
next
  case SPLIT_MAX
  with saving show ?thesis by simp
next
  case SPLIT_TRACKING_OFF
  with run have "rec_split_tracking_off e s = Inr s'" by (simp add: rec_split_def)
  from rec_split_tracking_off_leaf [OF this leaf slots] show ?thesis .
qed

lemma key_frame_conf:
  assumes "key_frame r r'"
  shows "r_key_sfx_compress_conf r' = r_key_sfx_compress_conf r"
    "r_bnd_state r' = r_bnd_state r"
proof -
  from assms have e: "r'\<lparr>r_cur := r_cur r, r_k := r_k r\<rparr> = r" by (simp only: key_frame_def)
  from arg_cong [OF e, of r_key_sfx_compress_conf]
  show "r_key_sfx_compress_conf r' = r_key_sfx_compress_conf r" by simp
  from arg_cong [OF e, of r_bnd_state] show "r_bnd_state r' = r_bnd_state r" by simp
qed

text \<open>Claim C4.  Let a key \<open>K1\<close> (the \<open>sz1\<close> bytes at \<open>k1\<close>) be built and the key state be
  updated for it, \<open>ovfl1\<close> telling whether it was written as an overflow key; let then the
  key \<open>K2\<close> be built and \<^verbatim>\<open>__rec_split\<close> be called for a row-store leaf page in a state
  that saves a boundary (\<^verbatim>\<open>SPLIT_BOUNDARY\<close> or \<^verbatim>\<open>SPLIT_TRACKING_OFF\<close>), and succeed.  Then
  the boundary after the \<^verbatim>\<open>bnd_next\<close> saved so far gets a promoted key.  The
  suffix-compression flag is on exactly if \<open>K1\<close> was not an overflow key and suffix
  compression is configured.  With the flag on and \<open>K1\<close> sorting before \<open>K2\<close>, the promoted
  key is the shortest prefix of \<open>K2\<close> that sorts after \<open>K1\<close> (the first \<open>len(K1) + 1\<close>
  bytes of \<open>K2\<close> when \<open>K1\<close> is a prefix of \<open>K2\<close>); with the flag off it is the whole of
  \<open>K2\<close>.\<close>

theorem rec_split_row_promote_suffix:
  assumes prev: "rec_cell_build_key e s0 (Some k1) sz1 int1 = Inr (ovfl1, s1)"
    and cur: "rec_cell_build_key e (s1\<lparr>reconcile := rec_key_state_update (reconcile s1) ovfl1\<rparr>)
                (Some k2) sz2 int2 = Inr (ovfl2, s2)"
    and leaf: "d_type (dsk_hdr (r_dsk (reconcile s2))) = WT_PAGE_ROW_LEAF"
    and saving: "r_bnd_state (reconcile s2) \<noteq> SPLIT_MAX"
    and slots: "r_bnd_next (reconcile s2) \<le> length (r_bnd (reconcile s2))"
    and run: "rec_split e s2 = Inr s3"
  shows "r_bnd_next (reconcile s3) = Suc (r_bnd_next (reconcile s2)) \<and>
         r_key_sfx_compress (reconcile s2) =
           (\<not> ovfl1 \<and> r_key_sfx_compress_conf (reconcile s0)) \<and>
         (r_key_sfx_compress (reconcile s2) \<longrightarrow> take sz1 k1 < take sz2 k2 \<longrightarrow>
            (\<exists>n \<le> sz2.
               b_key (r_bnd (reconcile s3) ! Suc (r_bnd_next (reconcile s2))) =
                 take n (take sz2 k2) \<and>
               take sz1 k1 < take n (take sz2 k2) \<and>
               (\<forall>m < n. \<not> take sz1 k1 < take m (take sz2 k2)) \<and>
               (take sz1 (take sz2 k2) = take sz1 k1 \<longrightarrow> n = sz1 + 1))) \<and>
         (\<not> r_key_sfx_compress (reconcile s2) \<longrightarrow>
            b_key (r_bnd (reconcile s3) ! Suc (r_bnd_next (reconcile s2))) = take sz2 k2)"
proof -
  let ?K1 = "take sz1 k1" and ?K2 = "take sz2 k2"
  let ?ru = "rec_key_state_update (reconcile s1) ovfl1"
  let ?key = "b_key (r_bnd (reconcile s3) ! Suc (r_bnd_next (reconcile s2)))"
  note sz1 = rec_cell_build_key_size [OF prev]
  note sz2 = rec_cell_build_key_size [OF cur]
  from sz1 have len1: "length ?K1 = sz1" by simp
  from sz2 have len2: "length ?K2 = sz2" by simp
  from rec_cell_build_key_data [OF prev]
  have f1: "key_frame (reconcile s0) (reconcile s1)"
    and c1: "it_data (r_cur (reconcile s1)) = ?K1"
    by simp_all
  from rec_cell_build_key_data [OF cur]
  have f2: "key_frame ?ru (reconcile s2)" and c2: "it_data (r_cur (reconcile s2)) = ?K2"
    by simp_all
  have flag: "r_key_sfx_compress (reconcile s2) =
           (\<not> ovfl1 \<and> r_key_sfx_compress_conf (reconcile s0))"
    using key_frame_fields(3) [OF f2] key_frame_conf(1) [OF f1]
    by (simp add: rec_key_state_update_def)
  have lst: "it_data (r_last (reconcile s2)) = ?K1" if "\<not> ovfl1"
    using key_frame_fields(1) [OF f2] c1 that by (simp add: rec_key_state_update_def)
  note split = rec_split_leaf [OF run leaf saving slots]
  from split have nxt: "r_bnd_next (reconcile s3) = Suc (r_bnd_next (reconcile s2))" by simp
  have off: "?key = ?K2" if "\<not> r_key_sfx_compress (reconcile s2)"
    using split that c2 sz2 by (simp add: min_absorb2)
  have on: "\<exists>n \<le> sz2. ?key = take n ?K2 \<and> ?K1 < take n ?K2 \<and>
               (\<forall>m < n. \<not> ?K1 < take m ?K2) \<and> (take sz1 ?K2 = ?K1 \<longrightarrow> n = sz1 + 1)"
    if sfx: "r_key_sfx_compress (reconcile s2)" and order: "?K1 < ?K2"
  proof -
    from sfx flag have "\<not> ovfl1" by simp
    note l = lst [OF this]
    let ?n = "Suc (first_differing_index ?K1 ?K2)"
    from split sfx l c2 have key: "?key = take ?n ?K2" by simp
    note suffix_shortest [OF order, unfolded len1 len2]
    then have "?n \<le> sz2 \<and> ?K1 < take ?n ?K2 \<and> (\<forall>m < ?n. \<not> ?K1 < take m ?K2) \<and>
          (take sz1 ?K2 = ?K1 \<longrightarrow> ?n = sz1 + 1)" .
    with key show ?thesis by blast
  qed
  from nxt flag on off show ?thesis by blast
qed

text \<open>Claim C4 at a concrete input: the keys \<open>abc\<close> and \<open>abd9\<close> are built, neither as an
  overflow key; the key promoted at the boundary is \<open>abd\<close>.\<close>

theorem rec_split_row_promote_suffix_witness:
  "\<exists>s1 s2 s3.
     rec_cell_build_key ex_env ex_promote_session (Some [97, 98, 99]) 3 False = Inr (False, s1) \<and>
     rec_cell_build_key ex_env (s1\<lparr>reconcile := rec_key_state_update (reconcile s1) False\<rparr>)
        (Some [97, 98, 100, 57]) 4 False = Inr (False, s2) \<and>
     rec_split ex_env s2 = Inr s3 \<and>
     r_bnd_next (reconcile s3) = 2 \<and>
     b_key (r_bnd (reconcile s3) ! 2) = [97, 98, 100]"
proof -
  let ?r1 = "(reconcile ex_promote_session)
       \<lparr>r_cur := \<lparr>it_ptr = 1000, it_data = [97, 98, 99]\<rparr>,
        r_k := \<lparr>kv_buf = KV_bytes [97, 98, 99], kv_cell = [1, 0, 3], kv_len = 6,
                kv_off = \<lparr>off_addr = 0, off_size = 0\<rparr>\<rparr>\<rparr>"
  let ?s1 = "ex_promote_session\<lparr>reconcile := ?r1\<rparr>"
  have b1: "rec_cell_build_key ex_env ex_promote_session (Some [97, 98, 99]) 3 False
              = Inr (False, ?s1)"
    by (subst rec_cell_build_key.simps)
       (simp add: ex_promote_session_def ex_defs Let_def kv_data_def pfx_loop.simps
          rec_key_start_def rec_key_prefix_def rec_key_huffman_def rec_key_cell_def)
  let ?ru = "rec_key_state_update (reconcile ?s1) False"
  let ?r2 = "?ru\<lparr>r_cur := \<lparr>it_ptr = 2000, it_data = [97, 98, 100, 57]\<rparr>,
        r_k := \<lparr>kv_buf = KV_bytes [100, 57], kv_cell = [1, 2, 2], kv_len = 5,
                kv_off = \<lparr>off_addr = 0, off_size = 0\<rparr>\<rparr>\<rparr>"
  let ?s2 = "ex_promote_session\<lparr>reconcile := ?r2\<rparr>"
  have b2: "rec_cell_build_key ex_env (?s1\<lparr>reconcile := ?ru\<rparr>) (Some [97, 98, 100, 57]) 4 False
              = Inr (False, ?s2)"
    by (subst rec_cell_build_key.simps)
       (simp add: ex_promote_session_def ex_defs Let_def kv_data_def pfx_loop.simps
          rec_key_start_def rec_key_prefix_def rec_key_huffman_def rec_key_cell_def
          rec_key_state_update_def)
  have "\<exists>s3. rec_split ex_env ?s2 = Inr s3 \<and> b_key (r_bnd (reconcile s3) ! 2) = [97, 98, 100]"
    by (simp add: rec_split_def rec_split_boundary_def rec_split_bnd_grow_def
        rec_split_row_promote_def rec_split_row_promote_first_def rec_split_row_promote_size_def
        rec_key_state_update_def is_row_type_def u32_def
        ex_promote_session_def ex_defs Let_def bnd_clear_def numeral_2_eq_2 numeral_3_eq_3)
  then obtain s3 where run: "rec_split ex_env ?s2 = Inr s3"
    and key: "b_key (r_bnd (reconcile s3) ! 2) = [97, 98, 100]"
    by blast
  have leaf: "d_type (dsk_hdr (r_dsk (reconcile ?s2))) = WT_PAGE_ROW_LEAF"
    and saving: "r_bnd_state (reconcile ?s2) \<noteq> SPLIT_MAX"
    and slots: "r_bnd_next (reconcile ?s2) \<le> length (r_bnd (reconcile ?s2))"
    and nxt: "r_bnd_next (reconcile ?s2) = 1"
    by (simp_all add: rec_key_state_update_def ex_promote_session_def ex_defs)
  from rec_split_row_promote_suffix [OF b1 b2 leaf saving slots run] nxt
  have "r_bnd_next (reconcile s3) = 2" by simp
  with b1 b2 run key show ?thesis by blast
qed

section \<open>Reuse of overflow blocks (claim C8)\<close>






















section \<open>The fix-up at the maximum page size (claim C1)\<close>

lemma off_only_refl: "off_only bs bs"
  by (simp add: off_only_def)

lemma off_only_trans: "off_only bs bs1 \<Longrightarrow> off_only bs1 bs2 \<Longrightarrow> off_only bs bs2"
  by (simp add: off_only_def)

lemma off_only_update: "off_only bs (bs[i := (bs ! i)\<lparr>b_off := off\<rparr>])"
proof (cases "i < length bs")
  case True
  then show ?thesis by (simp add: off_only_def map_update list_update_same_conv)
next
  case False
  then show ?thesis by (simp add: off_only_def list_update_beyond)
qed

lemma off_only_length: "off_only bs bs' \<Longrightarrow> length bs' = length bs"
  by (auto simp: off_only_def dest: map_eq_imp_length_eq)

lemma off_only_nth:
  assumes "off_only bs bs'" and "j < length bs"
  shows "b_start (bs' ! j) = b_start (bs ! j) \<and> b_recno (bs' ! j) = b_recno (bs ! j) \<and>
         b_entries (bs' ! j) = b_entries (bs ! j) \<and> b_key (bs' ! j) = b_key (bs ! j)"
proof -
  let ?z = "\<lambda>b. b\<lparr>b_off := \<lparr>off_addr = 0, off_size = 0\<rparr>\<rparr>"
  from assms have len: "j < length bs'" by (simp add: off_only_length)
  from assms(1) have "map ?z bs' ! j = map ?z bs ! j" by (simp add: off_only_def)
  with assms(2) len have eq: "?z (bs' ! j) = ?z (bs ! j)" by simp
  from arg_cong [OF eq, of b_start] arg_cong [OF eq, of b_recno]
    arg_cong [OF eq, of b_entries] arg_cong [OF eq, of b_key]
  show ?thesis by simp
qed

lemma mem_write_head:
  "length bs = n \<Longrightarrow> take n (mem_write m 0 bs) = bs"
  by (simp add: mem_write_def)

lemma mem_write_head_eq:
  "mem_write m 0 bs = bs @ drop (length bs) m"
  by (simp add: mem_write_def)

lemma chunk_length:
  "a \<le> b \<Longrightarrow> b \<le> length m \<Longrightarrow> length (take (b - a) (drop a m)) = b - a"
  by simp

lemma chunk_image_cong:
  assumes "off_only (r_bnd r) (r_bnd r')" and "r_dsk r' = r_dsk r" and "j + 1 < length (r_bnd r)"
  shows "chunk_image e r' j = chunk_image e r j"
proof -
  from assms(3) have "j < length (r_bnd r)" by simp
  from off_only_nth [OF assms(1) this] off_only_nth [OF assms(1) assms(3)] assms(2)
  show ?thesis by (simp add: chunk_image_def)
qed

lemma trailing_cell_image:
  "length chunk = len \<Longrightarrow> length cell = 1 \<Longrightarrow>
     take (Suc len) (mem_write (mem_write m 0 chunk) len cell) = chunk @ cell"
  by (simp add: mem_write_def)

text \<open>The image written for a chunk copied to the scratch buffer.\<close>

lemma split_write_image_chunk:
  assumes "d_type (dsk_hdr tmp) = d_type (dsk_hdr (r_dsk r))"
    and "b_start (r_bnd r ! i) \<le> b_start (r_bnd r ! (i + 1))"
    and "b_start (r_bnd r ! (i + 1)) \<le> length (dsk_mem (r_dsk r))"
    and "d_type (dsk_hdr (r_dsk r)) = WT_PAGE_ROW_LEAF \<longrightarrow>
           length (wt_cell_pack_type e WT_CELL_KEY 0) = 1"
  shows "split_write_image e
           (tmp\<lparr>dsk_mem := mem_write (dsk_mem tmp) 0
                    (take (b_start (r_bnd r ! (i + 1)) - b_start (r_bnd r ! i))
                       (drop (b_start (r_bnd r ! i)) (dsk_mem (r_dsk r)))),
                 dsk_hdr := (dsk_hdr tmp)\<lparr>d_recno := b_recno (r_bnd r ! i),
                                           d_entries := b_entries (r_bnd r ! i)\<rparr>,
                 dsk_size := WT_PAGE_DISK_SIZE e
                    + (b_start (r_bnd r ! (i + 1)) - b_start (r_bnd r ! i))\<rparr>)
         = chunk_image e r i"
proof -
  let ?len = "b_start (r_bnd r ! (i + 1)) - b_start (r_bnd r ! i)"
  let ?chunk = "take ?len (drop (b_start (r_bnd r ! i)) (dsk_mem (r_dsk r)))"
  from assms(2,3) have len: "length ?chunk = ?len" by simp
  have hdr: "(dsk_hdr tmp)\<lparr>d_recno := b_recno (r_bnd r ! i), d_entries := b_entries (r_bnd r ! i)\<rparr>
             = \<lparr>d_type = d_type (dsk_hdr (r_dsk r)), d_recno = b_recno (r_bnd r ! i),
                d_entries = b_entries (r_bnd r ! i)\<rparr>"
    using assms(1) by simp
  have plain: "take ?len (mem_write (dsk_mem tmp) 0 ?chunk) = ?chunk"
    using len by (rule mem_write_head)
  show ?thesis
  proof (cases "d_type (dsk_hdr (r_dsk r)) = WT_PAGE_ROW_LEAF")
    case True
    with assms(4) have "length (wt_cell_pack_type e WT_CELL_KEY 0) = 1" by simp
    with len have "take (Suc ?len) (mem_write (mem_write (dsk_mem tmp) 0 ?chunk) ?len
                 (wt_cell_pack_type e WT_CELL_KEY 0)) = ?chunk @ wt_cell_pack_type e WT_CELL_KEY 0"
      by (rule trailing_cell_image)
    with True show ?thesis
      unfolding split_write_image_def chunk_image_def
      using hdr assms(1) by (simp add: Suc_diff_le)
  next
    case False
    then show ?thesis
      unfolding split_write_image_def chunk_image_def
      using hdr plain assms(1) by simp
  qed
qed

lemma rec_split_fixup_loop_result:
  assumes "rec_split_fixup_loop e is s tmp = Inr (s', tmp')"
    and "distinct is"
    and "\<forall>i \<in> set is. i + 1 < length (r_bnd (reconcile s))"
    and "\<forall>i \<in> set is. b_start (r_bnd (reconcile s) ! i) \<le> b_start (r_bnd (reconcile s) ! (i + 1)) \<and>
            b_start (r_bnd (reconcile s) ! (i + 1)) \<le> length (dsk_mem (r_dsk (reconcile s)))"
    and "d_type (dsk_hdr (r_dsk (reconcile s))) = WT_PAGE_ROW_LEAF \<longrightarrow>
           length (wt_cell_pack_type e WT_CELL_KEY 0) = 1"
    and "d_type (dsk_hdr tmp) = d_type (dsk_hdr (r_dsk (reconcile s)))"
  shows "off_only (r_bnd (reconcile s)) (r_bnd (reconcile s')) \<and>
         (\<forall>j. j \<notin> set is \<longrightarrow> r_bnd (reconcile s') ! j = r_bnd (reconcile s) ! j) \<and>
         reconcile s' = (reconcile s)\<lparr>r_bnd := r_bnd (reconcile s')\<rparr> \<and>
         s' = s\<lparr>reconcile := reconcile s', blk := blk s'\<rparr> \<and>
         blk s' = (blk s)\<lparr>blk_writes := blk_writes (blk s) @
                     map (\<lambda>i. (chunk_image e (reconcile s) i, b_off (r_bnd (reconcile s') ! i))) is\<rparr>"
  using assms
proof (induction "is" arbitrary: s tmp)
  case Nil
  then show ?case by (simp add: off_only_refl)
next
  case (Cons i rest)
  let ?r = "reconcile s"
  let ?len = "b_start (r_bnd ?r ! (i + 1)) - b_start (r_bnd ?r ! i)"
  let ?tmp = "tmp\<lparr>dsk_mem := mem_write (dsk_mem tmp) 0
                    (take ?len (drop (b_start (r_bnd ?r ! i)) (dsk_mem (r_dsk ?r)))),
                 dsk_hdr := (dsk_hdr tmp)\<lparr>d_recno := b_recno (r_bnd ?r ! i),
                                           d_entries := b_entries (r_bnd ?r ! i)\<rparr>,
                 dsk_size := WT_PAGE_DISK_SIZE e + ?len\<rparr>"
  from Cons.prems(1) obtain s1 tmp1 where
    w: "rec_split_write e s i ?tmp = Inr (s1, tmp1)" and
    rest: "rec_split_fixup_loop e rest s1 tmp1 = Inr (s', tmp')"
    by (auto simp: Let_def split: sum.splits)
  from Cons.prems(3,4) have i: "i + 1 < length (r_bnd ?r)"
    "b_start (r_bnd ?r ! i) \<le> b_start (r_bnd ?r ! (i + 1))"
    "b_start (r_bnd ?r ! (i + 1)) \<le> length (dsk_mem (r_dsk ?r))"
    by simp_all
  have im: "split_write_image e ?tmp = chunk_image e ?r i"
    using Cons.prems(6) i(2,3) Cons.prems(5) by (rule split_write_image_chunk)
  from w obtain off where
    s1': "s1 = s\<lparr>reconcile := ?r\<lparr>r_bnd := (r_bnd ?r)[i := (r_bnd ?r ! i)\<lparr>b_off := off\<rparr>]\<rparr>,
                blk := (blk s)\<lparr>blk_writes := blk_writes (blk s) @ [(split_write_image e ?tmp, off)]\<rparr>\<rparr>"
    and ty1': "d_type (dsk_hdr tmp1) = d_type (dsk_hdr ?tmp)"
    by (rule rec_split_write_result)
  note s1 = s1' [unfolded im]
  from ty1' have ty1: "d_type (dsk_hdr tmp1) = d_type (dsk_hdr tmp)" by simp
  let ?b1 = "(r_bnd ?r)[i := (r_bnd ?r ! i)\<lparr>b_off := off\<rparr>]"
  from s1 have r1: "reconcile s1 = ?r\<lparr>r_bnd := ?b1\<rparr>" by simp
  from r1 have b1: "r_bnd (reconcile s1) = ?b1" and d1: "r_dsk (reconcile s1) = r_dsk ?r"
    by simp_all
  have oo: "off_only (r_bnd ?r) ?b1" by (rule off_only_update)
  have starts1: "b_start (?b1 ! j) = b_start (r_bnd ?r ! j)" if "j < length (r_bnd ?r)" for j
    using off_only_nth [OF oo that] by simp
  have p3: "\<forall>j \<in> set rest. j + 1 < length (r_bnd (reconcile s1))"
    using Cons.prems(3) b1 by simp
  have p4: "\<forall>j \<in> set rest.
            b_start (r_bnd (reconcile s1) ! j) \<le> b_start (r_bnd (reconcile s1) ! (j + 1)) \<and>
            b_start (r_bnd (reconcile s1) ! (j + 1)) \<le> length (dsk_mem (r_dsk (reconcile s1)))"
  proof
    fix j assume j: "j \<in> set rest"
    with Cons.prems(3) have lt: "j + 1 < length (r_bnd ?r)" by simp
    then have lt': "j < length (r_bnd ?r)" by simp
    from j Cons.prems(4) starts1 [OF lt] starts1 [OF lt'] b1 d1
    show "b_start (r_bnd (reconcile s1) ! j) \<le> b_start (r_bnd (reconcile s1) ! (j + 1)) \<and>
            b_start (r_bnd (reconcile s1) ! (j + 1)) \<le> length (dsk_mem (r_dsk (reconcile s1)))"
      by simp
  qed
  from Cons.prems(2) have dist: "distinct rest" and notin: "i \<notin> set rest" by simp_all
  from Cons.prems(6) ty1 d1 have ty: "d_type (dsk_hdr tmp1) = d_type (dsk_hdr (r_dsk (reconcile s1)))"
    by simp
  from Cons.prems(5) d1
  have p5: "d_type (dsk_hdr (r_dsk (reconcile s1))) = WT_PAGE_ROW_LEAF \<longrightarrow>
           length (wt_cell_pack_type e WT_CELL_KEY 0) = 1"
    by simp
  note IH = Cons.IH [OF rest dist p3 p4 p5 ty]
  from IH have o1: "off_only (r_bnd (reconcile s1)) (r_bnd (reconcile s'))"
    and keep: "\<forall>j. j \<notin> set rest \<longrightarrow> r_bnd (reconcile s') ! j = r_bnd (reconcile s1) ! j"
    and fr: "reconcile s' = (reconcile s1)\<lparr>r_bnd := r_bnd (reconcile s')\<rparr>"
    and fs: "s' = s1\<lparr>reconcile := reconcile s', blk := blk s'\<rparr>"
    and wr: "blk s' = (blk s1)\<lparr>blk_writes := blk_writes (blk s1) @
                     map (\<lambda>j. (chunk_image e (reconcile s1) j, b_off (r_bnd (reconcile s') ! j))) rest\<rparr>"
    by blast+
  have c1: "off_only (r_bnd ?r) (r_bnd (reconcile s'))"
    using oo o1 b1 by (simp add: off_only_trans)
  have c2: "\<forall>j. j \<notin> set (i # rest) \<longrightarrow> r_bnd (reconcile s') ! j = r_bnd ?r ! j"
    using keep b1 by simp
  have c3: "reconcile s' = ?r\<lparr>r_bnd := r_bnd (reconcile s')\<rparr>"
    by (subst fr) (simp add: r1)
  have c4: "s' = s\<lparr>reconcile := reconcile s', blk := blk s'\<rparr>"
    by (subst fs) (simp add: s1)
  from i(1) have "i < length (r_bnd ?r)" by simp
  with keep notin b1 have offi: "b_off (r_bnd (reconcile s') ! i) = off" by simp
  have imgs: "map (\<lambda>j. (chunk_image e (reconcile s1) j, b_off (r_bnd (reconcile s') ! j))) rest
            = map (\<lambda>j. (chunk_image e ?r j, b_off (r_bnd (reconcile s') ! j))) rest"
  proof (rule map_cong [OF refl])
    fix j assume "j \<in> set rest"
    with Cons.prems(3) have "j + 1 < length (r_bnd ?r)" by simp
    from chunk_image_cong [OF _ d1 this, of e] oo b1
    show "(chunk_image e (reconcile s1) j, b_off (r_bnd (reconcile s') ! j))
          = (chunk_image e ?r j, b_off (r_bnd (reconcile s') ! j))"
      by simp
  qed
  have c5: "blk s' = (blk s)\<lparr>blk_writes := blk_writes (blk s) @
                     map (\<lambda>i. (chunk_image e ?r i, b_off (r_bnd (reconcile s') ! i))) (i # rest)\<rparr>"
    by (subst wr, subst imgs) (simp add: s1 offi)
  from c1 c2 c3 c4 c5 show ?case by blast
qed

lemma starts_chain:
  fixes f :: "nat \<Rightarrow> nat"
  assumes "\<forall>i < n. f i \<le> f (i + 1)" and "j \<le> n"
  shows "f j \<le> f n"
  using assms
proof (induction n)
  case 0
  then show ?case by simp
next
  case (Suc n)
  show ?case
  proof (cases "j = Suc n")
    case True
    then show ?thesis by simp
  next
    case False
    with Suc.prems have "j \<le> n" by simp
    with Suc.IH Suc.prems(1) have "f j \<le> f n" by simp
    also from Suc.prems(1) have "f n \<le> f (Suc n)" by simp
    finally show ?thesis .
  qed
qed

text \<open>\<^verbatim>\<open>__rec_split_fixup\<close> after its loop.\<close>

lemma rec_split_fixup_result:
  assumes "rec_split_fixup e s = Inr s'"
  obtains s1 tmp1 where
    "rec_split_fixup_loop e [0 ..< r_bnd_next (reconcile s)] s
        \<lparr>dsk_hdr = dsk_hdr (r_dsk (reconcile s)),
          dsk_mem = replicate (r_split_size (reconcile s) - WT_PAGE_DISK_SIZE e) 0,
          dsk_size = 0\<rparr> = Inr (s1, tmp1)"
    "r_first_free (reconcile s1) - b_start (r_bnd (reconcile s1) ! r_bnd_next (reconcile s1))
       < u32 (int (r_split_size (reconcile s1)) - int (WT_PAGE_DISK_SIZE e))"
    "s' = s1\<lparr>reconcile := (reconcile s1)
            \<lparr>r_dsk := (r_dsk (reconcile s1))
                \<lparr>dsk_mem := mem_write (dsk_mem (r_dsk (reconcile s1))) 0
                   (take (r_first_free (reconcile s1)
                            - b_start (r_bnd (reconcile s1) ! r_bnd_next (reconcile s1)))
                      (drop (b_start (r_bnd (reconcile s1) ! r_bnd_next (reconcile s1)))
                         (dsk_mem (r_dsk (reconcile s1)))))\<rparr>,
              r_entries := u32 (int (r_entries (reconcile s1)) - int (r_total_entries (reconcile s1))),
              r_first_free := r_first_free (reconcile s1)
                 - b_start (r_bnd (reconcile s1) ! r_bnd_next (reconcile s1)),
              r_space_avail := u32 (int (r_split_size (reconcile s1)) - int (WT_PAGE_DISK_SIZE e)
                 - int (r_first_free (reconcile s1)
                      - b_start (r_bnd (reconcile s1) ! r_bnd_next (reconcile s1))))\<rparr>\<rparr>"
  using assms
  by (auto simp: rec_split_fixup_def Let_def split: sum.splits if_splits)

text \<open>Claim C1, as amended.  When \<^verbatim>\<open>__rec_split\<close> is called in state \<^verbatim>\<open>SPLIT_MAX\<close> and
  returns success, with the saved boundaries in the boundary array, their starts in
  nondecreasing order and the last one at most \<^verbatim>\<open>first_free\<close>, inside the working buffer
  (and the trailing key cell of a row-store leaf page being one byte):
  for every saved boundary \<open>i < bnd_next\<close>, in order, one block was written (the log of
  block writes pairs each image written with the address pair the block manager
  returned for it), whose header has the entry count and the starting record number of
  the boundary and whose body is the \<open>bnd[i+1].start - bnd[i].start\<close> bytes of the working
  buffer from \<open>bnd[i].start\<close> on, followed on a row-store leaf page by the trailing key
  cell; the address pair returned is in \<open>bnd[i].off\<close> and nothing else of the boundary
  array has changed.  The bytes from the last saved boundary's start up to
  \<^verbatim>\<open>first_free\<close> are at the start of the working buffer (past the header), the entry
  count is reduced by the entries written, \<^verbatim>\<open>first_free\<close> is the length of the residual,
  the space available is the split size less the header and the residual, and the state
  is \<^verbatim>\<open>SPLIT_TRACKING_OFF\<close>.\<close>

theorem rec_split_max_fixup:
  assumes state: "r_bnd_state (reconcile s) = SPLIT_MAX"
    and run: "rec_split e s = Inr s'"
    and slot: "r_bnd_next (reconcile s) < length (r_bnd (reconcile s))"
    and starts: "\<forall>i < r_bnd_next (reconcile s).
                   b_start (r_bnd (reconcile s) ! i) \<le> b_start (r_bnd (reconcile s) ! (i + 1))"
    and last: "b_start (r_bnd (reconcile s) ! r_bnd_next (reconcile s)) \<le> r_first_free (reconcile s)"
    and inside: "r_first_free (reconcile s) \<le> length (dsk_mem (r_dsk (reconcile s)))"
    and cell: "d_type (dsk_hdr (r_dsk (reconcile s))) = WT_PAGE_ROW_LEAF \<longrightarrow>
                 length (wt_cell_pack_type e WT_CELL_KEY 0) = 1"
  shows "blk_writes (blk s') = blk_writes (blk s) @
           map (\<lambda>i. (chunk_image e (reconcile s) i, b_off (r_bnd (reconcile s') ! i)))
             [0 ..< r_bnd_next (reconcile s)] \<and>
         off_only (r_bnd (reconcile s)) (r_bnd (reconcile s')) \<and>
         (\<forall>j \<ge> r_bnd_next (reconcile s). r_bnd (reconcile s') ! j = r_bnd (reconcile s) ! j) \<and>
         dsk_mem (r_dsk (reconcile s')) =
           take (r_first_free (reconcile s) - b_start (r_bnd (reconcile s) ! r_bnd_next (reconcile s)))
             (drop (b_start (r_bnd (reconcile s) ! r_bnd_next (reconcile s)))
                (dsk_mem (r_dsk (reconcile s))))
           @ drop (r_first_free (reconcile s) - b_start (r_bnd (reconcile s) ! r_bnd_next (reconcile s)))
               (dsk_mem (r_dsk (reconcile s))) \<and>
         r_entries (reconcile s') =
           u32 (int (r_entries (reconcile s)) - int (r_total_entries (reconcile s))) \<and>
         r_first_free (reconcile s') =
           r_first_free (reconcile s) - b_start (r_bnd (reconcile s) ! r_bnd_next (reconcile s)) \<and>
         r_space_avail (reconcile s') =
           u32 (int (r_split_size (reconcile s)) - int (WT_PAGE_DISK_SIZE e)
                - int (r_first_free (reconcile s)
                         - b_start (r_bnd (reconcile s) ! r_bnd_next (reconcile s)))) \<and>
         r_bnd_state (reconcile s') = SPLIT_TRACKING_OFF \<and>
         r_bnd_next (reconcile s') = r_bnd_next (reconcile s) \<and>
         blk_frees (blk s') = blk_frees (blk s) \<and> track s' = track s"
proof -
  let ?r = "reconcile s"
  let ?n = "r_bnd_next ?r"
  let ?start = "b_start (r_bnd ?r ! ?n)"
  let ?len = "r_first_free ?r - ?start"
  let ?mem = "dsk_mem (r_dsk ?r)"
  from run state obtain s2 where
    fixup: "rec_split_fixup e s = Inr s2" and
    s': "s' = s2\<lparr>reconcile := (reconcile s2)\<lparr>r_bnd_state := SPLIT_TRACKING_OFF\<rparr>\<rparr>"
    by (auto simp: rec_split_def rec_split_max_def split: sum.splits)
  from fixup obtain s1 tmp1 where
    loop: "rec_split_fixup_loop e [0 ..< ?n] s
        \<lparr>dsk_hdr = dsk_hdr (r_dsk ?r),
          dsk_mem = replicate (r_split_size ?r - WT_PAGE_DISK_SIZE e) 0,
          dsk_size = 0\<rparr> = Inr (s1, tmp1)"
    and s2: "s2 = s1\<lparr>reconcile := (reconcile s1)
            \<lparr>r_dsk := (r_dsk (reconcile s1))
                \<lparr>dsk_mem := mem_write (dsk_mem (r_dsk (reconcile s1))) 0
                   (take (r_first_free (reconcile s1)
                            - b_start (r_bnd (reconcile s1) ! r_bnd_next (reconcile s1)))
                      (drop (b_start (r_bnd (reconcile s1) ! r_bnd_next (reconcile s1)))
                         (dsk_mem (r_dsk (reconcile s1)))))\<rparr>,
              r_entries := u32 (int (r_entries (reconcile s1)) - int (r_total_entries (reconcile s1))),
              r_first_free := r_first_free (reconcile s1)
                 - b_start (r_bnd (reconcile s1) ! r_bnd_next (reconcile s1)),
              r_space_avail := u32 (int (r_split_size (reconcile s1)) - int (WT_PAGE_DISK_SIZE e)
                 - int (r_first_free (reconcile s1)
                      - b_start (r_bnd (reconcile s1) ! r_bnd_next (reconcile s1))))\<rparr>\<rparr>"
    by (rule rec_split_fixup_result)
  have p3: "\<forall>i \<in> set [0 ..< ?n]. i + 1 < length (r_bnd ?r)"
    using slot by simp
  have p4: "\<forall>i \<in> set [0 ..< ?n].
              b_start (r_bnd ?r ! i) \<le> b_start (r_bnd ?r ! (i + 1)) \<and>
              b_start (r_bnd ?r ! (i + 1)) \<le> length ?mem"
  proof
    fix i assume "i \<in> set [0 ..< ?n]"
    then have i: "i < ?n" by simp
    then have "i + 1 \<le> ?n" by simp
    from starts_chain [of ?n "\<lambda>i. b_start (r_bnd ?r ! i)", OF starts this]
    have "b_start (r_bnd ?r ! (i + 1)) \<le> ?start" .
    with last inside have "b_start (r_bnd ?r ! (i + 1)) \<le> length ?mem" by simp
    with starts i show "b_start (r_bnd ?r ! i) \<le> b_start (r_bnd ?r ! (i + 1)) \<and>
              b_start (r_bnd ?r ! (i + 1)) \<le> length ?mem"
      by simp
  qed
  have "off_only (r_bnd ?r) (r_bnd (reconcile s1)) \<and>
         (\<forall>j. j \<notin> set [0 ..< ?n] \<longrightarrow> r_bnd (reconcile s1) ! j = r_bnd ?r ! j) \<and>
         reconcile s1 = ?r\<lparr>r_bnd := r_bnd (reconcile s1)\<rparr> \<and>
         s1 = s\<lparr>reconcile := reconcile s1, blk := blk s1\<rparr> \<and>
         blk s1 = (blk s)\<lparr>blk_writes := blk_writes (blk s) @
                     map (\<lambda>i. (chunk_image e ?r i, b_off (r_bnd (reconcile s1) ! i))) [0 ..< ?n]\<rparr>"
    by (rule rec_split_fixup_loop_result [OF loop _ p3 p4 cell]) simp_all
  then have oo: "off_only (r_bnd ?r) (r_bnd (reconcile s1))"
    and keep: "\<forall>j. j \<notin> set [0 ..< ?n] \<longrightarrow> r_bnd (reconcile s1) ! j = r_bnd ?r ! j"
    and fr: "reconcile s1 = ?r\<lparr>r_bnd := r_bnd (reconcile s1)\<rparr>"
    and fs: "s1 = s\<lparr>reconcile := reconcile s1, blk := blk s1\<rparr>"
    and wr: "blk s1 = (blk s)\<lparr>blk_writes := blk_writes (blk s) @
                     map (\<lambda>i. (chunk_image e ?r i, b_off (r_bnd (reconcile s1) ! i))) [0 ..< ?n]\<rparr>"
    by blast+
  from arg_cong [OF fr, of r_bnd_next] have n1: "r_bnd_next (reconcile s1) = ?n" by simp
  from arg_cong [OF fr, of r_first_free] have ff1: "r_first_free (reconcile s1) = r_first_free ?r"
    by simp
  from arg_cong [OF fr, of r_dsk] have d1: "r_dsk (reconcile s1) = r_dsk ?r" by simp
  from arg_cong [OF fr, of r_entries] have e1: "r_entries (reconcile s1) = r_entries ?r" by simp
  from arg_cong [OF fr, of r_total_entries]
  have te1: "r_total_entries (reconcile s1) = r_total_entries ?r" by simp
  from arg_cong [OF fr, of r_split_size] have ss1: "r_split_size (reconcile s1) = r_split_size ?r"
    by simp
  from keep have st1: "r_bnd (reconcile s1) ! ?n = r_bnd ?r ! ?n" by simp
  from arg_cong [OF fs, of track] have tr1: "track s1 = track s" by simp
  from s' s2 have bnd': "r_bnd (reconcile s') = r_bnd (reconcile s1)"
    and blk': "blk s' = blk s1" and tr': "track s' = track s1"
    and mem': "dsk_mem (r_dsk (reconcile s')) =
                 mem_write (dsk_mem (r_dsk (reconcile s1))) 0
                   (take (r_first_free (reconcile s1)
                            - b_start (r_bnd (reconcile s1) ! r_bnd_next (reconcile s1)))
                      (drop (b_start (r_bnd (reconcile s1) ! r_bnd_next (reconcile s1)))
                         (dsk_mem (r_dsk (reconcile s1)))))"
    and en': "r_entries (reconcile s') =
                u32 (int (r_entries (reconcile s1)) - int (r_total_entries (reconcile s1)))"
    and ff': "r_first_free (reconcile s') = r_first_free (reconcile s1)
                 - b_start (r_bnd (reconcile s1) ! r_bnd_next (reconcile s1))"
    and sa': "r_space_avail (reconcile s') =
                u32 (int (r_split_size (reconcile s1)) - int (WT_PAGE_DISK_SIZE e)
                 - int (r_first_free (reconcile s1)
                      - b_start (r_bnd (reconcile s1) ! r_bnd_next (reconcile s1))))"
    and st': "r_bnd_state (reconcile s') = SPLIT_TRACKING_OFF"
    and nx': "r_bnd_next (reconcile s') = r_bnd_next (reconcile s1)"
    by simp_all
  from last inside have rlen: "length (take ?len (drop ?start ?mem)) = ?len" by simp
  have mem: "dsk_mem (r_dsk (reconcile s')) = take ?len (drop ?start ?mem) @ drop ?len ?mem"
    unfolding mem' n1 ff1 d1 st1 using rlen by (simp only: mem_write_head_eq)
  have c1: "blk_writes (blk s') = blk_writes (blk s) @
           map (\<lambda>i. (chunk_image e ?r i, b_off (r_bnd (reconcile s') ! i))) [0 ..< ?n]"
    unfolding blk' bnd' by (subst wr) simp
  have c3: "\<forall>j \<ge> ?n. r_bnd (reconcile s') ! j = r_bnd ?r ! j"
    unfolding bnd' using keep by simp
  have c9: "blk_frees (blk s') = blk_frees (blk s)"
    unfolding blk' by (subst wr) simp
  from c1 oo c3 mem c9 show ?thesis
    unfolding bnd' en' ff' sa' st' nx' tr' n1 ff1 e1 te1 ss1 st1 tr1 by simp
qed

lemma upt_0_2: "[0 ..< 2] = [0, 1]"
  by (simp add: numeral_2_eq_2)

lemma ex_fixup_run:
  "\<exists>s'. rec_split ex_env ex_fixup = Inr s' \<and>
        map b_off (r_bnd (reconcile s')) =
          [\<lparr>off_addr = 100, off_size = 9\<rparr>, \<lparr>off_addr = 101, off_size = 8\<rparr>,
           \<lparr>off_addr = 0, off_size = 64\<rparr>, \<lparr>off_addr = 0, off_size = 0\<rparr>] \<and>
        map (\<lambda>w. im_bytes (fst w)) (blk_writes (blk s')) =
          [[10, 11, 12, 13, 1], [14, 15, 16, 1]]"
  by (simp add: rec_split_def rec_split_max_def rec_split_fixup_def rec_split_write_def
      mem_write_def ex_fixup_def ex_session_def ex_reconcile_def ex_env_def ex_bnd_def
      ex_tag_def bnd_clear_def upt_0_2 Let_def u32_def)

text \<open>Claim C1 at a concrete input, a row-store leaf page: the chunks of four and three
  bytes are written, each followed by the trailing key cell, with the entry counts 3 and
  2 and the record numbers 1 and 4; the two residual bytes are moved to the start of the
  buffer, one entry is left.\<close>

theorem rec_split_max_fixup_witness:
  "\<exists>s'. rec_split ex_env ex_fixup = Inr s' \<and>
     blk_writes (blk s') =
       [(\<lparr>im_hdr = \<lparr>d_type = WT_PAGE_ROW_LEAF, d_recno = 1, d_entries = 3\<rparr>,
          im_bytes = [10, 11, 12, 13, 1]\<rparr>, \<lparr>off_addr = 100, off_size = 9\<rparr>),
        (\<lparr>im_hdr = \<lparr>d_type = WT_PAGE_ROW_LEAF, d_recno = 4, d_entries = 2\<rparr>,
          im_bytes = [14, 15, 16, 1]\<rparr>, \<lparr>off_addr = 101, off_size = 8\<rparr>)] \<and>
     dsk_mem (r_dsk (reconcile s')) = [17, 18, 12, 13, 14, 15, 16, 17, 18, 0, 0, 0] \<and>
     r_entries (reconcile s') = 1 \<and> r_first_free (reconcile s') = 2 \<and>
     r_space_avail (reconcile s') = 6 \<and> r_bnd_state (reconcile s') = SPLIT_TRACKING_OFF"
proof -
  let ?s = "ex_fixup"
  from ex_fixup_run obtain s' where
    run: "rec_split ex_env ?s = Inr s'" and
    offs: "map b_off (r_bnd (reconcile s')) =
          [\<lparr>off_addr = 100, off_size = 9\<rparr>, \<lparr>off_addr = 101, off_size = 8\<rparr>,
           \<lparr>off_addr = 0, off_size = 64\<rparr>, \<lparr>off_addr = 0, off_size = 0\<rparr>]"
    by auto
  from arg_cong [OF offs, of length] have len: "length (r_bnd (reconcile s')) = 4" by simp
  from arg_cong [OF offs, of "\<lambda>xs. xs ! 0"] arg_cong [OF offs, of "\<lambda>xs. xs ! 1"] len
  have off: "b_off (r_bnd (reconcile s') ! 0) = \<lparr>off_addr = 100, off_size = 9\<rparr>"
    "b_off (r_bnd (reconcile s') ! 1) = \<lparr>off_addr = 101, off_size = 8\<rparr>"
    by simp_all
  have state: "r_bnd_state (reconcile ?s) = SPLIT_MAX"
    and slot: "r_bnd_next (reconcile ?s) < length (r_bnd (reconcile ?s))"
    and starts: "\<forall>i < r_bnd_next (reconcile ?s).
                   b_start (r_bnd (reconcile ?s) ! i) \<le> b_start (r_bnd (reconcile ?s) ! (i + 1))"
    and last: "b_start (r_bnd (reconcile ?s) ! r_bnd_next (reconcile ?s)) \<le> r_first_free (reconcile ?s)"
    and inside: "r_first_free (reconcile ?s) \<le> length (dsk_mem (r_dsk (reconcile ?s)))"
    by (simp_all add: ex_fixup_def ex_session_def ex_reconcile_def ex_bnd_def numeral_2_eq_2
        All_less_Suc)
  have cell: "d_type (dsk_hdr (r_dsk (reconcile ?s))) = WT_PAGE_ROW_LEAF \<longrightarrow>
                 length (wt_cell_pack_type ex_env WT_CELL_KEY 0) = 1"
    by (simp add: ex_env_def)
  from rec_split_max_fixup [OF state run slot starts last inside cell] off
  have "blk_writes (blk s') =
       [(\<lparr>im_hdr = \<lparr>d_type = WT_PAGE_ROW_LEAF, d_recno = 1, d_entries = 3\<rparr>,
          im_bytes = [10, 11, 12, 13, 1]\<rparr>, \<lparr>off_addr = 100, off_size = 9\<rparr>),
        (\<lparr>im_hdr = \<lparr>d_type = WT_PAGE_ROW_LEAF, d_recno = 4, d_entries = 2\<rparr>,
          im_bytes = [14, 15, 16, 1]\<rparr>, \<lparr>off_addr = 101, off_size = 8\<rparr>)] \<and>
     dsk_mem (r_dsk (reconcile s')) = [17, 18, 12, 13, 14, 15, 16, 17, 18, 0, 0, 0] \<and>
     r_entries (reconcile s') = 1 \<and> r_first_free (reconcile s') = 2 \<and>
     r_space_avail (reconcile s') = 6 \<and> r_bnd_state (reconcile s') = SPLIT_TRACKING_OFF"
    by (simp add: chunk_image_def ex_fixup_def ex_session_def ex_reconcile_def ex_bnd_def
        ex_env_def ex_tag_def upt_0_2 u32_def)
  with run show ?thesis by blast
qed

text \<open>Claim C1 as stated fails on a row-store leaf page: the body of each block written
  is the chunk followed by the trailing key cell, one byte more than the
  \<open>bnd[i+1].start - bnd[i].start\<close> bytes of the chunk.\<close>

theorem rec_split_max_fixup_row_leaf:
  "\<exists>s'. rec_split ex_env ex_fixup = Inr s' \<and>
     map (\<lambda>w. im_bytes (fst w)) (blk_writes (blk s')) = [[10, 11, 12, 13, 1], [14, 15, 16, 1]] \<and>
     map (\<lambda>i. take (b_start (r_bnd (reconcile ex_fixup) ! (i + 1))
                      - b_start (r_bnd (reconcile ex_fixup) ! i))
                (drop (b_start (r_bnd (reconcile ex_fixup) ! i))
                   (dsk_mem (r_dsk (reconcile ex_fixup))))) [0, 1]
       = [[10, 11, 12, 13], [14, 15, 16]]"
proof -
  from ex_fixup_run obtain s' where
    "rec_split ex_env ex_fixup = Inr s'"
    "map (\<lambda>w. im_bytes (fst w)) (blk_writes (blk s')) = [[10, 11, 12, 13, 1], [14, 15, 16, 1]]"
    by auto
  moreover have "map (\<lambda>i. take (b_start (r_bnd (reconcile ex_fixup) ! (i + 1))
                      - b_start (r_bnd (reconcile ex_fixup) ! i))
                (drop (b_start (r_bnd (reconcile ex_fixup) ! i))
                   (dsk_mem (r_dsk (reconcile ex_fixup))))) [0, 1]
       = [[10, 11, 12, 13], [14, 15, 16]]"
    by (simp add: ex_fixup_def ex_session_def ex_reconcile_def ex_bnd_def)
  ultimately show ?thesis by (intro exI [of _ s'] conjI)
qed

section \<open>The merge correction key (claim C6)\<close>

text \<open>The split engine and the copy of an entry leave \<^verbatim>\<open>r->merge_ref\<close> alone.\<close>

lemma rec_split_write_merge_ref:
  assumes "rec_split_write e s i buf = Inr (s', buf')"
  shows "r_merge_ref (reconcile s') = r_merge_ref (reconcile s)"
proof -
  from assms obtain off where
    "s' = s\<lparr>reconcile := (reconcile s)\<lparr>r_bnd := (r_bnd (reconcile s))
               [i := (r_bnd (reconcile s) ! i)\<lparr>b_off := off\<rparr>]\<rparr>,
           blk := (blk s)\<lparr>blk_writes := blk_writes (blk s) @ [(split_write_image e buf, off)]\<rparr>\<rparr>"
    by (rule rec_split_write_result)
  then show ?thesis by simp
qed

lemma rec_split_fixup_loop_merge_ref:
  "rec_split_fixup_loop e is s tmp = Inr (s', tmp') \<Longrightarrow>
     r_merge_ref (reconcile s') = r_merge_ref (reconcile s)"
proof (induction "is" arbitrary: s tmp)
  case Nil
  then show ?case by simp
next
  case (Cons i rest)
  from Cons.prems obtain s1 tmp1 t where
    w: "rec_split_write e s i t = Inr (s1, tmp1)" and
    rest: "rec_split_fixup_loop e rest s1 tmp1 = Inr (s', tmp')"
    by (auto simp: Let_def split: sum.splits)
  from Cons.IH [OF rest] rec_split_write_merge_ref [OF w] show ?case by simp
qed

lemma rec_split_row_promote_merge_ref:
  "rec_split_row_promote e s ty = Inr s' \<Longrightarrow>
     r_merge_ref (reconcile s') = r_merge_ref (reconcile s)"
  by (auto simp: rec_split_row_promote_def rec_split_row_promote_first_def Let_def
      split: sum.splits if_splits)

lemma rec_split_merge_ref:
  assumes "rec_split e s = Inr s'"
  shows "r_merge_ref (reconcile s') = r_merge_ref (reconcile s)"
proof (cases "r_bnd_state (reconcile s)")
  case SPLIT_BOUNDARY
  with assms have run: "rec_split_boundary e s = Inr s'" by (simp add: rec_split_def)
  then show ?thesis
    by (auto simp: rec_split_boundary_def rec_split_bnd_grow_def Let_def
        dest!: rec_split_row_promote_merge_ref split: sum.splits if_splits)
next
  case SPLIT_MAX
  with assms obtain s2 where
    f: "rec_split_fixup e s = Inr s2" and
    s': "s' = s2\<lparr>reconcile := (reconcile s2)\<lparr>r_bnd_state := SPLIT_TRACKING_OFF\<rparr>\<rparr>"
    by (auto simp: rec_split_def rec_split_max_def split: sum.splits)
  from f obtain s1 tmp1 t where
    loop: "rec_split_fixup_loop e [0 ..< r_bnd_next (reconcile s)] s t = Inr (s1, tmp1)"
    and s2: "r_merge_ref (reconcile s2) = r_merge_ref (reconcile s1)"
    by (auto simp: rec_split_fixup_def Let_def split: sum.splits if_splits)
  from rec_split_fixup_loop_merge_ref [OF loop] s2 s' show ?thesis by simp
next
  case SPLIT_TRACKING_OFF
  with assms have run: "rec_split_tracking_off e s = Inr s'" by (simp add: rec_split_def)
  then show ?thesis
    by (auto simp: rec_split_tracking_off_def rec_split_bnd_grow_def Let_def
        dest!: rec_split_row_promote_merge_ref rec_split_write_merge_ref
        split: sum.splits if_splits)
qed

lemma rec_row_split_while_merge_ref:
  assumes run: "rec_row_split_while e cell os = Some y"
  shows "\<forall>o' s'. y = Inr (o', s') \<longrightarrow>
           r_merge_ref (reconcile s') = r_merge_ref (reconcile (snd os))"
proof (rule rec_row_split_while.raw_induct
    [where P = "\<lambda>e cell os y. \<forall>o' s'. y = Inr (o', s') \<longrightarrow>
                  r_merge_ref (reconcile s') = r_merge_ref (reconcile (snd os))", OF _ run],
    goal_cases)
  case (1 f e cell os y)
  obtain ovfl_key s where os: "os = (ovfl_key, s)" by (cases os)
  show ?case
  proof (cases "kv_len (r_k (reconcile s)) + kv_len (r_v (reconcile s)) > r_space_avail (reconcile s)")
    case False
    with 1(2) os show ?thesis by auto
  next
    case True
    define pre where "pre =
      (case cell of
         Some c \<Rightarrow>
           (if ovfl_key
            then (case wt_cell_copy e c of
                    Inl err \<Rightarrow> Inl err
                  | Inr key \<Rightarrow>
                      Inr (s\<lparr>reconcile := (reconcile s)
                               \<lparr>r_cur := (r_cur (reconcile s))\<lparr>it_data := key\<rparr>\<rparr>\<rparr>))
            else Inr s)
       | None \<Rightarrow> Inr s)"
    from 1(2) os True have body:
      "(case pre of
          Inl err \<Rightarrow> Some (Inl err)
        | Inr s \<Rightarrow>
            (case rec_split e s of
               Inl err \<Rightarrow> Some (Inl err)
             | Inr s \<Rightarrow>
                 let s = s\<lparr>reconcile := (reconcile s)\<lparr>r_key_pfx_compress := False\<rparr>\<rparr>
                 in if \<not> ovfl_key
                    then (case rec_cell_build_key e s None 0 True of
                            Inl err \<Rightarrow> Some (Inl err)
                          | Inr os' \<Rightarrow> f e cell os')
                    else f e cell (ovfl_key, s))) = Some y"
      by (simp add: pre_def)
    show ?thesis
    proof (intro allI impI)
      fix o' s' assume y: "y = Inr (o', s')"
      from body y obtain sa where pre: "pre = Inr sa" by (cases pre) auto
      then have sa: "r_merge_ref (reconcile sa) = r_merge_ref (reconcile s)"
        by (auto simp: pre_def split: option.splits if_splits sum.splits)
      from body y pre obtain sb where sp: "rec_split e sa = Inr sb"
        by (cases "rec_split e sa") auto
      let ?sc = "sb\<lparr>reconcile := (reconcile sb)\<lparr>r_key_pfx_compress := False\<rparr>\<rparr>"
      have sc: "r_merge_ref (reconcile ?sc) = r_merge_ref (reconcile s)"
        using rec_split_merge_ref [OF sp] sa by simp
      show "r_merge_ref (reconcile s') = r_merge_ref (reconcile (snd os))"
      proof (cases ovfl_key)
        case True
        with body y pre sp have "f e cell (ovfl_key, ?sc) = Some (Inr (o', s'))"
          by (simp add: Let_def)
        from 1(1) [OF this] sc os show ?thesis by simp
      next
        case False
        with body y pre sp obtain f' sd where
          b: "rec_cell_build_key e ?sc None 0 True = Inr (f', sd)"
          and r: "f e cell (f', sd) = Some (Inr (o', s'))"
          by (cases "rec_cell_build_key e ?sc None 0 True") (auto simp: Let_def)
        from key_frame_fields(5) [OF rec_cell_build_key_frame [OF b]] sc
        have "r_merge_ref (reconcile sd) = r_merge_ref (reconcile s)" by simp
        with 1(1) [OF r] os show ?thesis by simp
      qed
    qed
  qed
qed

lemma rec_row_copy_merge_ref:
  assumes "rec_row_copy e cell os = Some (Inr s')"
  shows "r_merge_ref (reconcile s') = r_merge_ref (reconcile (snd os))"
proof -
  from assms obtain o1 s1 where
    w: "rec_row_split_while e cell os = Some (Inr (o1, s1))"
    and s': "r_merge_ref (reconcile s') = r_merge_ref (reconcile s1)"
    by (auto simp: rec_row_copy_def rec_copy_incr_def rec_incr_def rec_key_state_update_def
        Let_def split: option.splits sum.splits if_splits)
  from rec_row_split_while_merge_ref [OF w] s' show ?thesis by simp
qed

lemma rec_row_key_merge_ref:
  assumes "rec_row_key e ikey off s = Some (Inr s')"
  shows "r_merge_ref (reconcile s') = r_merge_ref (reconcile s)"
proof -
  let ?s0 = "s\<lparr>reconcile := (reconcile s)\<lparr>r_v := (r_v (reconcile s))\<lparr>kv_off := off\<rparr>\<rparr>\<rparr>"
  from assms obtain f s1 where
    b: "rec_cell_build_key e ?s0 (Some (ik_data ikey))
          (if r_cell_zero (reconcile s) then 1 else length (ik_data ikey)) True = Inr (f, s1)"
    and c: "rec_row_copy e None (f, s1\<lparr>reconcile := (reconcile s1)\<lparr>r_cell_zero := False\<rparr>\<rparr>)
              = Some (Inr s')"
    by (auto simp: rec_row_key_def Let_def split: sum.splits)
  from key_frame_fields(5) [OF rec_cell_build_key_frame [OF b]] rec_row_copy_merge_ref [OF c]
  show ?thesis by simp
qed

lemma rec_row_merge_entries_append:
  "rec_row_merge_entries e (es @ es') s =
     (case rec_row_merge_entries e es s of
        None \<Rightarrow> None
      | Some (Inl err) \<Rightarrow> Some (Inl err)
      | Some (Inr s') \<Rightarrow> rec_row_merge_entries e es' s')"
  by (induction es arbitrary: s) (auto split: option.splits sum.splits)

lemma rec_row_merge_entries_single:
  "rec_row_merge_entries e [(k, off)] s = rec_row_merge_entry e k off s"
  by (auto split: option.splits sum.splits)

text \<open>\<^verbatim>\<open>__rec_row_merge\<close> writes the entries of the page in order.\<close>

lemma rec_row_merge_entries_walk:
  "(\<forall>es s. merge_entries page = Some es \<longrightarrow>
       rec_row_merge e page s = rec_row_merge_entries e es s)"
  "(\<forall>es s. merge_entries_refs refs = Some es \<longrightarrow>
       rec_row_merge_refs e refs s = rec_row_merge_entries e es s)"
proof (induction page and refs rule: merge_entries_merge_entries_refs.induct)
  case (1 ty fl md u)
  then show ?case by (cases u) auto
next
  case 2
  show ?case by simp
next
  case (3 key addr sz st pg rest)
  show ?case
  proof (intro allI impI)
    fix es s
    assume es: "merge_entries_refs (Row_ref key addr sz st pg # rest) = Some es"
    let ?own = "\<lparr>off_addr = addr, off_size = sz\<rparr>"
    let ?hd = "(if st = WT_REF_DISK then Some [(key, ?own)]
            else (case pg of
                    None \<Rightarrow> None
                  | Some (Page ty fl md u) \<Rightarrow>
                      (case F_ISSET_REC_MASK fl of
                         REC_EMPTY \<Rightarrow> Some []
                       | REC_REPLACE \<Rightarrow>
                           (case md of
                              Some (U_write_off woff) \<Rightarrow> Some [(key, woff)]
                            | _ \<Rightarrow> None)
                       | REC_SPLIT \<Rightarrow>
                           (case md of
                              None \<Rightarrow> merge_entries (Page ty fl md u)
                            | Some (U_write_split sp) \<Rightarrow> merge_entries sp
                            | Some _ \<Rightarrow> None)
                       | REC_OTHER \<Rightarrow> Some [(key, ?own)])))"
    let ?step = "(if st = WT_REF_DISK
            then rec_row_merge_entry e key ?own s
            else (case pg of
                    None \<Rightarrow> Some (Inl Fault)
                  | Some (Page ty fl md u) \<Rightarrow>
                      (case F_ISSET_REC_MASK fl of
                         REC_EMPTY \<Rightarrow> Some (Inr s)
                       | REC_REPLACE \<Rightarrow>
                           (case md of
                              Some (U_write_off woff) \<Rightarrow> rec_row_merge_entry e key woff s
                            | _ \<Rightarrow> Some (Inl Fault))
                       | REC_SPLIT \<Rightarrow>
                           (case md of
                              None \<Rightarrow> rec_row_merge e (Page ty fl md u) s
                            | Some (U_write_split sp) \<Rightarrow> rec_row_merge e sp s
                            | Some _ \<Rightarrow> Some (Inl Fault))
                       | REC_OTHER \<Rightarrow> rec_row_merge_entry e key ?own s)))"
    from es obtain e1 e2 where h: "?hd = Some e1" and r: "merge_entries_refs rest = Some e2"
      and app: "es = e1 @ e2"
      by (auto split: option.splits)
    have step: "?step = rec_row_merge_entries e e1 s"
    proof (cases "st = WT_REF_DISK")
      case True
      with h show ?thesis by (auto split: option.splits sum.splits)
    next
      case False
      with h obtain ty fl md u where pg: "pg = Some (Page ty fl md u)"
        by (cases pg) (auto split: page.splits)
      show ?thesis
      proof (cases "F_ISSET_REC_MASK fl")
        case REC_EMPTY
        with False pg h show ?thesis by auto
      next
        case REC_REPLACE
        with False pg h show ?thesis
          by (auto split: option.splits mod_u.splits sum.splits)
      next
        case REC_SPLIT
        show ?thesis
        proof (cases md)
          case None
          with False pg h REC_SPLIT have "merge_entries (Page ty fl md u) = Some e1" by simp
          with "3.IH"(1) [OF False pg refl REC_SPLIT None] False pg REC_SPLIT None
          show ?thesis by simp
        next
          case (Some m)
          with False pg h REC_SPLIT obtain sp where m: "m = U_write_split sp"
            and sp: "merge_entries sp = Some e1"
            by (cases m) auto
          with "3.IH"(2) [OF False pg refl REC_SPLIT Some m] False pg REC_SPLIT Some
          show ?thesis by simp
        qed
      next
        case REC_OTHER
        with False pg h show ?thesis by (auto split: option.splits sum.splits)
      qed
    qed
    have "rec_row_merge_refs e (Row_ref key addr sz st pg # rest) s =
            (case ?step of
               None \<Rightarrow> None
             | Some (Inl err) \<Rightarrow> Some (Inl err)
             | Some (Inr s') \<Rightarrow> rec_row_merge_refs e rest s')"
      by simp
    also have "\<dots> = (case rec_row_merge_entries e e1 s of
               None \<Rightarrow> None
             | Some (Inl err) \<Rightarrow> Some (Inl err)
             | Some (Inr s') \<Rightarrow> rec_row_merge_entries e e2 s')"
      unfolding step using "3.IH"(3) [OF h] r
      by (auto split: option.splits sum.splits)
    also have "\<dots> = rec_row_merge_entries e es s"
      by (simp add: app rec_row_merge_entries_append)
    finally show "rec_row_merge_refs e (Row_ref key addr sz st pg # rest) s =
                    rec_row_merge_entries e es s" .
  qed
qed

lemma merge_ref_clear:
  "r_merge_ref (reconcile s) = None \<Longrightarrow>
     s\<lparr>reconcile := (reconcile s)\<lparr>r_merge_ref := None\<rparr>\<rparr> = s"
  by (cases s, cases "reconcile s") simp

text \<open>Once \<^verbatim>\<open>r->merge_ref\<close> is NULL every entry is written with its own key.\<close>

lemma rec_row_merge_entries_own:
  "r_merge_ref (reconcile s) = None \<Longrightarrow> rec_row_merge_entries e es s = rec_row_keys e es s"
proof (induction es arbitrary: s)
  case Nil
  show ?case by simp
next
  case (Cons ko es)
  from Cons.prems have entry:
    "rec_row_merge_entry e (fst ko) (snd ko) s = rec_row_key e (fst ko) (snd ko) s"
    by (simp add: rec_row_merge_entry_def Let_def merge_ref_clear)
  show ?case
  proof (cases "rec_row_key e (fst ko) (snd ko) s")
    case None
    with entry show ?thesis by simp
  next
    case (Some res)
    show ?thesis
    proof (cases res)
      case (Inl err)
      with Some entry show ?thesis by simp
    next
      case (Inr s')
      with Some rec_row_key_merge_ref [of e "fst ko" "snd ko" s s'] Cons.prems
      have "r_merge_ref (reconcile s') = None" by simp
      from Cons.IH [OF this] Some Inr entry show ?thesis by simp
    qed
  qed
qed

text \<open>With \<^verbatim>\<open>r->merge_ref\<close> set, the first entry is written with the merge correction
  key, and the others with their own.\<close>

lemma rec_row_merge_entries_correction:
  assumes "r_merge_ref (reconcile s) = Some m"
  shows "rec_row_merge_entries e ((k, off) # es) s =
           rec_row_keys e ((m, off) # es) (s\<lparr>reconcile := (reconcile s)\<lparr>r_merge_ref := None\<rparr>\<rparr>)"
proof -
  let ?s0 = "s\<lparr>reconcile := (reconcile s)\<lparr>r_merge_ref := None\<rparr>\<rparr>"
  from assms have entry: "rec_row_merge_entry e k off s = rec_row_key e m off ?s0"
    by (simp add: rec_row_merge_entry_def Let_def)
  show ?thesis
  proof (cases "rec_row_key e m off ?s0")
    case None
    with entry show ?thesis by simp
  next
    case (Some res)
    show ?thesis
    proof (cases res)
      case (Inl err)
      with Some entry show ?thesis by simp
    next
      case (Inr s')
      with Some rec_row_key_merge_ref [of e m off ?s0 s']
      have "r_merge_ref (reconcile s') = None" by simp
      from rec_row_merge_entries_own [OF this] Some Inr entry show ?thesis by simp
    qed
  qed
qed

text \<open>Claim C6.  Let \<^verbatim>\<open>__rec_row_int\<close> come to a reference that is not on disk and whose
  page is flagged \<^verbatim>\<open>WT_PAGE_REC_SPLIT\<close>, and let \<open>es\<close> be the entries of the split page
  (\<open>tp\<close>, the page itself or its \<^verbatim>\<open>modify->u.write_split\<close>), in order, deleted pages left
  out and split pages below it inlined.  Then the round of the loop does what writing
  these entries one after the other does, the first with the key of the parent's
  reference in place of its own key, the others with their own keys; \<^verbatim>\<open>r->merge_ref\<close> is
  NULL from the first entry on.  (Each key is written as \<^verbatim>\<open>__rec_row_merge\<close> writes any
  key, a 0th key of the page truncated to one byte.)  With no entry to write, nothing is
  written and \<^verbatim>\<open>r->merge_ref\<close> stays set.\<close>

theorem rec_row_int_ref_merge:
  assumes state: "rr_state rref \<noteq> WT_REF_DISK"
    and child: "rr_page rref = Some rp"
    and flag: "F_ISSET_REC_MASK (pg_flags rp) = REC_SPLIT"
    and target: "split_target rp = Some tp"
    and entries: "merge_entries tp = Some es"
  shows "rec_row_int_ref e rref s =
           (case es of
              [] \<Rightarrow> Some (Inr (s\<lparr>reconcile := (reconcile s)\<lparr>r_merge_ref := Some (rr_key rref)\<rparr>\<rparr>))
            | ko # rest \<Rightarrow>
                rec_row_keys e ((rr_key rref, snd ko) # rest)
                  (s\<lparr>reconcile := (reconcile s)\<lparr>r_merge_ref := None\<rparr>\<rparr>))"
proof -
  let ?s1 = "s\<lparr>reconcile := (reconcile s)\<lparr>r_merge_ref := Some (rr_key rref)\<rparr>\<rparr>"
  from state child flag target
  have "rec_row_int_ref e rref s = rec_row_merge e tp ?s1"
    by (auto simp: rec_row_int_ref_def split_target_def Let_def
        split: option.splits mod_u.splits)
  also from rec_row_merge_entries_walk(1) [of tp e] entries
  have "\<dots> = rec_row_merge_entries e es ?s1" by simp
  also have "\<dots> = (case es of
              [] \<Rightarrow> Some (Inr ?s1)
            | ko # rest \<Rightarrow>
                rec_row_keys e ((rr_key rref, snd ko) # rest)
                  (s\<lparr>reconcile := (reconcile s)\<lparr>r_merge_ref := None\<rparr>\<rparr>))"
  proof (cases es)
    case Nil
    then show ?thesis by simp
  next
    case (Cons ko rest)
    have m: "r_merge_ref (reconcile ?s1) = Some (rr_key rref)" by simp
    have "rec_row_merge_entries e ((fst ko, snd ko) # rest) ?s1 =
            rec_row_keys e ((rr_key rref, snd ko) # rest)
              (?s1\<lparr>reconcile := (reconcile ?s1)\<lparr>r_merge_ref := None\<rparr>\<rparr>)"
      using m by (rule rec_row_merge_entries_correction)
    with Cons show ?thesis by simp
  qed
  finally show ?thesis .
qed

text \<open>Claim C6 at a concrete input: the entries written are \<open>m\<close> with the first page's
  address pair and \<open>t\<close> with the second's; the split page's own first key \<open>p\<close> is not
  written.\<close>

theorem rec_row_int_ref_merge_witness:
  "\<exists>s'. rec_row_int_ref ex_env ex_split_ref ex_row_int_session = Some (Inr s') \<and>
        take 14 (dsk_mem (r_dsk (reconcile s'))) =
          [1, 0, 1, 109, 3, 20, 64, 1, 0, 1, 116, 3, 21, 64] \<and>
        r_entries (reconcile s') = 4 \<and> r_merge_ref (reconcile s') = None"
proof -
  have state: "rr_state ex_split_ref \<noteq> WT_REF_DISK"
    and child: "rr_page ex_split_ref = Some ex_split_page"
    and flag: "F_ISSET_REC_MASK (pg_flags ex_split_page) = REC_SPLIT"
    and target: "split_target ex_split_page = Some ex_split_page"
    and entries: "merge_entries ex_split_page =
       Some [(\<lparr>ik_cell = None, ik_data = [112]\<rparr>, \<lparr>off_addr = 20, off_size = 64\<rparr>),
             (\<lparr>ik_cell = None, ik_data = [116]\<rparr>, \<lparr>off_addr = 21, off_size = 64\<rparr>)]"
    by (simp_all add: ex_split_ref_def ex_split_page_def split_target_def F_ISSET_REC_MASK_def)
  have key: "rr_key ex_split_ref = \<lparr>ik_cell = None, ik_data = [109]\<rparr>"
    by (simp add: ex_split_ref_def)
  have "\<exists>s'. rec_row_keys ex_env
           [(\<lparr>ik_cell = None, ik_data = [109]\<rparr>, \<lparr>off_addr = 20, off_size = 64\<rparr>),
            (\<lparr>ik_cell = None, ik_data = [116]\<rparr>, \<lparr>off_addr = 21, off_size = 64\<rparr>)]
           (ex_row_int_session\<lparr>reconcile := (reconcile ex_row_int_session)\<lparr>r_merge_ref := None\<rparr>\<rparr>)
          = Some (Inr s') \<and>
        take 14 (dsk_mem (r_dsk (reconcile s'))) =
          [1, 0, 1, 109, 3, 20, 64, 1, 0, 1, 116, 3, 21, 64] \<and>
        r_entries (reconcile s') = 4 \<and> r_merge_ref (reconcile s') = None"
    by (simp add: rec_row_key_def rec_row_copy_def rec_row_split_while.simps
        rec_cell_build_key.simps rec_key_start_def rec_key_prefix_def pfx_loop.simps
        rec_key_huffman_def rec_key_cell_def rec_copy_incr_def rec_incr_def
        rec_key_state_update_def mem_write_def kv_data_def u32_def
        ex_row_int_session_def ex_defs Let_def)
  with rec_row_int_ref_merge [OF state child flag target entries, of ex_env ex_row_int_session] key
  show ?thesis by simp
qed

section \<open>The run-length window of the variable-length column walk (claim C7)\<close>

lemma and_then_simps [simp]:
  "and_then None f = None"
  "and_then (Some (Inl err)) f = Some (Inl err)"
  "and_then (Some (Inr x)) f = f x"
  by (simp_all add: and_then_def)

lemma and_then_return [simp]: "and_then m (\<lambda>x. Some (Inr x)) = m"
  by (simp add: and_then_def split: option.splits sum.splits)



lemma u64_id: "n < 18446744073709551616 \<Longrightarrow> u64 (int n) = n"
  by (simp add: u64_def)









text \<open>The window of the code against the runs.\<close>

lemma set_last_own [simp]: "set_last (it_data (r_last (reconcile s))) s = s"
  by (simp add: set_last_def)

lemma set_last_twice [simp]: "set_last v (set_last w s) = set_last v s"
  by (simp add: set_last_def)

lemma set_last_data [simp]: "it_data (r_last (reconcile (set_last v s))) = v"
  by (simp add: set_last_def)


lemma track_reconcile [simp]: "reconcile (wt_rec_track s ty ref a sz) = reconcile s"
  by (simp add: wt_rec_track_def)

lemma write_run_set_last [simp]: "write_run e False v c (set_last v s) = write_run e False v c s"
  by (simp add: write_run_def)












lemma events_count_append [simp]: "events_count (xs @ ys) = events_count xs + events_count ys"
proof (induction xs)
  case Nil
  show ?case by simp
next
  case (Cons x xs)
  then show ?case by (cases x) simp_all
qed












lemma events_count_replicate [simp]: "events_count (replicate k (Rec d v c)) = k * c"
  by (induction k) simp_all















end
